theory Spec2Isabelle
  imports Main "HOL-Library.Sublist" "HOL-Library.Multiset"
begin

section \<open>The bundle server of kURL (cmd/server/main.go)\<close>

text \<open>
  The handler \<^verbatim>\<open>bundle\<close> resolves a manifest from the upstream service, probes every
  layer URL, checks every image against the registry allowlist, and then streams a
  gzip-compressed tar archive: one entry per pulled image, the re-rooted entries of every
  remote layer, and one entry per inline file.

  Everything outside the handler (the upstream service, the registries, the layer hosts,
  the scratch file system, the clock, the order in which Go's \<^verbatim>\<open>range\<close> visits a map, and
  what the library writers decide: which headers the tar writer can encode, when the
  gzip writer releases compressed data) is a field of the record \<open>env\<close>. The handler
  is a function from the environment, the request and the state of the response to the
  new state; the state holds the response writer, the gzip and tar writers on top of it,
  and the trace of every external effect.
\<close>

subsection \<open>Strings and paths\<close>

text \<open>\<^verbatim>\<open>strings.TrimSuffix\<close>.\<close>

definition TrimSuffix :: "string \<Rightarrow> string \<Rightarrow> string" where
  "TrimSuffix s suf = (if suffix suf s then take (length s - length suf) s else s)"

text \<open>The verb \<^verbatim>\<open>%d\<close> of \<^verbatim>\<open>fmt.Sprintf\<close> on a non-negative index.\<close>

fun show_nat :: "nat \<Rightarrow> string" where
  "show_nat n =
     (if n < 10 then [''0123456789'' ! n]
      else show_nat (n div 10) @ [''0123456789'' ! (n mod 10)])"

declare show_nat.simps [simp del]

text \<open>
  \<^verbatim>\<open>filepath.Join\<close> and \<^verbatim>\<open>filepath.Clean\<close> of the Go standard library on a system whose
  separator is the slash. \<^verbatim>\<open>Clean\<close> is purely lexical; its documented rules are: replace
  multiple separators by one, drop every \<^verbatim>\<open>.\<close> element, drop every inner \<^verbatim>\<open>..\<close> element
  together with the non-\<^verbatim>\<open>..\<close> element before it, drop \<^verbatim>\<open>..\<close> elements that begin a rooted
  path, and return \<^verbatim>\<open>.\<close> for an empty result. The model works on the elements between
  slashes, with the elements kept so far on a stack (last kept element first).
\<close>

fun split_slash :: "string \<Rightarrow> string list" where
  "split_slash [] = [[]]"
| "split_slash (c # cs) =
     (if c = CHR ''/'' then [] # split_slash cs
      else (case split_slash cs of
              [] \<Rightarrow> [[c]]
            | x # xs \<Rightarrow> (c # x) # xs))"

fun join_slash :: "string list \<Rightarrow> string" where
  "join_slash [] = []"
| "join_slash [x] = x"
| "join_slash (x # y # ys) = x @ ''/'' @ join_slash (y # ys)"

definition clean_step :: "bool \<Rightarrow> string list \<Rightarrow> string \<Rightarrow> string list" where
  "clean_step rooted st c =
     (if c = [] \<or> c = ''.'' then st
      else if c = ''..'' then
        (case st of
           [] \<Rightarrow> if rooted then [] else [''..'']
         | t # ts \<Rightarrow> if t = ''..'' then ''..'' # st else ts)
      else c # st)"

definition Clean :: "string \<Rightarrow> string" where
  "Clean path =
     (if path = [] then ''.''
      else
        let rooted = (hd path = CHR ''/'');
            kept = join_slash (rev (foldl (clean_step rooted) [] (split_slash path)))
        in if rooted then ''/'' @ kept
           else if kept = [] then ''.'' else kept)"

text \<open>
  \<^verbatim>\<open>Join\<close> ignores leading empty elements, joins the rest with the separator and cleans
  the result; with no non-empty element it returns the empty string.
\<close>

definition filepath_Join :: "string list \<Rightarrow> string" where
  "filepath_Join elem =
     (case dropWhile (\<lambda>e. e = []) elem of
        [] \<Rightarrow> []
      | es \<Rightarrow> Clean (join_slash es))"

text \<open>
  A path element that \<^verbatim>\<open>Clean\<close> keeps as it is: not empty, neither \<^verbatim>\<open>.\<close> nor \<^verbatim>\<open>..\<close>, and
  without a slash. A relative path of the form \<^verbatim>\<open>foo/bar.txt\<close> is a non-empty sequence of
  such elements joined by slashes.
\<close>

definition plain_elem :: "string \<Rightarrow> bool" where
  "plain_elem c = (c \<noteq> [] \<and> c \<noteq> ''.'' \<and> c \<noteq> ''..'' \<and> CHR ''/'' \<notin> set c)"

subsection \<open>Data model\<close>

text \<open>\<^verbatim>\<open>http.Header\<close>: a map from a header name to its values.\<close>

type_synonym Header = "string \<rightharpoonup> string list"

definition Header_Get :: "Header \<Rightarrow> string \<Rightarrow> string" where
  "Header_Get h k = (case h k of Some (v # _) \<Rightarrow> v | _ \<Rightarrow> [])"

definition Header_Set :: "Header \<Rightarrow> string \<Rightarrow> string \<Rightarrow> Header" where
  "Header_Set h k v = h(k \<mapsto> [v])"

record BundleManifest =
  Layers :: "string list"
  Files :: "string \<rightharpoonup> string"
  Images :: "string list"

text \<open>
  The fields of \<^verbatim>\<open>http.Request\<close> that the handler reads; \<open>Vars\<close> is the route variable map
  \<^verbatim>\<open>mux.Vars(r)\<close>. The last field is \<^verbatim>\<open>r.ProtoAtLeast(1, 1)\<close>, which the handler does not
  read but the response writer of \<^verbatim>\<open>net/http\<close> does.
\<close>

record Request =
  Method :: string
  URLPath :: string
  Vars :: "string \<rightharpoonup> string"
  ReqHeader :: Header
  RemoteAddr :: string
  ProtoAtLeast11 :: bool

text \<open>
  \<^verbatim>\<open>tar.Header\<close>: the four fields the handler sets; \<open>Other\<close> stands for all remaining
  fields (type flag, owner, link name and so on), which the handler leaves at their zero
  value in its own headers and never touches in the headers it relays.
\<close>

record tar_Header =
  Name :: string
  Size :: int
  Mode :: int
  ModTime :: nat
  Other :: nat

datatype pipe_error =
    PipeGet
  | PipeStatus nat
  | PipeGunzip
  | PipeNext
  | PipeCopy string

text \<open>One constructor for each place where the handler builds or wraps an error.\<close>

datatype error =
    ErrBuildRequest string
  | ErrFetch string
  | ErrReadBody string
  | ErrUnmarshal string string
  | ErrHead string string
  | ErrHeadStatus nat string string
  | ErrUnsupportedRegistry string
  | ErrParseImage string
  | ErrTempDir
  | ErrLocalName string
  | ErrPolicy
  | ErrPolicyContext
  | ErrSaveImage string
  | ErrOpenArchive
  | ErrStat
  | ErrCopyContents string
  | ErrPipe string string pipe_error
  | ErrWriteFile string string
  | ErrCloseArchive string
  | ErrCloseGzip string

text \<open>
  What the tar writer hands to the gzip writer: the header of an entry (with the
  padding that completes the entry before it), data of the entry, and the
  end-of-archive marker written by \<^verbatim>\<open>archive.Close\<close>.
\<close>

datatype tar_chunk =
    TarHeader tar_Header
  | TarData string
  | TarEnd

text \<open>
  What is written to the response writer: text written to it directly (\<open>Plain\<close>), and
  the output of the gzip writer, which buffers: the gzip header, which goes out with
  the first \<^verbatim>\<open>Write\<close> to the gzip writer; compressed data released while the archive is
  written, given by the number of its bytes (the bytes themselves are the next bytes of
  the compressed form of the chunks handed over so far); and what \<^verbatim>\<open>wz.Close\<close> writes,
  the rest of the compressed data and the gzip trailer.
\<close>

datatype chunk =
    Plain string
  | GzipHeader
  | Deflate nat
  | GzipEnd

text \<open>
  The external effects of the handler, in the order in which they happen. \<open>Archive\<close> is
  a chunk taken over by the gzip writer, \<open>Wire\<close> a chunk taken over by the response
  writer.
\<close>

datatype event =
    LogPrintf string string
  | LogPrintln error
  | BugsnagNotify error
  | ClientDo string Header
  | HttpHead string
  | HttpGet string
  | TempDir string
  | RemoveAll string
  | CopyImage string string
  | RuntimeGC
  | Archive tar_chunk
  | Wire chunk

subsection \<open>The environment\<close>

datatype do_result = DoErr | ReadErr | Resp nat string

datatype head_result = HeadErr | HeadStatus nat

text \<open>
  The result of copying bytes into an entry of the archive that has room for them
  (\<^verbatim>\<open>io.Copy\<close>, \<^verbatim>\<open>archive.Write\<close>): success, or an error of the source or of the writers
  below after the given number of bytes went through.
\<close>

datatype io_result = IoOk | IoErr nat

datatype tar_end = EOF | NextErr

type_synonym tar_item = "tar_Header \<times> string \<times> io_result"

text \<open>
  A remote layer as \<^verbatim>\<open>pipe\<close> reads it: the gzip reader may reject the body; otherwise the
  tar reader yields the entries of the (finite) body, each with its header, its data and
  the result of copying the data, and then reports the end of the archive or an error.
\<close>

datatype layer_body = GunzipErr | TarStream "tar_item list" tar_end

datatype get_result = GetErr | GetResp nat layer_body

text \<open>
  One image pull, by the step that fails: parsing the source reference, creating the
  scratch directory, parsing the local reference, reading the policy, creating the policy
  context, \<^verbatim>\<open>copy.Image\<close>, opening the archive file, \<^verbatim>\<open>Stat\<close>; or the bytes of the archive
  file and the result of copying them into the archive.
\<close>

datatype saved =
    LocalRefErr
  | PolicyErr
  | PolicyCtxErr
  | CopyImageErr
  | OpenErr
  | StatErr
  | Saved string io_result

datatype pull_result = SrcRefErr | TempDirErr | InDir string saved

text \<open>
  Every call of \<^verbatim>\<open>time.Now\<close> builds the header of one image entry or one file entry; the
  clock is a function of that entry, so any sequence of readings can be represented.
\<close>

datatype clock_site = ImageEntry nat | FileEntry string

text \<open>
  \<open>ParseHostname\<close> is \<^verbatim>\<open>url.Parse\<close> followed by \<^verbatim>\<open>Hostname\<close>, \<open>None\<close> when parsing fails.
  \<open>EffectiveTLDPlusOne\<close> is the function of \<^verbatim>\<open>golang.org/x/net/publicsuffix\<close>; \<open>None\<close> is its
  error result, which comes with the empty string. \<open>RangeFiles\<close> is the order in which
  \<^verbatim>\<open>range\<close> visits the key-value pairs of a map, which Go leaves unspecified.
  \<open>ArchiveClose\<close> and \<open>GzipClose\<close> say whether the two \<^verbatim>\<open>Close\<close> calls succeed.
  \<open>Encodable\<close> says whether \<^verbatim>\<open>archive.WriteHeader\<close> can encode a header in the tar formats
  that the header allows (a header relayed from a layer keeps the format it was read
  in).
  \<open>GzipOut\<close> is the buffering of the gzip writer: the number of bytes of compressed data
  it releases to the response writer once it has taken over the given chunks, the
  last of them just now.
\<close>

record env =
  NewRequest :: "string \<Rightarrow> bool"
  SplitHost :: "string \<Rightarrow> string"
  Do :: "string \<Rightarrow> Header \<Rightarrow> do_result"
  Unmarshal :: "string \<Rightarrow> BundleManifest option"
  Head :: "string \<Rightarrow> head_result"
  ParseHostname :: "string \<Rightarrow> string option"
  EffectiveTLDPlusOne :: "string \<Rightarrow> string option"
  Pull :: "nat \<Rightarrow> string \<Rightarrow> pull_result"
  Get :: "string \<Rightarrow> get_result"
  WriteFile :: "string \<Rightarrow> io_result"
  ArchiveClose :: bool
  GzipClose :: bool
  Encodable :: "tar_Header \<Rightarrow> bool"
  GzipOut :: "tar_chunk list \<Rightarrow> nat"
  Now :: "clock_site \<Rightarrow> nat"
  RangeFiles :: "(string \<rightharpoonup> string) \<Rightarrow> (string \<times> string) list"

text \<open>A list is a possible \<^verbatim>\<open>range\<close> order of a map: every key once, with its value.\<close>

definition range_of :: "(string \<times> string) list \<Rightarrow> (string \<rightharpoonup> string) \<Rightarrow> bool" where
  "range_of kvs m = (distinct (map fst kvs) \<and> map_of kvs = m)"

subsection \<open>The response writer\<close>

text \<open>
  The state of one request: the method and the protocol of the request the writer
  answers, the header map, the status and header snapshot once they are committed,
  the trace of effects, the scratch directories whose removal has been deferred
  (latest first), whether the gzip writer has written its header, and whether the
  entry that the tar writer is at takes data (its header has been written).
\<close>

record state =
  wMethod :: string
  wProto11 :: bool
  wHeader :: Header
  wStatus :: "(nat \<times> Header) option"
  trace :: "event list"
  deferred :: "string list"
  wzStarted :: bool
  twOpen :: bool

definition emit :: "event \<Rightarrow> state \<Rightarrow> state" where
  "emit ev s = s\<lparr>trace := trace s @ [ev]\<rparr>"

text \<open>
  \<^verbatim>\<open>net/http\<close>: the first \<^verbatim>\<open>WriteHeader\<close> commits the status together with the header map
  as it is then; later calls change nothing. \<^verbatim>\<open>Write\<close> commits status 200 when nothing
  is committed yet; it sends nothing for empty data, for a status that allows no body,
  and for a \<^verbatim>\<open>HEAD\<close> request.
\<close>

definition rw_WriteHeader :: "nat \<Rightarrow> state \<Rightarrow> state" where
  "rw_WriteHeader code s =
     (if wStatus s \<noteq> None then s else s\<lparr>wStatus := Some (code, wHeader s)\<rparr>)"

definition bodyAllowedForStatus :: "nat \<Rightarrow> bool" where
  "bodyAllowedForStatus c = (\<not> (100 \<le> c \<and> c \<le> 199) \<and> c \<noteq> 204 \<and> c \<noteq> 304)"

fun chunk_empty :: "chunk \<Rightarrow> bool" where
  "chunk_empty (Plain d) = (d = [])"
| "chunk_empty (Deflate n) = (n = 0)"
| "chunk_empty _ = False"

definition rw_Write :: "chunk \<Rightarrow> state \<Rightarrow> state" where
  "rw_Write c s =
     (let s1 = rw_WriteHeader 200 s
      in if chunk_empty c then s1
         else if \<not> bodyAllowedForStatus (fst (the (wStatus s1))) then s1
         else if wMethod s1 = ''HEAD'' then s1
         else emit (Wire c) s1)"

text \<open>\<^verbatim>\<open>http.StatusText\<close>, for the codes this program uses.\<close>

definition StatusText :: "nat \<Rightarrow> string" where
  "StatusText code =
     (if code = 200 then ''OK''
      else if code = 204 then ''No Content''
      else if code = 404 then ''Not Found''
      else if code = 405 then ''Method Not Allowed''
      else if code = 422 then ''Unprocessable Entity''
      else if code = 500 then ''Internal Server Error''
      else [])"

text \<open>
  \<^verbatim>\<open>http.Error\<close>: sets the two headers, writes the status, and prints the message followed
  by a newline (\<^verbatim>\<open>fmt.Fprintln\<close>).
\<close>

definition http_Error :: "string \<Rightarrow> nat \<Rightarrow> state \<Rightarrow> state" where
  "http_Error msg code s =
     rw_Write (Plain (msg @ ''\<newline>''))
       (rw_WriteHeader code
          (s\<lparr>wHeader :=
               Header_Set
                 (Header_Set (wHeader s) ''Content-Type'' ''text/plain; charset=utf-8'')
                 ''X-Content-Type-Options'' ''nosniff''\<rparr>))"

definition handleHttpError :: "error \<Rightarrow> nat \<Rightarrow> state \<Rightarrow> state" where
  "handleHttpError err code s =
     emit (BugsnagNotify err) (http_Error (StatusText code) code (emit (LogPrintln err) s))"

definition handleError :: "error \<Rightarrow> state \<Rightarrow> state" where
  "handleError err s = emit (BugsnagNotify err) (emit (LogPrintln err) s)"

subsection \<open>The gzip writer and the tar writer\<close>

text \<open>The chunks that the gzip writer has taken over.\<close>

fun archived :: "event list \<Rightarrow> tar_chunk list" where
  "archived [] = []"
| "archived (Archive c # evs) = c # archived evs"
| "archived (_ # evs) = archived evs"

text \<open>
  \<^verbatim>\<open>gzip.NewWriter(w)\<close> and \<^verbatim>\<open>tar.NewWriter(wz)\<close> (lines 172 and 173): nothing is written
  yet, and the tar writer is at no entry.
\<close>

definition new_writers :: "state \<Rightarrow> state" where
  "new_writers s = s\<lparr>wzStarted := False, twOpen := False\<rparr>"

text \<open>
  The gzip writer writes its header to the response writer in its first \<^verbatim>\<open>Write\<close>,
  whatever the length of the data.
\<close>

definition gzip_header :: "state \<Rightarrow> state" where
  "gzip_header s =
     (if wzStarted s then s else rw_Write GzipHeader (s\<lparr>wzStarted := True\<rparr>))"

text \<open>
  \<^verbatim>\<open>wz.Write\<close>: the gzip writer takes over the chunk and releases to the response writer
  as much compressed data as its buffering decides, possibly none.
\<close>

definition gzip_Write :: "env \<Rightarrow> tar_chunk \<Rightarrow> state \<Rightarrow> state" where
  "gzip_Write e c s =
     (let s1 = emit (Archive c) (gzip_header s)
      in rw_Write (Deflate (GzipOut e (archived (trace s1)))) s1)"

text \<open>
  Whether the tar writer can encode a header. A header whose fields beyond the four are
  all at their zero value (every header that the handler builds itself) leaves the
  choice of the format to the writer, which has a format for every timestamp: for such
  a header the answer does not depend on the timestamp. A header that names its format,
  as every header handed out by the tar reader does, is encoded in that format or
  refused.
\<close>

definition settled_header :: "tar_Header \<Rightarrow> tar_Header" where
  "settled_header h = (if Other h = 0 then h\<lparr>ModTime := 0\<rparr> else h)"

definition encodes :: "env \<Rightarrow> tar_Header \<Rightarrow> bool" where
  "encodes e h = Encodable e (settled_header h)"

text \<open>
  \<^verbatim>\<open>archive.WriteHeader\<close>, whose error the handler drops. The tar writer first completes
  the entry before with its padding, which is a \<^verbatim>\<open>Write\<close> to the gzip writer even when
  the padding is empty. A header that cannot be encoded is then refused: nothing more
  is written, and the tar writer stays at the completed entry, which takes no data.
\<close>

definition archive_WriteHeader :: "env \<Rightarrow> tar_Header \<Rightarrow> state \<Rightarrow> state" where
  "archive_WriteHeader e h s =
     (let s1 = gzip_header s
      in if encodes e h then (gzip_Write e (TarHeader h) s1)\<lparr>twOpen := True\<rparr>
         else s1\<lparr>twOpen := False\<rparr>)"

text \<open>Data taken over by the tar writer; no \<^verbatim>\<open>Write\<close> goes down for empty data.\<close>

definition tar_data :: "env \<Rightarrow> string \<Rightarrow> state \<Rightarrow> state" where
  "tar_data e d s = (if d = [] then s else gzip_Write e (TarData d) s)"

text \<open>
  \<^verbatim>\<open>archive.Write(b)\<close>, and \<^verbatim>\<open>io.Copy(archive, src)\<close>, which hands the data of the source
  to \<^verbatim>\<open>archive.Write\<close> piece by piece. When the entry takes data, the result comes from
  the environment. When it does not (the header was refused), the first byte fails
  with \<^verbatim>\<open>ErrWriteTooLong\<close>; only empty data that is read without error goes through. The
  result is whether the call returned without error.
\<close>

definition archive_Write :: "env \<Rightarrow> string \<Rightarrow> io_result \<Rightarrow> state \<Rightarrow> bool \<times> state" where
  "archive_Write e content res s =
     (if twOpen s
      then (case res of
              IoOk \<Rightarrow> (True, tar_data e content s)
            | IoErr n \<Rightarrow> (False, tar_data e (take n content) s))
      else (content = [] \<and> res = IoOk, s))"

subsection \<open>The registry allowlist\<close>

definition allowRegistry :: "env \<Rightarrow> string \<Rightarrow> bool" where
  "allowRegistry e img =
     (case ParseHostname e (''https://'' @ img) of
        None \<Rightarrow> False
      | Some hostname \<Rightarrow>
          let host = (case EffectiveTLDPlusOne e hostname of None \<Rightarrow> [] | Some d \<Rightarrow> d)
          in host \<in> set [''docker.io'', ''gcr.io'', ''ghcr.io'', ''azurecr.io'', ''ttl.sh'',
                          ''ecr.us-east-1.amazonaws.com''])"

subsection \<open>The handler: manifest resolution\<close>

definition upstream :: string where
  "upstream = ''http://localhost:3000''"

definition var :: "Request \<Rightarrow> string \<Rightarrow> string" where
  "var r k = (case Vars r k of None \<Rightarrow> [] | Some v \<Rightarrow> v)"

definition installerID :: "Request \<Rightarrow> string" where
  "installerID r = TrimSuffix (var r ''installerID'') ''.tar.gz''"

definition installerURL :: "Request \<Rightarrow> string" where
  "installerURL r =
     (let kurlVersion = var r ''kurlVersion''
      in if kurlVersion \<noteq> []
         then upstream @ ''/bundle/version/'' @ kurlVersion @ ''/'' @ installerID r
         else upstream @ ''/bundle/'' @ installerID r)"

text \<open>The header of the upstream request: the client's, with its address added.\<close>

definition forwardHeader :: "env \<Rightarrow> Request \<Rightarrow> Header" where
  "forwardHeader e r =
     (if Header_Get (ReqHeader r) ''X-Forwarded-For'' = []
      then (let host = SplitHost e (RemoteAddr r)
            in if host \<noteq> [] then Header_Set (ReqHeader r) ''X-Forwarded-For'' host
               else ReqHeader r)
      else ReqHeader r)"

text \<open>
  Lines 101 to 137: the upstream request. \<open>Inl\<close> is a return of the handler with the
  response it leaves; \<open>Inr\<close> carries the manifest on.
\<close>

definition resolve :: "env \<Rightarrow> Request \<Rightarrow> state \<Rightarrow> state + BundleManifest \<times> state" where
  "resolve e r s =
     (let url = installerURL r
      in if \<not> NewRequest e url then Inl (handleHttpError (ErrBuildRequest url) 500 s)
         else
           let hdr = forwardHeader e r;
               s1 = emit (ClientDo url hdr) s
           in (case Do e url hdr of
                 DoErr \<Rightarrow> Inl (handleHttpError (ErrFetch url) 500 s1)
               | ReadErr \<Rightarrow> Inl (handleHttpError (ErrReadBody url) 500 s1)
               | Resp code body \<Rightarrow>
                   if code = 404 then Inl (http_Error body 404 s1)
                   else (case Unmarshal e body of
                           None \<Rightarrow> Inl (handleHttpError (ErrUnmarshal url body) 500 s1)
                         | Some bm \<Rightarrow> Inr (bm, s1))))"

subsection \<open>The handler: preflight\<close>

text \<open>
  Lines 139 to 161. Each loop returns whether it ran to its end, and the state; \<open>False\<close>
  is a \<^verbatim>\<open>return\<close> from inside the loop.
\<close>

fun check_layers :: "env \<Rightarrow> string \<Rightarrow> string list \<Rightarrow> state \<Rightarrow> bool \<times> state" where
  "check_layers e iid [] s = (True, s)"
| "check_layers e iid (srcURL # rest) s =
     (let s1 = emit (HttpHead srcURL) s
      in case Head e srcURL of
           HeadErr \<Rightarrow> (False, handleHttpError (ErrHead srcURL iid) 500 s1)
         | HeadStatus code \<Rightarrow>
             if code \<noteq> 200
             then (False, handleHttpError (ErrHeadStatus code srcURL iid) 500 s1)
             else check_layers e iid rest s1)"

fun check_images :: "env \<Rightarrow> string list \<Rightarrow> state \<Rightarrow> bool \<times> state" where
  "check_images e [] s = (True, s)"
| "check_images e (img # rest) s =
     (if \<not> allowRegistry e img
      then (False, handleHttpError (ErrUnsupportedRegistry img) 422 s)
      else check_images e rest s)"

subsection \<open>The handler: streaming\<close>

definition image_header :: "env \<Rightarrow> nat \<Rightarrow> string \<Rightarrow> tar_Header" where
  "image_header e i content =
     \<lparr>Name = ''kurl/image-overrides/'' @ show_nat i @ ''.tar'',
      Size = int (length content),
      Mode = 420,
      ModTime = Now e (ImageEntry i),
      Other = 0\<rparr>"

definition defer_RemoveAll :: "string \<Rightarrow> state \<Rightarrow> state" where
  "defer_RemoveAll dir s = s\<lparr>deferred := dir # deferred s\<rparr>"

text \<open>Lines 189 to 276: the body of the image loop for the image at index \<open>i\<close>.\<close>

definition append_image :: "env \<Rightarrow> nat \<Rightarrow> string \<Rightarrow> state \<Rightarrow> bool \<times> state" where
  "append_image e i img s =
     (case Pull e i img of
        SrcRefErr \<Rightarrow> (False, handleHttpError (ErrParseImage img) 500 s)
      | TempDirErr \<Rightarrow> (False, handleHttpError ErrTempDir 500 s)
      | InDir tempDir sv \<Rightarrow>
          let s1 = defer_RemoveAll tempDir (emit (TempDir tempDir) s);
              destPath = filepath_Join [tempDir, ''temp-archive-image''];
              destStr = ''docker-archive:'' @ destPath @ '':'' @ img;
              s2 = emit (CopyImage img destPath) s1
          in (case sv of
                LocalRefErr \<Rightarrow> (False, handleHttpError (ErrLocalName destStr) 500 s1)
              | PolicyErr \<Rightarrow> (False, handleHttpError ErrPolicy 500 s1)
              | PolicyCtxErr \<Rightarrow> (False, handleHttpError ErrPolicyContext 500 s1)
              | CopyImageErr \<Rightarrow> (False, handleHttpError (ErrSaveImage img) 500 s2)
              | OpenErr \<Rightarrow> (False, handleHttpError ErrOpenArchive 500 s2)
              | StatErr \<Rightarrow> (False, handleHttpError ErrStat 500 s2)
              | Saved content res \<Rightarrow>
                  let header = image_header e i content;
                      s3 = archive_WriteHeader e header s2;
                      (ok, s4) = archive_Write e content res s3
                  in if \<not> ok
                     then (False, handleHttpError (ErrCopyContents (Name header)) 500 s4)
                     else (True, emit RuntimeGC (emit (RemoveAll tempDir) s4))))"

fun stream_images :: "env \<Rightarrow> nat \<Rightarrow> string list \<Rightarrow> state \<Rightarrow> bool \<times> state" where
  "stream_images e i [] s = (True, s)"
| "stream_images e i (img # rest) s =
     (let (ok, s1) = append_image e i img s
      in if ok then stream_images e (Suc i) rest s1 else (False, s1))"

text \<open>Lines 320 to 333: the loop of \<^verbatim>\<open>pipe\<close> over the entries of the layer.\<close>

fun pipe_entries ::
  "env \<Rightarrow> tar_item list \<Rightarrow> tar_end \<Rightarrow> state \<Rightarrow> pipe_error option \<times> state" where
  "pipe_entries e [] fin s = (case fin of EOF \<Rightarrow> (None, s) | NextErr \<Rightarrow> (Some PipeNext, s))"
| "pipe_entries e ((header, content, res) # rest) fin s =
     (let header' = header\<lparr>Name := filepath_Join [''kurl'', Name header]\<rparr>;
          s1 = archive_WriteHeader e header' s;
          (ok, s2) = archive_Write e content res s1
      in if \<not> ok then (Some (PipeCopy (Name header')), s2)
         else pipe_entries e rest fin s2)"

definition pipe :: "env \<Rightarrow> string \<Rightarrow> state \<Rightarrow> pipe_error option \<times> state" where
  "pipe e srcURL s =
     (let s1 = emit (HttpGet srcURL) s
      in case Get e srcURL of
           GetErr \<Rightarrow> (Some PipeGet, s1)
         | GetResp code b \<Rightarrow>
             if code \<noteq> 200 then (Some (PipeStatus code), s1)
             else (case b of
                     GunzipErr \<Rightarrow> (Some PipeGunzip, s1)
                   | TarStream items fin \<Rightarrow> pipe_entries e items fin s1))"

fun stream_layers :: "env \<Rightarrow> string \<Rightarrow> string list \<Rightarrow> state \<Rightarrow> bool \<times> state" where
  "stream_layers e iid [] s = (True, s)"
| "stream_layers e iid (layerURL # rest) s =
     (case pipe e layerURL s of
        (Some err, s1) \<Rightarrow> (False, handleError (ErrPipe layerURL iid err) s1)
      | (None, s1) \<Rightarrow> stream_layers e iid rest s1)"

definition file_header :: "env \<Rightarrow> string \<Rightarrow> string \<Rightarrow> tar_Header" where
  "file_header e filepath contents =
     \<lparr>Name = filepath,
      Size = int (length contents),
      Mode = 420,
      ModTime = Now e (FileEntry filepath),
      Other = 0\<rparr>"

fun stream_files :: "env \<Rightarrow> string \<Rightarrow> (string \<times> string) list \<Rightarrow> state \<Rightarrow> bool \<times> state" where
  "stream_files e iid [] s = (True, s)"
| "stream_files e iid ((filepath, contents) # rest) s =
     (let s1 = archive_WriteHeader e (file_header e filepath contents) s;
          (ok, s2) = archive_Write e contents (WriteFile e filepath) s1
      in if \<not> ok then (False, handleError (ErrWriteFile filepath iid) s2)
         else stream_files e iid rest s2)"

text \<open>Lines 188 to 300: the three loops in their order.\<close>

definition compose :: "env \<Rightarrow> string \<Rightarrow> BundleManifest \<Rightarrow> state \<Rightarrow> bool \<times> state" where
  "compose e iid bm s =
     (let (ok1, s1) = stream_images e 0 (Images bm) s
      in if \<not> ok1 then (False, s1)
         else
           let (ok2, s2) = stream_layers e iid (Layers bm) s1
           in if \<not> ok2 then (False, s2)
              else stream_files e iid (RangeFiles e (Files bm)) s2)"

text \<open>
  What runs when \<^verbatim>\<open>bundle\<close> returns after line 186: the deferred removals, latest
  first, and then the function deferred first, which closes the archive and the gzip
  stream (lines 174 to 186). \<^verbatim>\<open>archive.Close\<close> completes the last entry and writes the
  end-of-archive marker; \<^verbatim>\<open>wz.Close\<close> writes the gzip header if no \<^verbatim>\<open>Write\<close> has done so,
  then the rest of the compressed data and the trailer.
\<close>

fun run_removes :: "string list \<Rightarrow> state \<Rightarrow> state" where
  "run_removes [] s = s"
| "run_removes (dir # dirs) s = run_removes dirs (emit (RemoveAll dir) s)"

definition close_archive :: "env \<Rightarrow> string \<Rightarrow> state \<Rightarrow> state" where
  "close_archive e iid s =
     (if ArchiveClose e then gzip_Write e TarEnd s
      else handleError (ErrCloseArchive iid) s)"

definition close_gzip :: "env \<Rightarrow> string \<Rightarrow> state \<Rightarrow> state" where
  "close_gzip e iid s =
     (if GzipClose e then rw_Write GzipEnd (gzip_header s)
      else handleError (ErrCloseGzip iid) s)"

definition close_writers :: "env \<Rightarrow> string \<Rightarrow> state \<Rightarrow> state" where
  "close_writers e iid s = close_gzip e iid (close_archive e iid s)"

definition run_deferred :: "env \<Rightarrow> string \<Rightarrow> state \<Rightarrow> state" where
  "run_deferred e iid s =
     close_writers e iid ((run_removes (deferred s) s)\<lparr>deferred := []\<rparr>)"

subsection \<open>The handler\<close>

definition cors_headers :: "Header \<Rightarrow> Header" where
  "cors_headers h =
     Header_Set
       (Header_Set
          (Header_Set
             (Header_Set h ''Access-Control-Allow-Origin'' ''*'')
             ''Access-Control-Allow-Methods'' ''GET'')
          ''Access-Control-Allow-Headers'' ''Access-Control-Allow-Origin, Content-Type'')
       ''Access-Control-Max-Age'' ''86400''"

definition download_headers :: "Header \<Rightarrow> Header" where
  "download_headers h =
     Header_Set
       (Header_Set
          (Header_Set
             (Header_Set h ''Content-Type'' ''binary/octet-stream'')
             ''Access-Control-Allow-Origin'' ''*'')
          ''Content-Disposition'' ''attachment'')
       ''Transfer-Encoding'' ''chunked''"

text \<open>Lines 139 to 300, from the resolved manifest on.\<close>

definition serve_manifest :: "env \<Rightarrow> Request \<Rightarrow> BundleManifest \<Rightarrow> state \<Rightarrow> state" where
  "serve_manifest e r bm s1 =
     (let (ok2, s2) = check_layers e (installerID r) (Layers bm) s1
      in if \<not> ok2 then s2
         else
           let (ok3, s3) = check_images e (Images bm) s2
           in if \<not> ok3 then s3
              else
                let s4 = s3\<lparr>wHeader := download_headers (wHeader s3)\<rparr>
                in if Method r = ''HEAD'' then s4
                   else run_deferred e (installerID r)
                          (snd (compose e (installerID r) bm (new_writers s4))))"

text \<open>
  Lines 76 to 301: the handler \<^verbatim>\<open>bundle\<close> (the name is a keyword of Isabelle, hence the
  suffix).
\<close>

definition bundle_handler :: "env \<Rightarrow> Request \<Rightarrow> state \<Rightarrow> state" where
  "bundle_handler e r s =
     (if Method r = ''OPTIONS''
      then rw_WriteHeader 204 (s\<lparr>wHeader := cors_headers (wHeader s)\<rparr>)
      else if Method r \<noteq> ''GET'' \<and> Method r \<noteq> ''HEAD''
      then http_Error ''Method Not Allowed'' 405 s
      else
        (case resolve e r (emit (LogPrintf (Method r) (URLPath r)) s) of
           Inl s1 \<Rightarrow> s1
         | Inr (bm, s1) \<Rightarrow> serve_manifest e r bm s1))"

text \<open>
  The server around the handler: a fresh response writer for the request, and status
  200 when the handler returns without having committed a status.
\<close>

definition new_response :: "Request \<Rightarrow> state" where
  "new_response r =
     \<lparr>wMethod = Method r, wProto11 = ProtoAtLeast11 r, wHeader = Map.empty, wStatus = None,
      trace = [], deferred = [], wzStarted = False, twOpen = False\<rparr>"

definition finishRequest :: "state \<Rightarrow> state" where
  "finishRequest s = rw_WriteHeader 200 s"

definition ServeHTTP :: "env \<Rightarrow> Request \<Rightarrow> state" where
  "ServeHTTP e r = finishRequest (bundle_handler e r (new_response r))"

subsection \<open>Observations\<close>

definition status :: "state \<Rightarrow> nat option" where
  "status s = map_option fst (wStatus s)"

text \<open>
  What \<^verbatim>\<open>net/http\<close> makes of the header map of the handler when it writes the response
  header (\<^verbatim>\<open>chunkWriter.writeHeader\<close>): for a status that allows no body it removes the
  headers that describe a body; a \<^verbatim>\<open>Content-Length\<close> next to a \<^verbatim>\<open>Transfer-Encoding\<close> other
  than \<^verbatim>\<open>identity\<close> is dropped; \<^verbatim>\<open>Transfer-Encoding\<close> is removed from the response to a
  \<^verbatim>\<open>HEAD\<close> request, from a response without body, from a response with a content length,
  and from every response to a request below HTTP/1.1; it stays as \<^verbatim>\<open>chunked\<close> when the
  server chunks the body. The headers that \<^verbatim>\<open>net/http\<close> adds of its own accord (\<^verbatim>\<open>Date\<close>,
  \<^verbatim>\<open>Connection\<close>, and a content length or a transfer encoding where the handler has set
  none) are not part of the model, nor is the validity check of \<^verbatim>\<open>Content-Length\<close>, a
  header this handler never sets.
\<close>

definition Header_Del :: "Header \<Rightarrow> string \<Rightarrow> Header" where
  "Header_Del h k = h(k := None)"

definition suppressedHeaders :: "nat \<Rightarrow> string list" where
  "suppressedHeaders code =
     (if code = 304 then [''Content-Type'', ''Content-Length'', ''Transfer-Encoding'']
      else if \<not> bodyAllowedForStatus code then [''Content-Length'', ''Transfer-Encoding'']
      else [])"

definition cw_writeHeader :: "string \<Rightarrow> bool \<Rightarrow> nat \<Rightarrow> Header \<Rightarrow> Header" where
  "cw_writeHeader method proto11 code h =
     (let te = Header_Get h ''Transfer-Encoding'';
          cl = Header_Get h ''Content-Length'';
          both = (cl \<noteq> [] \<and> te \<noteq> [] \<and> te \<noteq> ''identity'');
          hasCL = (cl \<noteq> [] \<and> \<not> both);
          h1 = foldl Header_Del h (suppressedHeaders code);
          h2 = (if both then Header_Del h1 ''Content-Length'' else h1)
      in if method = ''HEAD'' \<or> \<not> bodyAllowedForStatus code \<or> code = 204 \<or> hasCL
         then Header_Del h2 ''Transfer-Encoding''
         else if proto11 \<and> te \<noteq> ''identity'' then h2
         else Header_Del h2 ''Transfer-Encoding'')"

text \<open>
  The headers of the response that stem from the handler: the header map as it was
  when the status was committed, as \<^verbatim>\<open>net/http\<close> sends it.
\<close>

definition sent_headers :: "state \<Rightarrow> Header option" where
  "sent_headers s =
     map_option (\<lambda>(code, h). cw_writeHeader (wMethod s) (wProto11 s) code h) (wStatus s)"

text \<open>
  The body of the response: what the response writer has taken over, in order. The
  archive: what the gzip writer has taken over; the bytes of the gzip stream in the body
  are its compressed form.
\<close>

fun wire :: "event list \<Rightarrow> chunk list" where
  "wire [] = []"
| "wire (Wire c # evs) = c # wire evs"
| "wire (_ # evs) = wire evs"

definition body :: "state \<Rightarrow> chunk list" where
  "body s = wire (trace s)"

definition archive :: "state \<Rightarrow> tar_chunk list" where
  "archive s = archived (trace s)"

text \<open>
  The response writer passes data on to the client: the request is not a \<^verbatim>\<open>HEAD\<close>
  request, and the status, once committed, allows a body.
\<close>

definition writable :: "state \<Rightarrow> bool" where
  "writable s =
     (wMethod s \<noteq> ''HEAD'' \<and>
      (case wStatus s of None \<Rightarrow> True | Some (c, h) \<Rightarrow> bodyAllowedForStatus c))"

text \<open>
  The state in which the preflight checks start when the upstream request has
  succeeded, and the manifest the handler then works on (\<open>None\<close> when the method is
  neither \<^verbatim>\<open>GET\<close> nor \<^verbatim>\<open>HEAD\<close> or when the resolution returns early).
\<close>

definition resolved_state :: "env \<Rightarrow> Request \<Rightarrow> state" where
  "resolved_state e r =
     emit (ClientDo (installerURL r) (forwardHeader e r))
       (emit (LogPrintf (Method r) (URLPath r)) (new_response r))"

definition manifest_of :: "env \<Rightarrow> Request \<Rightarrow> BundleManifest option" where
  "manifest_of e r =
     (if Method r \<noteq> ''GET'' \<and> Method r \<noteq> ''HEAD'' then None
      else case resolve e r (emit (LogPrintf (Method r) (URLPath r)) (new_response r)) of
             Inl s \<Rightarrow> None
           | Inr (bm, s) \<Rightarrow> Some bm)"

text \<open>
  What a trace holds: the images handed to \<^verbatim>\<open>copy.Image\<close>, the layer URLs fetched by
  \<^verbatim>\<open>pipe\<close>, the layer URLs probed, the errors logged and the errors reported; and what a
  body holds: the chunks that come from the gzip writer, and the texts written directly.
\<close>

fun pulls :: "event list \<Rightarrow> string list" where
  "pulls [] = []"
| "pulls (CopyImage img dest # evs) = img # pulls evs"
| "pulls (_ # evs) = pulls evs"

fun fetches :: "event list \<Rightarrow> string list" where
  "fetches [] = []"
| "fetches (HttpGet u # evs) = u # fetches evs"
| "fetches (_ # evs) = fetches evs"

fun probes :: "event list \<Rightarrow> string list" where
  "probes [] = []"
| "probes (HttpHead u # evs) = u # probes evs"
| "probes (_ # evs) = probes evs"

fun logged :: "event list \<Rightarrow> error list" where
  "logged [] = []"
| "logged (LogPrintln err # evs) = err # logged evs"
| "logged (_ # evs) = logged evs"

fun reported :: "event list \<Rightarrow> error list" where
  "reported [] = []"
| "reported (BugsnagNotify err # evs) = err # reported evs"
| "reported (_ # evs) = reported evs"

fun archive_writes :: "chunk list \<Rightarrow> chunk list" where
  "archive_writes [] = []"
| "archive_writes (Plain d # cs) = archive_writes cs"
| "archive_writes (c # cs) = c # archive_writes cs"

fun texts :: "chunk list \<Rightarrow> string list" where
  "texts [] = []"
| "texts (Plain d # cs) = d # texts cs"
| "texts (_ # cs) = texts cs"

text \<open>The header map after \<^verbatim>\<open>http.Error\<close>.\<close>

definition error_headers :: "Header \<Rightarrow> Header" where
  "error_headers h =
     Header_Set (Header_Set h ''Content-Type'' ''text/plain; charset=utf-8'')
       ''X-Content-Type-Options'' ''nosniff''"

subsection \<open>What a run writes\<close>

text \<open>
  What handing one entry to the tar writer comes to, read off the environment: the
  header, then the data; whether the handler goes on (the data is written without error,
  or there is no data and the refused header goes unnoticed); and the chunks that reach
  the archive in either case.
\<close>

definition data_chunk :: "string \<Rightarrow> tar_chunk list" where
  "data_chunk d = (if d = [] then [] else [TarData d])"

definition put_ok :: "env \<Rightarrow> tar_Header \<Rightarrow> string \<Rightarrow> io_result \<Rightarrow> bool" where
  "put_ok e h d res = (res = IoOk \<and> (encodes e h \<or> d = []))"

definition put_chunks :: "env \<Rightarrow> tar_Header \<Rightarrow> string \<Rightarrow> io_result \<Rightarrow> tar_chunk list" where
  "put_chunks e h d res =
     (if encodes e h
      then TarHeader h # data_chunk (case res of IoOk \<Rightarrow> d | IoErr n \<Rightarrow> take n d)
      else [])"

text \<open>
  A loop that returns at the first error: the error it returns with, and the elements
  it gets to (all up to and including the first one with an error).
\<close>

fun first_error :: "('a \<Rightarrow> 'e option) \<Rightarrow> 'a list \<Rightarrow> 'e option" where
  "first_error f [] = None"
| "first_error f (x # xs) = (case f x of Some err \<Rightarrow> Some err | None \<Rightarrow> first_error f xs)"

fun reached :: "('a \<Rightarrow> 'e option) \<Rightarrow> 'a list \<Rightarrow> 'a list" where
  "reached f [] = []"
| "reached f (x # xs) = x # (case f x of Some err \<Rightarrow> [] | None \<Rightarrow> reached f xs)"

definition opt_list :: "'a option \<Rightarrow> 'a list" where
  "opt_list x = (case x of None \<Rightarrow> [] | Some y \<Rightarrow> [y])"

text \<open>
  The image at index \<open>i\<close>: the archive file of the pull with the result of copying it,
  when the pull gets that far; the error the iteration ends with, if any; and the chunks
  it adds to the archive.
\<close>

definition image_file :: "env \<Rightarrow> nat \<Rightarrow> string \<Rightarrow> (string \<times> io_result) option" where
  "image_file e i img =
     (case Pull e i img of
        InDir tempDir (Saved content res) \<Rightarrow> Some (content, res)
      | _ \<Rightarrow> None)"

fun image_error :: "env \<Rightarrow> nat \<times> string \<Rightarrow> error option" where
  "image_error e (i, img) =
     (case Pull e i img of
        SrcRefErr \<Rightarrow> Some (ErrParseImage img)
      | TempDirErr \<Rightarrow> Some ErrTempDir
      | InDir tempDir sv \<Rightarrow>
          (case sv of
             LocalRefErr \<Rightarrow>
               Some (ErrLocalName (''docker-archive:''
                       @ filepath_Join [tempDir, ''temp-archive-image''] @ '':'' @ img))
           | PolicyErr \<Rightarrow> Some ErrPolicy
           | PolicyCtxErr \<Rightarrow> Some ErrPolicyContext
           | CopyImageErr \<Rightarrow> Some (ErrSaveImage img)
           | OpenErr \<Rightarrow> Some ErrOpenArchive
           | StatErr \<Rightarrow> Some ErrStat
           | Saved content res \<Rightarrow>
               if put_ok e (image_header e i content) content res then None
               else Some (ErrCopyContents (Name (image_header e i content)))))"

fun image_chunks :: "env \<Rightarrow> nat \<times> string \<Rightarrow> tar_chunk list" where
  "image_chunks e (i, img) =
     (case image_file e i img of
        Some (content, res) \<Rightarrow> put_chunks e (image_header e i content) content res
      | None \<Rightarrow> [])"

text \<open>
  A layer: the header of an entry under its new name; the entries \<^verbatim>\<open>pipe\<close> reads; the
  error \<^verbatim>\<open>pipe\<close> returns, if any; and the chunks it adds to the archive.
\<close>

definition reroot :: "tar_Header \<Rightarrow> tar_Header" where
  "reroot h = h\<lparr>Name := filepath_Join [''kurl'', Name h]\<rparr>"

fun item_error :: "env \<Rightarrow> tar_item \<Rightarrow> pipe_error option" where
  "item_error e (h, d, res) =
     (if put_ok e (reroot h) d res then None else Some (PipeCopy (Name (reroot h))))"

fun item_chunks :: "env \<Rightarrow> tar_item \<Rightarrow> tar_chunk list" where
  "item_chunks e (h, d, res) = put_chunks e (reroot h) d res"

definition layer_items :: "env \<Rightarrow> string \<Rightarrow> tar_item list" where
  "layer_items e u =
     (case Get e u of
        GetResp code (TarStream items fin) \<Rightarrow> if code = 200 then items else []
      | _ \<Rightarrow> [])"

definition layer_error :: "env \<Rightarrow> string \<Rightarrow> pipe_error option" where
  "layer_error e u =
     (case Get e u of
        GetErr \<Rightarrow> Some PipeGet
      | GetResp code b \<Rightarrow>
          if code \<noteq> 200 then Some (PipeStatus code)
          else (case b of
                  GunzipErr \<Rightarrow> Some PipeGunzip
                | TarStream items fin \<Rightarrow>
                    (case first_error (item_error e) items of
                       Some err \<Rightarrow> Some err
                     | None \<Rightarrow> (case fin of EOF \<Rightarrow> None | NextErr \<Rightarrow> Some PipeNext))))"

definition layer_chunks :: "env \<Rightarrow> string \<Rightarrow> tar_chunk list" where
  "layer_chunks e u =
     concat (map (item_chunks e) (reached (item_error e) (layer_items e u)))"

definition pipe_failure :: "env \<Rightarrow> string \<Rightarrow> string \<Rightarrow> error option" where
  "pipe_failure e iid u = map_option (ErrPipe u iid) (layer_error e u)"

text \<open>A file of the manifest.\<close>

fun file_ok :: "env \<Rightarrow> string \<times> string \<Rightarrow> bool" where
  "file_ok e (p, c) = put_ok e (file_header e p c) c (WriteFile e p)"

fun file_error :: "env \<Rightarrow> string \<Rightarrow> string \<times> string \<Rightarrow> error option" where
  "file_error e iid (p, c) = (if file_ok e (p, c) then None else Some (ErrWriteFile p iid))"

fun file_chunks :: "env \<Rightarrow> string \<times> string \<Rightarrow> tar_chunk list" where
  "file_chunks e (p, c) = put_chunks e (file_header e p c) c (WriteFile e p)"

text \<open>
  The three loops in their order: the error that ends the streaming, if any, and the
  chunks that reach the archive before the writers are closed.
\<close>

definition images_error :: "env \<Rightarrow> BundleManifest \<Rightarrow> error option" where
  "images_error e bm = first_error (image_error e) (enumerate 0 (Images bm))"

definition layers_error :: "env \<Rightarrow> string \<Rightarrow> BundleManifest \<Rightarrow> error option" where
  "layers_error e iid bm = first_error (pipe_failure e iid) (Layers bm)"

definition files_error :: "env \<Rightarrow> string \<Rightarrow> BundleManifest \<Rightarrow> error option" where
  "files_error e iid bm = first_error (file_error e iid) (RangeFiles e (Files bm))"

definition run_error :: "env \<Rightarrow> string \<Rightarrow> BundleManifest \<Rightarrow> error option" where
  "run_error e iid bm =
     (case images_error e bm of
        Some err \<Rightarrow> Some err
      | None \<Rightarrow>
          (case layers_error e iid bm of
             Some err \<Rightarrow> Some err
           | None \<Rightarrow> files_error e iid bm))"

definition run_chunks :: "env \<Rightarrow> string \<Rightarrow> BundleManifest \<Rightarrow> tar_chunk list" where
  "run_chunks e iid bm =
     concat (map (image_chunks e) (reached (image_error e) (enumerate 0 (Images bm))))
     @ (if images_error e bm \<noteq> None then []
        else concat (map (layer_chunks e) (reached (pipe_failure e iid) (Layers bm)))
             @ (if layers_error e iid bm \<noteq> None then []
                else concat (map (file_chunks e)
                       (reached (file_error e iid) (RangeFiles e (Files bm))))))"

text \<open>
  The first image fails before its header is handed to the tar writer, so before
  anything is written to the response: the error response of the image loop then
  commits status 500.
\<close>

definition early_error :: "env \<Rightarrow> BundleManifest \<Rightarrow> bool" where
  "early_error e bm = (case Images bm of [] \<Rightarrow> False | img # rest \<Rightarrow> image_file e 0 img = None)"

text \<open>What closing the writers adds to the archive, and the errors it logs and reports.\<close>

definition closing :: "env \<Rightarrow> tar_chunk list" where
  "closing e = (if ArchiveClose e then [TarEnd] else [])"

definition close_errors :: "env \<Rightarrow> string \<Rightarrow> error list" where
  "close_errors e iid =
     (if ArchiveClose e then [] else [ErrCloseArchive iid])
     @ (if GzipClose e then [] else [ErrCloseGzip iid])"

subsection \<open>The entries of a run in which nothing fails\<close>

text \<open>
  The entries a request hands to the tar writer, read off the environment: one per
  image, with the archive file of the image as its data, in the order of the images;
  then the entries of every layer under their new names, in the order of the layers;
  then one per file of the manifest, in the order in which \<^verbatim>\<open>range\<close> visits them. An
  entry reaches the archive when the tar writer can encode its header. In \<open>all_ok\<close>, no
  step of any loop ends with an error.
\<close>

type_synonym entry = "tar_Header \<times> string"

definition chunks_of :: "entry \<Rightarrow> tar_chunk list" where
  "chunks_of en = TarHeader (fst en) # data_chunk (snd en)"

definition written :: "env \<Rightarrow> entry \<Rightarrow> tar_chunk list" where
  "written e en = (if encodes e (fst en) then chunks_of en else [])"






fun headers_of :: "tar_chunk list \<Rightarrow> tar_Header list" where
  "headers_of [] = []"
| "headers_of (TarHeader h # cs) = h # headers_of cs"
| "headers_of (_ # cs) = headers_of cs"

definition plain_path :: "string \<Rightarrow> bool" where
  "plain_path n = list_all plain_elem (split_slash n)"

subsection \<open>Setting the timestamps aside\<close>

text \<open>
  The archive with its timestamps set aside: the modification time of every header is
  put to zero.
\<close>

fun erase_time :: "tar_chunk \<Rightarrow> tar_chunk" where
  "erase_time (TarHeader h) = TarHeader (h\<lparr>ModTime := 0\<rparr>)"
| "erase_time c = c"

definition erase_entry :: "entry \<Rightarrow> entry" where
  "erase_entry en = ((fst en)\<lparr>ModTime := 0\<rparr>, snd en)"

subsection \<open>Invariants of the streaming phase\<close>

text \<open>
  The events that the streaming phase adds to the trace directly. A predicate on the
  state is stable when every primitive of the streaming phase other than the error
  response preserves it, and steady when the error response with status 500 preserves
  it too.
\<close>

fun stream_event :: "event \<Rightarrow> bool" where
  "stream_event (LogPrintf m p) = False"
| "stream_event (ClientDo u h) = False"
| "stream_event (HttpHead u) = False"
| "stream_event (Archive c) = False"
| "stream_event (Wire c) = False"
| "stream_event _ = True"

definition stable :: "env \<Rightarrow> (state \<Rightarrow> bool) \<Rightarrow> bool" where
  "stable e P =
     ((\<forall>ev s. stream_event ev \<longrightarrow> P s \<longrightarrow> P (emit ev s))
      \<and> (\<forall>s. P s \<longrightarrow> P (gzip_header s))
      \<and> (\<forall>c s. P s \<longrightarrow> P (gzip_Write e c s))
      \<and> (\<forall>d s. P s \<longrightarrow> P (s\<lparr>deferred := d\<rparr>))
      \<and> (\<forall>b s. P s \<longrightarrow> P (s\<lparr>twOpen := b\<rparr>)))"

definition steady :: "env \<Rightarrow> (state \<Rightarrow> bool) \<Rightarrow> bool" where
  "steady e P = (stable e P \<and> (\<forall>msg s. P s \<longrightarrow> P (http_Error msg 500 s)))"

text \<open>
  The frame of a body: the body without the compressed data released in between. While
  the archive is written, either nothing has been written to the response and nothing
  is committed, or the response is committed with status 200 and the given headers,
  and its body begins with the gzip header, followed by compressed data and texts only.
\<close>

fun frame :: "chunk list \<Rightarrow> chunk list" where
  "frame [] = []"
| "frame (Deflate n # cs) = frame cs"
| "frame (c # cs) = c # frame cs"

definition streaming :: "Header \<Rightarrow> state \<Rightarrow> bool" where
  "streaming H s =
     (writable s \<and>
      (if wzStarted s
       then wStatus s = Some (200, H) \<and> frame (body s) = GzipHeader # map Plain (texts (body s))
       else wStatus s = None \<and> wHeader s = H \<and> body s = []))"

text \<open>The state in which the streaming phase starts, once the preflight checks pass.\<close>

definition stream_start :: "env \<Rightarrow> Request \<Rightarrow> BundleManifest \<Rightarrow> state" where
  "stream_start e r bm =
     (resolved_state e r)\<lparr>trace := trace (resolved_state e r) @ map HttpHead (Layers bm),
                           wHeader := download_headers (wHeader (resolved_state e r))\<rparr>"


subsection \<open>Example environments\<close>

definition ex_request :: "string \<Rightarrow> Request" where
  "ex_request m =
     \<lparr>Method = m,
      URLPath = ''/bundle/abc.tar.gz'',
      Vars = [''installerID'' \<mapsto> ''abc.tar.gz''],
      ReqHeader = Map.empty,
      RemoteAddr = ''10.0.0.7:5555'',
      ProtoAtLeast11 = True\<rparr>"

definition ex_manifest ::
  "string list \<Rightarrow> (string \<times> string) list \<Rightarrow> string list \<Rightarrow> BundleManifest" where
  "ex_manifest ls fs is = \<lparr>Layers = ls, Files = map_of fs, Images = is\<rparr>"

text \<open>A layer with one entry, as the tar reader hands it out (format and type set).\<close>

definition ex_layer :: "tar_item list" where
  "ex_layer =
     [(\<lparr>Name = ''foo/bar.txt'', Size = 2, Mode = 420, ModTime = 5, Other = 1\<rparr>, ''hi'', IoOk)]"

text \<open>
  An environment around a given manifest: the upstream answers 200, the layer host
  \<^verbatim>\<open>dead\<close> answers 404 to the probe, the registry \<^verbatim>\<open>docker.io\<close> is known to the public
  suffix list, the image \<^verbatim>\<open>docker.io/b\<close> cannot be pulled, and \<^verbatim>\<open>range\<close> visits the files
  in the given order. The tar writer takes every header whose name has at most 100
  bytes, the length that fits every tar format, and no other; the gzip writer releases
  no compressed data before it is closed, as it does for little data.
\<close>

definition ex_env :: "BundleManifest \<Rightarrow> (string \<times> string) list \<Rightarrow> env" where
  "ex_env bm fs =
     \<lparr>NewRequest = (\<lambda>_. True),
      SplitHost = (\<lambda>_. ''10.0.0.7''),
      Do = (\<lambda>_ _. Resp 200 ''{}''),
      Unmarshal = (\<lambda>_. Some bm),
      Head = (\<lambda>u. if u = ''http://dead/l.tgz'' then HeadStatus 404 else HeadStatus 200),
      ParseHostname =
        (\<lambda>u. if u = ''https://docker.io/a'' then Some ''docker.io''
             else if u = ''https://docker.io/b'' then Some ''docker.io''
             else if u = ''https://evil.example.com/foo:latest'' then Some ''evil.example.com''
             else if u = ''https://nginx'' then Some ''nginx''
             else None),
      EffectiveTLDPlusOne =
        (\<lambda>h. if h = ''docker.io'' then Some ''docker.io''
             else if h = ''evil.example.com'' then Some ''example.com''
             else None),
      Pull =
        (\<lambda>i img. if img = ''docker.io/a'' then InDir ''/images/t0'' (Saved ''AAA'' IoOk)
                 else InDir ''/images/t1'' CopyImageErr),
      Get = (\<lambda>u. GetResp 200 (TarStream ex_layer EOF)),
      WriteFile = (\<lambda>_. IoOk),
      ArchiveClose = True,
      GzipClose = True,
      Encodable = (\<lambda>h. length (Name h) \<le> 100),
      GzipOut = (\<lambda>_. 0),
      Now = (\<lambda>_. 7),
      RangeFiles = (\<lambda>_. fs)\<rparr>"

definition ex_env0 :: env where
  "ex_env0 = ex_env (ex_manifest [] [] []) []"

text \<open>
  A manifest with an unreachable layer and a disallowed image; a manifest with a
  reachable layer and a disallowed image; an upstream that answers 404.
\<close>

definition ex_dead_evil :: BundleManifest where
  "ex_dead_evil = ex_manifest [''http://dead/l.tgz''] [] [''evil.example.com/foo:latest'']"

definition ex_env_dead_evil :: env where
  "ex_env_dead_evil = ex_env ex_dead_evil []"

definition ex_evil :: BundleManifest where
  "ex_evil = ex_manifest [''http://ok/l.tgz''] [] [''docker.io/a'', ''evil.example.com/foo:latest'']"

definition ex_env_evil :: env where
  "ex_env_evil = ex_env ex_evil []"

definition ex_env_404 :: env where
  "ex_env_404 = ex_env0\<lparr>Do := (\<lambda>_ _. Resp 404 ''not found'')\<rparr>"

text \<open>A manifest with an image, a layer and a file, all of which go through.\<close>

definition ex_good :: BundleManifest where
  "ex_good = ex_manifest [''http://ok/l.tgz''] [(''a'', ''x'')] [''docker.io/a'']"

definition ex_env_good :: env where
  "ex_env_good = ex_env ex_good [(''a'', ''x'')]"

text \<open>
  The same manifest where the layer server answers the transfer with 503, and where
  writing a file into the archive fails at once, after which the archive cannot be
  closed.
\<close>

definition ex_env_layer_down :: env where
  "ex_env_layer_down = ex_env_good\<lparr>Get := (\<lambda>u. GetResp 503 GunzipErr)\<rparr>"

definition ex_env_file_fails :: env where
  "ex_env_file_fails = ex_env_good\<lparr>WriteFile := (\<lambda>p. IoErr 0), ArchiveClose := False\<rparr>"



text \<open>
  A relative path of two plain elements, of 155 and of 100 bytes. The tar reader hands
  out such a name from a USTAR archive; under the prefix directory the name has 261
  bytes and no longer splits into the two fields of that format.
\<close>

definition ex_long_name :: string where
  "ex_long_name = replicate 155 (CHR ''p'') @ ''/'' @ replicate 100 (CHR ''n'')"

definition ex_long_item :: "string \<Rightarrow> tar_item" where
  "ex_long_item d =
     (\<lparr>Name = ex_long_name, Size = int (length d), Mode = 420, ModTime = 5, Other = 1\<rparr>, d, IoOk)"



text \<open>Two images, the second of which cannot be pulled; one image that cannot be pulled.\<close>

definition ex_two :: BundleManifest where
  "ex_two = ex_manifest [] [] [''docker.io/a'', ''docker.io/b'']"

definition ex_env_two :: env where
  "ex_env_two = ex_env ex_two []"



text \<open>Two files, visited in either order.\<close>

definition ex_ab :: BundleManifest where
  "ex_ab = ex_manifest [] [(''a'', ''x''), (''b'', ''y'')] []"

definition ex_env_ab :: env where
  "ex_env_ab = ex_env ex_ab [(''a'', ''x''), (''b'', ''y'')]"

definition ex_env_ba :: env where
  "ex_env_ba = ex_env ex_ab [(''b'', ''y''), (''a'', ''x'')]"

section \<open>Properties\<close>

subsection \<open>Paths\<close>

lemma split_slash_noslash: "CHR ''/'' \<notin> set c \<Longrightarrow> split_slash c = [c]"
  by (induction c) auto

lemma split_slash_append:
  "CHR ''/'' \<notin> set c \<Longrightarrow> split_slash (c @ CHR ''/'' # rest) = c # split_slash rest"
  by (induction c) auto

lemma split_join:
  "cs \<noteq> [] \<Longrightarrow> \<forall>c\<in>set cs. CHR ''/'' \<notin> set c \<Longrightarrow> split_slash (join_slash cs) = cs"
  by (induction cs rule: join_slash.induct) (auto simp: split_slash_noslash split_slash_append)

lemma foldl_clean_plain:
  "\<forall>c\<in>set cs. plain_elem c \<Longrightarrow> foldl (clean_step r) st cs = rev cs @ st"
  by (induction cs arbitrary: st) (auto simp: clean_step_def plain_elem_def)

lemma join_slash_nonempty:
  "cs \<noteq> [] \<Longrightarrow> \<forall>c\<in>set cs. c \<noteq> [] \<Longrightarrow> join_slash cs \<noteq> []"
  by (induction cs rule: join_slash.induct) auto

lemma Clean_plain:
  assumes ne: "cs \<noteq> []" and pl: "\<forall>c\<in>set cs. plain_elem c"
  shows "Clean (join_slash cs) = join_slash cs"
proof -
  have j: "join_slash cs \<noteq> []"
    using ne pl by (intro join_slash_nonempty) (auto simp: plain_elem_def)
  obtain x xs where cs: "cs = x # xs"
    using ne by (cases cs) auto
  have x: "x \<noteq> []" "CHR ''/'' \<notin> set x"
    using pl cs by (auto simp: plain_elem_def)
  have "hd (join_slash cs) = hd x"
    using x(1) cs by (cases xs) auto
  moreover have "hd x \<in> set x"
    using x(1) by (rule hd_in_set)
  ultimately have h: "hd (join_slash cs) \<noteq> CHR ''/''"
    using x(2) by auto
  have s: "split_slash (join_slash cs) = cs"
    using ne pl by (intro split_join) (auto simp: plain_elem_def)
  show ?thesis
    using j h by (simp add: Clean_def s foldl_clean_plain[OF pl] Let_def)
qed

lemma Join_kurl_plain:
  assumes "cs \<noteq> []" and "\<forall>c\<in>set cs. plain_elem c"
  shows "filepath_Join [''kurl'', join_slash cs] = ''kurl/'' @ join_slash cs"
proof -
  have pk: "\<forall>c\<in>set (''kurl'' # cs). plain_elem c"
    using assms by (simp add: plain_elem_def)
  have e: "join_slash [''kurl'', join_slash cs] = join_slash (''kurl'' # cs)"
    using assms(1) by (cases cs) auto
  have "Clean (join_slash (''kurl'' # cs)) = join_slash (''kurl'' # cs)"
    using pk by (intro Clean_plain) auto
  moreover have "join_slash (''kurl'' # cs) = ''kurl/'' @ join_slash cs"
    using assms(1) by (cases cs) auto
  ultimately show ?thesis
    using e by (simp add: filepath_Join_def)
qed

lemma Join_kurl_dotdot: "filepath_Join [''kurl'', ''../x''] = ''x''"
  by (simp add: filepath_Join_def Clean_def clean_step_def)

subsection \<open>The response writer\<close>

lemma emit_fields [simp]:
  "wMethod (emit ev s) = wMethod s"
  "wProto11 (emit ev s) = wProto11 s"
  "wHeader (emit ev s) = wHeader s"
  "wStatus (emit ev s) = wStatus s"
  "deferred (emit ev s) = deferred s"
  "wzStarted (emit ev s) = wzStarted s"
  "twOpen (emit ev s) = twOpen s"
  "trace (emit ev s) = trace s @ [ev]"
  by (simp_all add: emit_def)

lemma bodyAllowed_codes [simp]:
  "bodyAllowedForStatus 200" "bodyAllowedForStatus 404" "bodyAllowedForStatus 405"
  "bodyAllowedForStatus 422" "bodyAllowedForStatus 500" "\<not> bodyAllowedForStatus 204"
  by (simp_all add: bodyAllowedForStatus_def)

lemma rw_WriteHeader_fields [simp]:
  "wMethod (rw_WriteHeader c s) = wMethod s"
  "wProto11 (rw_WriteHeader c s) = wProto11 s"
  "wHeader (rw_WriteHeader c s) = wHeader s"
  "deferred (rw_WriteHeader c s) = deferred s"
  "wzStarted (rw_WriteHeader c s) = wzStarted s"
  "twOpen (rw_WriteHeader c s) = twOpen s"
  "trace (rw_WriteHeader c s) = trace s"
  "wStatus (rw_WriteHeader c s) =
     (case wStatus s of None \<Rightarrow> Some (c, wHeader s) | Some x \<Rightarrow> Some x)"
  by (simp_all add: rw_WriteHeader_def split: option.splits)

lemma rw_Write_fields [simp]:
  "wMethod (rw_Write c s) = wMethod s"
  "wProto11 (rw_Write c s) = wProto11 s"
  "wHeader (rw_Write c s) = wHeader s"
  "deferred (rw_Write c s) = deferred s"
  "wzStarted (rw_Write c s) = wzStarted s"
  "twOpen (rw_Write c s) = twOpen s"
  "wStatus (rw_Write c s) =
     (case wStatus s of None \<Rightarrow> Some (200, wHeader s) | Some x \<Rightarrow> Some x)"
  by (simp_all add: rw_Write_def Let_def split: option.splits)

lemma rw_Write_trace:
  "trace (rw_Write c s) =
     trace s @
     (if chunk_empty c \<or> wMethod s = ''HEAD'' \<or>
         \<not> bodyAllowedForStatus (case wStatus s of None \<Rightarrow> 200 | Some (c, h) \<Rightarrow> c)
      then [] else [Wire c])"
  by (auto simp: rw_Write_def Let_def split: option.splits)

lemma writable_rw_Write [simp]: "writable s \<Longrightarrow> writable (rw_Write c s)"
  by (auto simp: writable_def bodyAllowedForStatus_def split: option.splits)

lemma writable_emit [simp]: "writable (emit ev s) = writable s"
  by (simp add: writable_def)

lemma rw_Write_trace_writable:
  "writable s \<Longrightarrow> trace (rw_Write c s) = trace s @ (if chunk_empty c then [] else [Wire c])"
  by (auto simp: rw_Write_trace writable_def bodyAllowedForStatus_def split: option.splits)

lemma wire_append [simp]: "wire (xs @ ys) = wire xs @ wire ys"
  by (induction xs rule: wire.induct) auto

lemma archived_append [simp]: "archived (xs @ ys) = archived xs @ archived ys"
  by (induction xs rule: archived.induct) auto

lemma pulls_append [simp]: "pulls (xs @ ys) = pulls xs @ pulls ys"
  by (induction xs rule: pulls.induct) auto

lemma fetches_append [simp]: "fetches (xs @ ys) = fetches xs @ fetches ys"
  by (induction xs rule: fetches.induct) auto

lemma probes_append [simp]: "probes (xs @ ys) = probes xs @ probes ys"
  by (induction xs rule: probes.induct) auto

lemma logged_append [simp]: "logged (xs @ ys) = logged xs @ logged ys"
  by (induction xs rule: logged.induct) auto

lemma reported_append [simp]: "reported (xs @ ys) = reported xs @ reported ys"
  by (induction xs rule: reported.induct) auto

lemma archive_writes_append [simp]:
  "archive_writes (xs @ ys) = archive_writes xs @ archive_writes ys"
  by (induction xs rule: archive_writes.induct) auto

lemma texts_append [simp]: "texts (xs @ ys) = texts xs @ texts ys"
  by (induction xs rule: texts.induct) auto

lemma headers_of_append [simp]: "headers_of (xs @ ys) = headers_of xs @ headers_of ys"
  by (induction xs rule: headers_of.induct) auto

lemma body_emit:
  "body (emit ev s) = body s @ (case ev of Wire c \<Rightarrow> [c] | _ \<Rightarrow> [])"
  by (cases ev) (simp_all add: body_def)

text \<open>The response writer adds nothing but \<open>Wire\<close> events to the trace.\<close>

lemma rw_Write_quiet [simp]:
  "archived (trace (rw_Write c s)) = archived (trace s)"
  "pulls (trace (rw_Write c s)) = pulls (trace s)"
  "fetches (trace (rw_Write c s)) = fetches (trace s)"
  "probes (trace (rw_Write c s)) = probes (trace s)"
  "logged (trace (rw_Write c s)) = logged (trace s)"
  "reported (trace (rw_Write c s)) = reported (trace s)"
  by (simp_all add: rw_Write_trace)

lemma http_Error_fields [simp]:
  "wMethod (http_Error msg code s) = wMethod s"
  "wProto11 (http_Error msg code s) = wProto11 s"
  "deferred (http_Error msg code s) = deferred s"
  "wzStarted (http_Error msg code s) = wzStarted s"
  "twOpen (http_Error msg code s) = twOpen s"
  "wHeader (http_Error msg code s) = error_headers (wHeader s)"
  "wStatus (http_Error msg code s) =
     (case wStatus s of None \<Rightarrow> Some (code, error_headers (wHeader s)) | Some x \<Rightarrow> Some x)"
  by (simp_all add: http_Error_def error_headers_def split: option.splits)

lemma http_Error_trace:
  "trace (http_Error msg code s) =
     trace s @
     (if wMethod s = ''HEAD'' \<or>
         \<not> bodyAllowedForStatus (case wStatus s of None \<Rightarrow> code | Some (c, h) \<Rightarrow> c)
      then [] else [Wire (Plain (msg @ ''\<newline>''))])"
  by (auto simp: http_Error_def rw_Write_trace split: option.splits)

lemma http_Error_quiet [simp]:
  "archived (trace (http_Error msg code s)) = archived (trace s)"
  "pulls (trace (http_Error msg code s)) = pulls (trace s)"
  "fetches (trace (http_Error msg code s)) = fetches (trace s)"
  "probes (trace (http_Error msg code s)) = probes (trace s)"
  "logged (trace (http_Error msg code s)) = logged (trace s)"
  "reported (trace (http_Error msg code s)) = reported (trace s)"
  by (simp_all add: http_Error_trace)

lemma handleHttpError_fields [simp]:
  "wMethod (handleHttpError err code s) = wMethod s"
  "wProto11 (handleHttpError err code s) = wProto11 s"
  "deferred (handleHttpError err code s) = deferred s"
  "wzStarted (handleHttpError err code s) = wzStarted s"
  "twOpen (handleHttpError err code s) = twOpen s"
  "wHeader (handleHttpError err code s) = error_headers (wHeader s)"
  "wStatus (handleHttpError err code s) =
     (case wStatus s of None \<Rightarrow> Some (code, error_headers (wHeader s)) | Some x \<Rightarrow> Some x)"
  by (simp_all add: handleHttpError_def split: option.splits)

lemma handleHttpError_trace:
  "trace (handleHttpError err code s) =
     trace s @ [LogPrintln err] @
     (if wMethod s = ''HEAD'' \<or>
         \<not> bodyAllowedForStatus (case wStatus s of None \<Rightarrow> code | Some (c, h) \<Rightarrow> c)
      then [] else [Wire (Plain (StatusText code @ ''\<newline>''))]) @
     [BugsnagNotify err]"
  by (simp add: handleHttpError_def http_Error_trace)

lemma handleHttpError_obs [simp]:
  "archived (trace (handleHttpError err code s)) = archived (trace s)"
  "pulls (trace (handleHttpError err code s)) = pulls (trace s)"
  "fetches (trace (handleHttpError err code s)) = fetches (trace s)"
  "probes (trace (handleHttpError err code s)) = probes (trace s)"
  "logged (trace (handleHttpError err code s)) = logged (trace s) @ [err]"
  "reported (trace (handleHttpError err code s)) = reported (trace s) @ [err]"
  by (simp_all add: handleHttpError_trace)

lemma handleError_fields [simp]:
  "wMethod (handleError err s) = wMethod s"
  "wProto11 (handleError err s) = wProto11 s"
  "deferred (handleError err s) = deferred s"
  "wzStarted (handleError err s) = wzStarted s"
  "twOpen (handleError err s) = twOpen s"
  "wHeader (handleError err s) = wHeader s"
  "wStatus (handleError err s) = wStatus s"
  "trace (handleError err s) = trace s @ [LogPrintln err, BugsnagNotify err]"
  by (simp_all add: handleError_def)

lemma finishRequest_fields [simp]:
  "wMethod (finishRequest s) = wMethod s"
  "wProto11 (finishRequest s) = wProto11 s"
  "trace (finishRequest s) = trace s"
  "wStatus (finishRequest s) =
     (case wStatus s of None \<Rightarrow> Some (200, wHeader s) | Some x \<Rightarrow> Some x)"
  by (simp_all add: finishRequest_def)

lemma probes_map_HttpHead [simp]: "probes (map HttpHead us) = us"
  by (induction us) auto

lemma pulls_map_HttpHead [simp]: "pulls (map HttpHead us) = []"
  by (induction us) auto

lemma fetches_map_HttpHead [simp]: "fetches (map HttpHead us) = []"
  by (induction us) auto

lemma wire_map_HttpHead [simp]: "wire (map HttpHead us) = []"
  by (induction us) auto

lemma archived_map_HttpHead [simp]: "archived (map HttpHead us) = []"
  by (induction us) auto

lemma logged_map_HttpHead [simp]: "logged (map HttpHead us) = []"
  by (induction us) auto

lemma reported_map_HttpHead [simp]: "reported (map HttpHead us) = []"
  by (induction us) auto

subsection \<open>The gzip writer and the tar writer\<close>

lemma gzip_header_fields [simp]:
  "wMethod (gzip_header s) = wMethod s"
  "wProto11 (gzip_header s) = wProto11 s"
  "wHeader (gzip_header s) = wHeader s"
  "deferred (gzip_header s) = deferred s"
  "wzStarted (gzip_header s) = True"
  "twOpen (gzip_header s) = twOpen s"
  "wStatus (gzip_header s) =
     (if wzStarted s then wStatus s
      else case wStatus s of None \<Rightarrow> Some (200, wHeader s) | Some x \<Rightarrow> Some x)"
  by (simp_all add: gzip_header_def split: option.splits)

lemma gzip_header_trace:
  "writable s \<Longrightarrow>
   trace (gzip_header s) = trace s @ (if wzStarted s then [] else [Wire GzipHeader])"
  by (auto simp: gzip_header_def rw_Write_trace writable_def split: option.splits)

lemma gzip_header_quiet [simp]:
  "archived (trace (gzip_header s)) = archived (trace s)"
  "pulls (trace (gzip_header s)) = pulls (trace s)"
  "fetches (trace (gzip_header s)) = fetches (trace s)"
  "probes (trace (gzip_header s)) = probes (trace s)"
  "logged (trace (gzip_header s)) = logged (trace s)"
  "reported (trace (gzip_header s)) = reported (trace s)"
  by (simp_all add: gzip_header_def)

lemma writable_flags [simp]:
  "writable (s\<lparr>wzStarted := b\<rparr>) = writable s"
  "writable (s\<lparr>twOpen := b\<rparr>) = writable s"
  "writable (s\<lparr>deferred := d\<rparr>) = writable s"
  by (simp_all add: writable_def)

lemma writable_gzip_header [simp]: "writable s \<Longrightarrow> writable (gzip_header s)"
  by (simp add: gzip_header_def)

lemma gzip_Write_fields [simp]:
  "wMethod (gzip_Write e c s) = wMethod s"
  "wProto11 (gzip_Write e c s) = wProto11 s"
  "wHeader (gzip_Write e c s) = wHeader s"
  "deferred (gzip_Write e c s) = deferred s"
  "wzStarted (gzip_Write e c s) = True"
  "twOpen (gzip_Write e c s) = twOpen s"
  "wStatus (gzip_Write e c s) =
     (case wStatus s of None \<Rightarrow> Some (200, wHeader s) | Some x \<Rightarrow> Some x)"
  by (simp_all add: gzip_Write_def Let_def split: option.splits)

lemma gzip_Write_obs [simp]:
  "archived (trace (gzip_Write e c s)) = archived (trace s) @ [c]"
  "pulls (trace (gzip_Write e c s)) = pulls (trace s)"
  "fetches (trace (gzip_Write e c s)) = fetches (trace s)"
  "probes (trace (gzip_Write e c s)) = probes (trace s)"
  "logged (trace (gzip_Write e c s)) = logged (trace s)"
  "reported (trace (gzip_Write e c s)) = reported (trace s)"
  by (simp_all add: gzip_Write_def Let_def)

lemma writable_gzip_Write [simp]: "writable s \<Longrightarrow> writable (gzip_Write e c s)"
  by (simp add: gzip_Write_def Let_def)

lemma archive_WriteHeader_fields [simp]:
  "wMethod (archive_WriteHeader e h s) = wMethod s"
  "wProto11 (archive_WriteHeader e h s) = wProto11 s"
  "wHeader (archive_WriteHeader e h s) = wHeader s"
  "deferred (archive_WriteHeader e h s) = deferred s"
  "wzStarted (archive_WriteHeader e h s) = True"
  "twOpen (archive_WriteHeader e h s) = encodes e h"
  by (simp_all add: archive_WriteHeader_def Let_def)

lemma archive_WriteHeader_obs [simp]:
  "archived (trace (archive_WriteHeader e h s)) =
     archived (trace s) @ (if encodes e h then [TarHeader h] else [])"
  "pulls (trace (archive_WriteHeader e h s)) = pulls (trace s)"
  "fetches (trace (archive_WriteHeader e h s)) = fetches (trace s)"
  "probes (trace (archive_WriteHeader e h s)) = probes (trace s)"
  "logged (trace (archive_WriteHeader e h s)) = logged (trace s)"
  "reported (trace (archive_WriteHeader e h s)) = reported (trace s)"
  by (simp_all add: archive_WriteHeader_def Let_def)

lemma writable_archive_WriteHeader [simp]:
  "writable s \<Longrightarrow> writable (archive_WriteHeader e h s)"
  by (simp add: archive_WriteHeader_def Let_def)

lemma tar_data_fields [simp]:
  "wMethod (tar_data e d s) = wMethod s"
  "wProto11 (tar_data e d s) = wProto11 s"
  "wHeader (tar_data e d s) = wHeader s"
  "deferred (tar_data e d s) = deferred s"
  "twOpen (tar_data e d s) = twOpen s"
  by (simp_all add: tar_data_def)

lemma tar_data_obs [simp]:
  "archived (trace (tar_data e d s)) = archived (trace s) @ data_chunk d"
  "pulls (trace (tar_data e d s)) = pulls (trace s)"
  "fetches (trace (tar_data e d s)) = fetches (trace s)"
  "probes (trace (tar_data e d s)) = probes (trace s)"
  "logged (trace (tar_data e d s)) = logged (trace s)"
  "reported (trace (tar_data e d s)) = reported (trace s)"
  by (simp_all add: tar_data_def data_chunk_def)

lemma writable_tar_data [simp]: "writable s \<Longrightarrow> writable (tar_data e d s)"
  by (simp add: tar_data_def)

lemma archive_Write_fields [simp]:
  "wMethod (snd (archive_Write e d res s)) = wMethod s"
  "wProto11 (snd (archive_Write e d res s)) = wProto11 s"
  "wHeader (snd (archive_Write e d res s)) = wHeader s"
  "deferred (snd (archive_Write e d res s)) = deferred s"
  "twOpen (snd (archive_Write e d res s)) = twOpen s"
  by (simp_all add: archive_Write_def split: io_result.splits)

lemma archive_Write_quiet [simp]:
  "pulls (trace (snd (archive_Write e d res s))) = pulls (trace s)"
  "fetches (trace (snd (archive_Write e d res s))) = fetches (trace s)"
  "probes (trace (snd (archive_Write e d res s))) = probes (trace s)"
  "logged (trace (snd (archive_Write e d res s))) = logged (trace s)"
  "reported (trace (snd (archive_Write e d res s))) = reported (trace s)"
  by (simp_all add: archive_Write_def split: io_result.splits)

lemma writable_archive_Write [simp]:
  "writable s \<Longrightarrow> writable (snd (archive_Write e d res s))"
  by (simp add: archive_Write_def split: io_result.splits)

text \<open>
  One entry handed to the tar writer, header and then data: whether the handler goes
  on, and what reaches the archive.
\<close>

lemma put_entry:
  "fst (archive_Write e d res (archive_WriteHeader e h s)) = put_ok e h d res"
  "archived (trace (snd (archive_Write e d res (archive_WriteHeader e h s)))) =
     archived (trace s) @ put_chunks e h d res"
  by (auto simp: archive_Write_def put_ok_def put_chunks_def split: io_result.splits)

subsection \<open>Layer re-rooting\<close>

lemma pipe_entries_step:
  "pipe_entries e ((h, d, res) # items) fin s =
     (if \<not> put_ok e (reroot h) d res
      then (Some (PipeCopy (Name (reroot h))),
            snd (archive_Write e d res (archive_WriteHeader e (reroot h) s)))
      else pipe_entries e items fin
             (snd (archive_Write e d res (archive_WriteHeader e (reroot h) s))))"
  by (simp add: Let_def case_prod_unfold put_entry(1) reroot_def)

declare pipe_entries.simps(2) [simp del]

lemma pipe_entries_keeps:
  "wMethod (snd (pipe_entries e items fin s)) = wMethod s
   \<and> wProto11 (snd (pipe_entries e items fin s)) = wProto11 s
   \<and> wHeader (snd (pipe_entries e items fin s)) = wHeader s
   \<and> deferred (snd (pipe_entries e items fin s)) = deferred s
   \<and> pulls (trace (snd (pipe_entries e items fin s))) = pulls (trace s)
   \<and> fetches (trace (snd (pipe_entries e items fin s))) = fetches (trace s)
   \<and> probes (trace (snd (pipe_entries e items fin s))) = probes (trace s)
   \<and> logged (trace (snd (pipe_entries e items fin s))) = logged (trace s)
   \<and> reported (trace (snd (pipe_entries e items fin s))) = reported (trace s)"
proof (induction items arbitrary: s)
  case Nil
  show ?case by (simp split: tar_end.splits)
next
  case (Cons it items)
  obtain h d res where it: "it = (h, d, res)" by (cases it)
  show ?case
    unfolding it pipe_entries_step by (simp add: Cons.IH)
qed

lemma pipe_entries_run:
  "fst (pipe_entries e items fin s) =
     (case first_error (item_error e) items of
        Some err \<Rightarrow> Some err
      | None \<Rightarrow> (case fin of EOF \<Rightarrow> None | NextErr \<Rightarrow> Some PipeNext))
   \<and> archived (trace (snd (pipe_entries e items fin s))) =
       archived (trace s) @ concat (map (item_chunks e) (reached (item_error e) items))"
proof (induction items arbitrary: s)
  case Nil
  show ?case by (simp split: tar_end.splits)
next
  case (Cons it items)
  obtain h d res where it: "it = (h, d, res)" by (cases it)
  show ?case
    unfolding it pipe_entries_step by (simp add: Cons.IH put_entry(2))
qed

lemma long_elems:
  "plain_elem (replicate 155 (CHR ''p''))" "plain_elem (replicate 100 (CHR ''n''))"
proof -
  have "length (replicate 155 (CHR ''p'')) \<noteq> length ''.''"
    and "length (replicate 155 (CHR ''p'')) \<noteq> length ''..''"
    and "length (replicate 100 (CHR ''n'')) \<noteq> length ''.''"
    and "length (replicate 100 (CHR ''n'')) \<noteq> length ''..''"
    by simp_all
  then have "replicate 155 (CHR ''p'') \<noteq> ''.''" and "replicate 155 (CHR ''p'') \<noteq> ''..''"
    and "replicate 100 (CHR ''n'') \<noteq> ''.''" and "replicate 100 (CHR ''n'') \<noteq> ''..''"
    by fastforce+
  then show "plain_elem (replicate 155 (CHR ''p''))" "plain_elem (replicate 100 (CHR ''n''))"
    by (auto simp: plain_elem_def)
qed

lemma ex_long_name_join:
  "ex_long_name = join_slash [replicate 155 (CHR ''p''), replicate 100 (CHR ''n'')]"
  by (simp add: ex_long_name_def)

lemma ex_long_name_plain: "plain_path ex_long_name"
proof -
  have "split_slash ex_long_name = [replicate 155 (CHR ''p''), replicate 100 (CHR ''n'')]"
    unfolding ex_long_name_join by (rule split_join) simp_all
  then show ?thesis
    by (simp add: plain_path_def long_elems)
qed

lemma ex_long_name_reroot:
  "filepath_Join [''kurl'', ex_long_name] = ''kurl/'' @ ex_long_name"
  unfolding ex_long_name_join by (rule Join_kurl_plain) (simp_all add: long_elems)

lemma settled_header_fields [simp]:
  "Name (settled_header h) = Name h" "Size (settled_header h) = Size h"
  "Mode (settled_header h) = Mode h" "Other (settled_header h) = Other h"
  by (simp_all add: settled_header_def)

lemma ex_env_oracles [simp]:
  "encodes (ex_env bm fs) h = (length (Name h) \<le> 100)"
  "GzipOut (ex_env bm fs) cs = 0"
  by (simp_all add: ex_env_def encodes_def)

lemma new_response_fields [simp]:
  "wMethod (new_response r) = Method r"
  "wProto11 (new_response r) = ProtoAtLeast11 r"
  "wHeader (new_response r) = Map.empty"
  "wStatus (new_response r) = None"
  "trace (new_response r) = []"
  "deferred (new_response r) = []"
  "wzStarted (new_response r) = False"
  "twOpen (new_response r) = False"
  by (simp_all add: new_response_def)

text \<open>
  C8 (as amended). Take a layer entry whose name is a relative path of plain elements
  (such as \<^verbatim>\<open>foo/bar.txt\<close>), whose data is copied without error, and whose header the tar
  writer can still encode under the new name. The iteration of the loop of \<^verbatim>\<open>pipe\<close> on
  it adds to the archive exactly the header of the entry, with the name prefixed by
  \<^verbatim>\<open>kurl/\<close> and every other field unchanged, followed by the data of the entry unchanged;
  the loop then goes on: what it adds after that, and what it returns, is what the
  remaining entries bring.
\<close>

theorem layer_entry_rerooted:
  assumes "cs \<noteq> []" and "\<forall>c\<in>set cs. plain_elem c" and "Name header = join_slash cs"
    and "encodes e (header\<lparr>Name := ''kurl/'' @ Name header\<rparr>)"
  shows "archive (snd (pipe_entries e ((header, content, IoOk) # rest) fin s)) =
           archive s @ TarHeader (header\<lparr>Name := ''kurl/'' @ Name header\<rparr>) # data_chunk content
           @ concat (map (item_chunks e) (reached (item_error e) rest))
     \<and> fst (pipe_entries e ((header, content, IoOk) # rest) fin s) =
         (case first_error (item_error e) rest of
            Some err \<Rightarrow> Some err
          | None \<Rightarrow> (case fin of EOF \<Rightarrow> None | NextErr \<Rightarrow> Some PipeNext))"
proof -
  have j: "reroot header = header\<lparr>Name := ''kurl/'' @ Name header\<rparr>"
    using assms(1,2,3) by (simp add: reroot_def Join_kurl_plain)
  have ok: "put_ok e (reroot header) content IoOk"
    using assms(4) by (simp add: put_ok_def j)
  have ch: "put_chunks e (reroot header) content IoOk =
      TarHeader (header\<lparr>Name := ''kurl/'' @ Name header\<rparr>) # data_chunk content"
    using assms(4) by (simp add: put_chunks_def j)
  show ?thesis
    by (simp add: archive_def pipe_entries_run ok ch)
qed

theorem layer_entry_rerooted_witness:
  "encodes ex_env0 \<lparr>Name = ''kurl/foo/bar.txt'', Size = 2, Mode = 420, ModTime = 5, Other = 1\<rparr>
   \<and> archive (snd (pipe_entries ex_env0 ex_layer EOF (new_response (ex_request ''GET'')))) =
     [TarHeader \<lparr>Name = ''kurl/foo/bar.txt'', Size = 2, Mode = 420, ModTime = 5, Other = 1\<rparr>,
      TarData ''hi'']
   \<and> fst (pipe_entries ex_env0 ex_layer EOF (new_response (ex_request ''GET''))) = None"
proof -
  let ?h = "\<lparr>Name = ''foo/bar.txt'', Size = 2, Mode = 420, ModTime = 5, Other = 1\<rparr>"
  let ?s = "new_response (ex_request ''GET'')"
  have n: "Name ?h = join_slash [''foo'', ''bar.txt'']" by simp
  have p: "\<forall>c\<in>set [''foo'', ''bar.txt'']. plain_elem c" by (simp add: plain_elem_def)
  have c: "encodes ex_env0 (?h\<lparr>Name := ''kurl/'' @ Name ?h\<rparr>)"
    by (simp add: ex_env0_def)
  from layer_entry_rerooted [OF _ p n c, of "''hi''" "[]" EOF ?s]
  have "archive (snd (pipe_entries ex_env0 [(?h, ''hi'', IoOk)] EOF ?s)) =
          archive ?s @ TarHeader (?h\<lparr>Name := ''kurl/'' @ Name ?h\<rparr>) # data_chunk ''hi''"
    and "fst (pipe_entries ex_env0 [(?h, ''hi'', IoOk)] EOF ?s) = None"
    by simp_all
  with c show ?thesis
    by (simp add: ex_layer_def archive_def data_chunk_def)
qed

text \<open>
  C8 as stated fails: a layer entry whose name is a relative path of two plain elements,
  of 155 and of 100 bytes, is not written to the archive at all, because the tar writer
  cannot encode its header under the new name and the handler drops that error. With
  data, the copy then fails and \<^verbatim>\<open>pipe\<close> returns an error; without data, the entry is
  passed over in silence.
\<close>

theorem long_layer_entry_dropped_counterexample:
  "plain_path ex_long_name
   \<and> filepath_Join [''kurl'', ex_long_name] = ''kurl/'' @ ex_long_name
   \<and> archive (snd (pipe_entries ex_env0 [ex_long_item ''hi''] EOF
                     (new_response (ex_request ''GET'')))) = []
   \<and> fst (pipe_entries ex_env0 [ex_long_item ''hi''] EOF (new_response (ex_request ''GET'')))
       = Some (PipeCopy (''kurl/'' @ ex_long_name))
   \<and> archive (snd (pipe_entries ex_env0 [ex_long_item []] EOF
                     (new_response (ex_request ''GET'')))) = []
   \<and> fst (pipe_entries ex_env0 [ex_long_item []] EOF (new_response (ex_request ''GET'')))
       = None"
proof -
  have n: "Name (reroot (fst (ex_long_item d))) = ''kurl/'' @ ex_long_name" for d
    by (simp add: reroot_def ex_long_item_def ex_long_name_reroot)
  have l: "length ex_long_name = 256"
    by (simp add: ex_long_name_def)
  have c: "\<not> encodes ex_env0 (reroot (fst (ex_long_item d)))" for d
    by (simp add: ex_env0_def n l)
  have e: "item_error ex_env0 (ex_long_item d) =
      (if d = [] then None else Some (PipeCopy (''kurl/'' @ ex_long_name)))" for d
    using c [of d] n [of d] by (simp add: ex_long_item_def put_ok_def)
  have k: "item_chunks ex_env0 (ex_long_item d) = []" for d
    using c [of d] by (simp add: ex_long_item_def put_chunks_def)
  show ?thesis
    by (simp add: ex_long_name_plain ex_long_name_reroot archive_def pipe_entries_run e k)
qed

text \<open>
  C9. The rewritten path is not always under the prefix directory: the name of the
  layer entry \<^verbatim>\<open>../x\<close> is rewritten to \<^verbatim>\<open>x\<close>, which does not begin with \<^verbatim>\<open>kurl/\<close>, and the
  loop of \<^verbatim>\<open>pipe\<close> writes the entry under that name (when the tar writer can encode the
  header under it).
\<close>

theorem layer_entry_escapes_prefix:
  "filepath_Join [''kurl'', ''../x''] = ''x''
   \<and> \<not> prefix ''kurl/'' (filepath_Join [''kurl'', ''../x''])
   \<and> (encodes e (header\<lparr>Name := ''x''\<rparr>) \<longrightarrow>
        archive (snd (pipe_entries e [(header\<lparr>Name := ''../x''\<rparr>, content, IoOk)] EOF s)) =
          archive s @ TarHeader (header\<lparr>Name := ''x''\<rparr>) # data_chunk content)"
proof -
  have r: "reroot (header\<lparr>Name := ''../x''\<rparr>) = header\<lparr>Name := ''x''\<rparr>"
    by (simp add: reroot_def Join_kurl_dotdot)
  show ?thesis
    by (simp add: Join_kurl_dotdot archive_def pipe_entries_run r put_chunks_def)
qed

theorem layer_entry_escapes_prefix_witness:
  "encodes ex_env0 \<lparr>Name = ''x'', Size = 1, Mode = 420, ModTime = 5, Other = 1\<rparr>
   \<and> archive (snd (pipe_entries ex_env0
        [(\<lparr>Name = ''../x'', Size = 1, Mode = 420, ModTime = 5, Other = 1\<rparr>, ''z'', IoOk)] EOF
        (new_response (ex_request ''GET'')))) =
       [TarHeader \<lparr>Name = ''x'', Size = 1, Mode = 420, ModTime = 5, Other = 1\<rparr>, TarData ''z'']"
proof -
  let ?h = "\<lparr>Name = ''x'', Size = 1, Mode = 420, ModTime = 5, Other = 1\<rparr>"
  have c: "encodes ex_env0 (?h\<lparr>Name := ''x''\<rparr>)"
    by (simp add: ex_env0_def)
  from layer_entry_escapes_prefix
    [of ex_env0 ?h "''z''" "new_response (ex_request ''GET'')"] c
  have "archive (snd (pipe_entries ex_env0 [(?h\<lparr>Name := ''../x''\<rparr>, ''z'', IoOk)] EOF
          (new_response (ex_request ''GET'')))) =
        archive (new_response (ex_request ''GET'')) @ TarHeader (?h\<lparr>Name := ''x''\<rparr>) # data_chunk ''z''"
    by blast
  with c show ?thesis
    by (simp add: archive_def data_chunk_def)
qed

subsection \<open>The registry allowlist\<close>

text \<open>
  C10. An image reference is denied when the URL built from it does not parse, and
  when its host name has no effective top-level domain plus one: the error is dropped,
  the host is the empty string, and the empty string is not on the allowlist. This
  includes a single-label reference such as \<^verbatim>\<open>nginx\<close>.
\<close>

theorem allowRegistry_denies_unparsed_or_apexless:
  assumes "ParseHostname e (''https://'' @ img) = None
           \<or> (\<exists>hostname. ParseHostname e (''https://'' @ img) = Some hostname
                \<and> EffectiveTLDPlusOne e hostname = None)"
  shows "\<not> allowRegistry e img"
  using assms by (auto simp: allowRegistry_def)

theorem allowRegistry_denies_unparsed_or_apexless_witness:
  "ParseHostname ex_env0 (''https://'' @ ''nginx:latest'') = None
   \<and> \<not> allowRegistry ex_env0 ''nginx:latest''
   \<and> ParseHostname ex_env0 (''https://'' @ ''nginx'') = Some ''nginx''
   \<and> EffectiveTLDPlusOne ex_env0 ''nginx'' = None
   \<and> \<not> allowRegistry ex_env0 ''nginx''"
proof -
  have 1: "ParseHostname ex_env0 (''https://'' @ ''nginx:latest'') = None"
    by (simp add: ex_env0_def ex_env_def)
  have 2: "ParseHostname ex_env0 (''https://'' @ ''nginx'') = Some ''nginx''"
    by (simp add: ex_env0_def ex_env_def)
  have 3: "EffectiveTLDPlusOne ex_env0 ''nginx'' = None"
    by (simp add: ex_env0_def ex_env_def)
  from 1 have 4: "\<not> allowRegistry ex_env0 ''nginx:latest''"
    by (intro allowRegistry_denies_unparsed_or_apexless) simp
  from 2 3 have 5: "\<not> allowRegistry ex_env0 ''nginx''"
    by (intro allowRegistry_denies_unparsed_or_apexless) simp
  from 1 2 3 4 5 show ?thesis by blast
qed

subsection \<open>Manifest resolution and preflight\<close>

lemma resolve_Inr:
  assumes "resolve e r s = Inr (bm, s1)"
  shows "s1 = emit (ClientDo (installerURL r) (forwardHeader e r)) s"
  using assms
  by (auto simp: resolve_def Let_def split: if_splits do_result.splits option.splits)

lemma manifest_of_Some:
  assumes "manifest_of e r = Some bm"
  shows "(Method r = ''GET'' \<or> Method r = ''HEAD'')
         \<and> bundle_handler e r (new_response r) = serve_manifest e r bm (resolved_state e r)"
proof -
  let ?s0 = "emit (LogPrintf (Method r) (URLPath r)) (new_response r)"
  from assms have m: "Method r = ''GET'' \<or> Method r = ''HEAD''"
    by (auto simp: manifest_of_def split: if_splits)
  from assms m obtain s1 where res: "resolve e r ?s0 = Inr (bm, s1)"
    by (auto simp: manifest_of_def split: if_splits sum.splits)
  then have "s1 = resolved_state e r"
    by (simp add: resolve_Inr resolved_state_def)
  with res m show ?thesis
    by (auto simp: bundle_handler_def)
qed

lemma resolved_state_fields [simp]:
  "wMethod (resolved_state e r) = Method r"
  "wProto11 (resolved_state e r) = ProtoAtLeast11 r"
  "wzStarted (resolved_state e r) = False"
  "twOpen (resolved_state e r) = False"
  "wStatus (resolved_state e r) = None"
  "wHeader (resolved_state e r) = Map.empty"
  "deferred (resolved_state e r) = []"
  "trace (resolved_state e r) =
     [LogPrintf (Method r) (URLPath r), ClientDo (installerURL r) (forwardHeader e r)]"
  by (simp_all add: resolved_state_def new_response_def)

lemma check_layers_pass:
  "\<forall>u\<in>set ls. Head e u = HeadStatus 200 \<Longrightarrow>
   check_layers e iid ls s = (True, s\<lparr>trace := trace s @ map HttpHead ls\<rparr>)"
  by (induction ls arbitrary: s) (auto simp: emit_def)

lemma check_layers_fail:
  "\<exists>u\<in>set ls. Head e u \<noteq> HeadStatus 200 \<Longrightarrow>
   \<exists>probed err. prefix probed ls \<and> probed \<noteq> [] \<and>
     check_layers e iid ls s =
       (False, handleHttpError err 500 (s\<lparr>trace := trace s @ map HttpHead probed\<rparr>))"
proof (induction ls arbitrary: s)
  case Nil
  then show ?case by simp
next
  case (Cons u ls)
  show ?case
  proof (cases "Head e u = HeadStatus 200")
    case True
    with Cons.prems have "\<exists>u\<in>set ls. Head e u \<noteq> HeadStatus 200" by auto
    from Cons.IH [OF this, of "emit (HttpHead u) s"]
    obtain probed err where p: "prefix probed ls" "probed \<noteq> []"
      and c: "check_layers e iid ls (emit (HttpHead u) s) =
        (False, handleHttpError err 500
           ((emit (HttpHead u) s)\<lparr>trace := trace (emit (HttpHead u) s) @ map HttpHead probed\<rparr>))"
      by blast
    have "check_layers e iid (u # ls) s =
        (False, handleHttpError err 500 (s\<lparr>trace := trace s @ map HttpHead (u # probed)\<rparr>))"
      using True c by (simp add: emit_def)
    moreover have "prefix (u # probed) (u # ls)" using p by simp
    ultimately show ?thesis by blast
  next
    case False
    then have "\<exists>err. check_layers e iid (u # ls) s =
        (False, handleHttpError err 500 (s\<lparr>trace := trace s @ map HttpHead [u]\<rparr>))"
      by (cases "Head e u") (auto simp: emit_def)
    then obtain err where "check_layers e iid (u # ls) s =
        (False, handleHttpError err 500 (s\<lparr>trace := trace s @ map HttpHead [u]\<rparr>))" ..
    moreover have "prefix [u] (u # ls)" by simp
    ultimately show ?thesis by blast
  qed
qed

lemma check_images_pass:
  "\<forall>img\<in>set is. allowRegistry e img \<Longrightarrow> check_images e is s = (True, s)"
  by (induction "is") auto

lemma check_images_fail:
  "\<exists>img\<in>set is. \<not> allowRegistry e img \<Longrightarrow>
   \<exists>img\<in>set is. \<not> allowRegistry e img \<and>
     check_images e is s = (False, handleHttpError (ErrUnsupportedRegistry img) 422 s)"
  by (induction "is") auto

lemma serve_via_manifest:
  assumes "manifest_of e r = Some bm"
  shows "ServeHTTP e r = finishRequest (serve_manifest e r bm (resolved_state e r))"
  using manifest_of_Some [OF assms] by (simp add: ServeHTTP_def)

lemma serve_manifest_probe_fail:
  assumes f: "\<exists>u\<in>set (Layers bm). Head e u \<noteq> HeadStatus 200"
  shows "\<exists>probed err. prefix probed (Layers bm) \<and> probed \<noteq> []
     \<and> serve_manifest e r bm s =
         handleHttpError err 500 (s\<lparr>trace := trace s @ map HttpHead probed\<rparr>)"
proof -
  from check_layers_fail [OF f, of "installerID r" s]
  obtain probed err where p: "prefix probed (Layers bm)" "probed \<noteq> []"
    and c: "check_layers e (installerID r) (Layers bm) s =
       (False, handleHttpError err 500 (s\<lparr>trace := trace s @ map HttpHead probed\<rparr>))"
    by blast
  have "serve_manifest e r bm s =
         handleHttpError err 500 (s\<lparr>trace := trace s @ map HttpHead probed\<rparr>)"
    by (simp add: serve_manifest_def c)
  with p show ?thesis by blast
qed

lemma serve_manifest_denied:
  assumes p: "\<forall>u\<in>set (Layers bm). Head e u = HeadStatus 200"
    and d: "\<exists>img\<in>set (Images bm). \<not> allowRegistry e img"
  shows "\<exists>img\<in>set (Images bm). \<not> allowRegistry e img
     \<and> serve_manifest e r bm s =
         handleHttpError (ErrUnsupportedRegistry img) 422
           (s\<lparr>trace := trace s @ map HttpHead (Layers bm)\<rparr>)"
proof -
  let ?s2 = "s\<lparr>trace := trace s @ map HttpHead (Layers bm)\<rparr>"
  from check_images_fail [OF d, of ?s2]
  obtain img where i: "img \<in> set (Images bm)" "\<not> allowRegistry e img"
    and c: "check_images e (Images bm) ?s2 =
       (False, handleHttpError (ErrUnsupportedRegistry img) 422 ?s2)"
    by blast
  have "serve_manifest e r bm s = handleHttpError (ErrUnsupportedRegistry img) 422 ?s2"
    by (simp add: serve_manifest_def check_layers_pass [OF p] c)
  with i show ?thesis by blast
qed

lemma serve_manifest_pass:
  assumes p: "\<forall>u\<in>set (Layers bm). Head e u = HeadStatus 200"
    and a: "\<forall>img\<in>set (Images bm). allowRegistry e img"
  shows "serve_manifest e r bm s =
     (let s4 = s\<lparr>trace := trace s @ map HttpHead (Layers bm),
                  wHeader := download_headers (wHeader s)\<rparr>
      in if Method r = ''HEAD'' then s4
         else run_deferred e (installerID r)
                (snd (compose e (installerID r) bm (new_writers s4))))"
  by (simp add: serve_manifest_def check_layers_pass [OF p] check_images_pass [OF a])

lemma serve_probe_fail:
  assumes m: "manifest_of e r = Some bm"
    and f: "\<exists>u\<in>set (Layers bm). Head e u \<noteq> HeadStatus 200"
  shows "\<exists>probed err. prefix probed (Layers bm) \<and> probed \<noteq> []
     \<and> wStatus (ServeHTTP e r) = Some (500, error_headers Map.empty)
     \<and> trace (ServeHTTP e r) =
         [LogPrintf (Method r) (URLPath r), ClientDo (installerURL r) (forwardHeader e r)]
         @ map HttpHead probed @ [LogPrintln err]
         @ (if Method r = ''HEAD'' then [] else [Wire (Plain ''Internal Server Error\<newline>'')])
         @ [BugsnagNotify err]"
proof -
  from serve_manifest_probe_fail [OF f, of r "resolved_state e r"]
  obtain probed err where p: "prefix probed (Layers bm)" "probed \<noteq> []"
    and c: "ServeHTTP e r = finishRequest (handleHttpError err 500
          ((resolved_state e r)\<lparr>trace := trace (resolved_state e r) @ map HttpHead probed\<rparr>))"
    unfolding serve_via_manifest [OF m] by auto
  have "wStatus (ServeHTTP e r) = Some (500, error_headers Map.empty)"
    unfolding c by simp
  moreover have "trace (ServeHTTP e r) =
         [LogPrintf (Method r) (URLPath r), ClientDo (installerURL r) (forwardHeader e r)]
         @ map HttpHead probed @ [LogPrintln err]
         @ (if Method r = ''HEAD'' then [] else [Wire (Plain ''Internal Server Error\<newline>'')])
         @ [BugsnagNotify err]"
    unfolding c
    by (simp add: handleHttpError_trace bodyAllowedForStatus_def StatusText_def)
  ultimately show ?thesis using p by blast
qed

lemma serve_denied:
  assumes m: "manifest_of e r = Some bm"
    and p: "\<forall>u\<in>set (Layers bm). Head e u = HeadStatus 200"
    and d: "\<exists>img\<in>set (Images bm). \<not> allowRegistry e img"
  shows "\<exists>img\<in>set (Images bm). \<not> allowRegistry e img
     \<and> wStatus (ServeHTTP e r) = Some (422, error_headers Map.empty)
     \<and> trace (ServeHTTP e r) =
         [LogPrintf (Method r) (URLPath r), ClientDo (installerURL r) (forwardHeader e r)]
         @ map HttpHead (Layers bm) @ [LogPrintln (ErrUnsupportedRegistry img)]
         @ (if Method r = ''HEAD'' then [] else [Wire (Plain ''Unprocessable Entity\<newline>'')])
         @ [BugsnagNotify (ErrUnsupportedRegistry img)]"
proof -
  from serve_manifest_denied [OF p d, of r "resolved_state e r"]
  obtain img where i: "img \<in> set (Images bm)" "\<not> allowRegistry e img"
    and c: "ServeHTTP e r = finishRequest (handleHttpError (ErrUnsupportedRegistry img) 422
          ((resolved_state e r)\<lparr>trace := trace (resolved_state e r) @ map HttpHead (Layers bm)\<rparr>))"
    unfolding serve_via_manifest [OF m] by auto
  have "wStatus (ServeHTTP e r) = Some (422, error_headers Map.empty)"
    unfolding c by simp
  moreover have "trace (ServeHTTP e r) =
         [LogPrintf (Method r) (URLPath r), ClientDo (installerURL r) (forwardHeader e r)]
         @ map HttpHead (Layers bm) @ [LogPrintln (ErrUnsupportedRegistry img)]
         @ (if Method r = ''HEAD'' then [] else [Wire (Plain ''Unprocessable Entity\<newline>'')])
         @ [BugsnagNotify (ErrUnsupportedRegistry img)]"
    unfolding c
    by (simp add: handleHttpError_trace bodyAllowedForStatus_def StatusText_def)
  ultimately show ?thesis using i by blast
qed


lemma serve_404:
  assumes m: "Method r = ''GET'' \<or> Method r = ''HEAD''"
    and n: "NewRequest e (installerURL r)"
    and d: "Do e (installerURL r) (forwardHeader e r) = Resp 404 b"
  shows "wStatus (ServeHTTP e r) = Some (404, error_headers Map.empty)"
    and "trace (ServeHTTP e r) =
         [LogPrintf (Method r) (URLPath r), ClientDo (installerURL r) (forwardHeader e r)]
         @ (if Method r = ''HEAD'' then [] else [Wire (Plain (b @ ''\<newline>''))])"
proof -
  let ?s0 = "emit (LogPrintf (Method r) (URLPath r)) (new_response r)"
  have r: "resolve e r ?s0 = Inl (http_Error b 404 (resolved_state e r))"
    using n d by (simp add: resolve_def Let_def resolved_state_def)
  have b: "ServeHTTP e r = finishRequest (http_Error b 404 (resolved_state e r))"
    using m r by (auto simp: bundle_handler_def ServeHTTP_def)
  show "wStatus (ServeHTTP e r) = Some (404, error_headers Map.empty)"
    unfolding b by simp
  show "trace (ServeHTTP e r) =
         [LogPrintf (Method r) (URLPath r), ClientDo (installerURL r) (forwardHeader e r)]
         @ (if Method r = ''HEAD'' then [] else [Wire (Plain (b @ ''\<newline>''))])"
    unfolding b by (simp add: http_Error_trace bodyAllowedForStatus_def)
qed


lemma ex_env_manifest:
  "m = ''GET'' \<or> m = ''HEAD'' \<Longrightarrow> manifest_of (ex_env bm fs) (ex_request m) = Some bm"
  by (auto simp: manifest_of_def resolve_def ex_env_def ex_request_def Let_def)

lemma ex_env_allow:
  "allowRegistry (ex_env bm fs) ''docker.io/a''"
  "allowRegistry (ex_env bm fs) ''docker.io/b''"
  "\<not> allowRegistry (ex_env bm fs) ''evil.example.com/foo:latest''"
  by (simp_all add: allowRegistry_def ex_env_def)

lemma ex_env_head:
  "Head (ex_env bm fs) ''http://ok/l.tgz'' = HeadStatus 200"
  "Head (ex_env bm fs) ''http://dead/l.tgz'' = HeadStatus 404"
  by (simp_all add: ex_env_def)

subsection \<open>Answers of the resolution and of the preflight checks\<close>

text \<open>
  C5 (as amended). When the upstream answers the manifest request with status 404, the
  client receives status 404; the body of a \<^verbatim>\<open>GET\<close> response is the upstream body
  followed by one newline, because \<^verbatim>\<open>http.Error\<close> prints the message with
  \<^verbatim>\<open>fmt.Fprintln\<close>, and a \<^verbatim>\<open>HEAD\<close> response has no body.
\<close>

theorem upstream_404_relayed:
  assumes "Method r = ''GET'' \<or> Method r = ''HEAD''"
    and "NewRequest e (installerURL r)"
    and "Do e (installerURL r) (forwardHeader e r) = Resp 404 b"
  shows "status (ServeHTTP e r) = Some 404
     \<and> body (ServeHTTP e r) = (if Method r = ''HEAD'' then [] else [Plain (b @ ''\<newline>'')])"
  using serve_404 [OF assms] by (simp add: status_def body_def)

theorem upstream_404_relayed_witness:
  "NewRequest ex_env_404 (installerURL (ex_request ''GET''))
   \<and> Do ex_env_404 (installerURL (ex_request ''GET'')) (forwardHeader ex_env_404 (ex_request ''GET''))
       = Resp 404 ''not found''
   \<and> status (ServeHTTP ex_env_404 (ex_request ''GET'')) = Some 404
   \<and> body (ServeHTTP ex_env_404 (ex_request ''GET'')) = [Plain ''not found\<newline>'']"
proof -
  have n: "NewRequest ex_env_404 (installerURL (ex_request ''GET''))"
    by (simp add: ex_env_404_def ex_env0_def ex_env_def)
  have d: "Do ex_env_404 (installerURL (ex_request ''GET''))
       (forwardHeader ex_env_404 (ex_request ''GET'')) = Resp 404 ''not found''"
    by (simp add: ex_env_404_def)
  have m: "Method (ex_request ''GET'') = ''GET'' \<or> Method (ex_request ''GET'') = ''HEAD''"
    by (simp add: ex_request_def)
  from upstream_404_relayed [OF m n d] n d show ?thesis
    by (simp add: ex_request_def)
qed

text \<open>
  C5 as stated fails: for the upstream body \<^verbatim>\<open>not found\<close> the body of the response is
  not that text.
\<close>

theorem upstream_404_body_counterexample:
  "Do ex_env_404 (installerURL (ex_request ''GET'')) (forwardHeader ex_env_404 (ex_request ''GET''))
       = Resp 404 ''not found''
   \<and> body (ServeHTTP ex_env_404 (ex_request ''GET'')) \<noteq> [Plain ''not found'']"
proof -
  have n: "NewRequest ex_env_404 (installerURL (ex_request ''GET''))"
    by (simp add: ex_env_404_def ex_env0_def ex_env_def)
  have d: "Do ex_env_404 (installerURL (ex_request ''GET''))
       (forwardHeader ex_env_404 (ex_request ''GET'')) = Resp 404 ''not found''"
    by (simp add: ex_env_404_def)
  have m: "Method (ex_request ''GET'') = ''GET'' \<or> Method (ex_request ''GET'') = ''HEAD''"
    by (simp add: ex_request_def)
  from serve_404(2) [OF m n d] d show ?thesis
    by (simp add: body_def ex_request_def)
qed

text \<open>
  C1 (as amended). For every \<^verbatim>\<open>GET\<close> or \<^verbatim>\<open>HEAD\<close> request whose manifest holds an image
  that the allowlist denies, the handler pulls no image, fetches no layer and writes
  nothing to the archive; when every layer probe succeeds it answers 422. (The probes
  come first: when one of them fails, the answer is 500.)
\<close>

theorem denied_image_rejected:
  assumes "manifest_of e r = Some bm"
    and "\<exists>img\<in>set (Images bm). \<not> allowRegistry e img"
  shows "pulls (trace (ServeHTTP e r)) = [] \<and> fetches (trace (ServeHTTP e r)) = []
     \<and> archive_writes (body (ServeHTTP e r)) = []
     \<and> ((\<forall>u\<in>set (Layers bm). Head e u = HeadStatus 200) \<longrightarrow>
          status (ServeHTTP e r) = Some 422)"
proof (cases "\<forall>u\<in>set (Layers bm). Head e u = HeadStatus 200")
  case True
  from serve_denied [OF assms(1) True assms(2)] show ?thesis
    using True by (auto simp: status_def body_def)
next
  case False
  then have "\<exists>u\<in>set (Layers bm). Head e u \<noteq> HeadStatus 200" by blast
  from serve_probe_fail [OF assms(1) this] show ?thesis
    using False by (auto simp: status_def body_def)
qed

theorem denied_image_rejected_witness:
  "manifest_of ex_env_evil (ex_request ''GET'') = Some ex_evil
   \<and> ''evil.example.com/foo:latest'' \<in> set (Images ex_evil)
   \<and> \<not> allowRegistry ex_env_evil ''evil.example.com/foo:latest''
   \<and> Head ex_env_evil ''http://ok/l.tgz'' = HeadStatus 200
   \<and> status (ServeHTTP ex_env_evil (ex_request ''GET'')) = Some 422
   \<and> pulls (trace (ServeHTTP ex_env_evil (ex_request ''GET''))) = []
   \<and> fetches (trace (ServeHTTP ex_env_evil (ex_request ''GET''))) = []
   \<and> archive_writes (body (ServeHTTP ex_env_evil (ex_request ''GET''))) = []"
proof -
  have m: "manifest_of ex_env_evil (ex_request ''GET'') = Some ex_evil"
    by (simp add: ex_env_evil_def ex_env_manifest)
  have i: "''evil.example.com/foo:latest'' \<in> set (Images ex_evil)"
    by (simp add: ex_evil_def ex_manifest_def)
  have d: "\<not> allowRegistry ex_env_evil ''evil.example.com/foo:latest''"
    by (simp add: ex_env_evil_def ex_env_allow)
  have h: "Head ex_env_evil ''http://ok/l.tgz'' = HeadStatus 200"
    by (simp add: ex_env_evil_def ex_env_head)
  have p: "\<forall>u\<in>set (Layers ex_evil). Head ex_env_evil u = HeadStatus 200"
    using h by (simp add: ex_evil_def ex_manifest_def)
  from i d have "\<exists>img\<in>set (Images ex_evil). \<not> allowRegistry ex_env_evil img" by blast
  from denied_image_rejected [OF m this] p m i d h show ?thesis by blast
qed

text \<open>
  C1 as stated fails: a manifest with a denied image and an unreachable layer is
  answered with 500, not 422.
\<close>

theorem denied_image_with_dead_layer_counterexample:
  "manifest_of ex_env_dead_evil (ex_request ''GET'') = Some ex_dead_evil
   \<and> ''evil.example.com/foo:latest'' \<in> set (Images ex_dead_evil)
   \<and> \<not> allowRegistry ex_env_dead_evil ''evil.example.com/foo:latest''
   \<and> status (ServeHTTP ex_env_dead_evil (ex_request ''GET'')) = Some 500"
proof -
  have m: "manifest_of ex_env_dead_evil (ex_request ''GET'') = Some ex_dead_evil"
    by (simp add: ex_env_dead_evil_def ex_env_manifest)
  have i: "''evil.example.com/foo:latest'' \<in> set (Images ex_dead_evil)"
    by (simp add: ex_dead_evil_def ex_manifest_def)
  have d: "\<not> allowRegistry ex_env_dead_evil ''evil.example.com/foo:latest''"
    by (simp add: ex_env_dead_evil_def ex_env_allow)
  have "\<exists>u\<in>set (Layers ex_dead_evil). Head ex_env_dead_evil u \<noteq> HeadStatus 200"
    by (simp add: ex_dead_evil_def ex_manifest_def ex_env_dead_evil_def ex_env_head)
  from serve_probe_fail [OF m this]
  have "status (ServeHTTP ex_env_dead_evil (ex_request ''GET'')) = Some 500"
    by (auto simp: status_def)
  with m i d show ?thesis by blast
qed

subsection \<open>What the streaming phase preserves\<close>

lemma stable_emit: "stable e P \<Longrightarrow> stream_event ev \<Longrightarrow> P s \<Longrightarrow> P (emit ev s)"
  by (simp add: stable_def)

lemma stable_gzip_header: "stable e P \<Longrightarrow> P s \<Longrightarrow> P (gzip_header s)"
  by (simp add: stable_def)

lemma stable_gzip_Write: "stable e P \<Longrightarrow> P s \<Longrightarrow> P (gzip_Write e c s)"
  by (simp add: stable_def)

lemma stable_deferred: "stable e P \<Longrightarrow> P s \<Longrightarrow> P (s\<lparr>deferred := d\<rparr>)"
  by (simp add: stable_def)

lemma stable_twOpen: "stable e P \<Longrightarrow> P s \<Longrightarrow> P (s\<lparr>twOpen := b\<rparr>)"
  by (simp add: stable_def)

lemma steady_stable: "steady e P \<Longrightarrow> stable e P"
  by (simp add: steady_def)

lemma steady_http_Error: "steady e P \<Longrightarrow> P s \<Longrightarrow> P (http_Error msg 500 s)"
  by (simp add: steady_def)

lemma stable_handleError:
  assumes st: "stable e P" and p: "P s"
  shows "P (handleError err s)"
  unfolding handleError_def using p by (intro stable_emit [OF st]) simp_all

lemma steady_handleHttpError:
  assumes sd: "steady e P" and p: "P s"
  shows "P (handleHttpError err 500 s)"
  unfolding handleHttpError_def using p
  by (intro stable_emit [OF steady_stable [OF sd]] steady_http_Error [OF sd]) simp_all

lemma stable_archive_WriteHeader:
  "stable e P \<Longrightarrow> P s \<Longrightarrow> P (archive_WriteHeader e h s)"
  by (simp add: archive_WriteHeader_def Let_def stable_gzip_header stable_gzip_Write stable_twOpen)

lemma stable_tar_data: "stable e P \<Longrightarrow> P s \<Longrightarrow> P (tar_data e d s)"
  by (simp add: tar_data_def stable_gzip_Write)

lemma stable_archive_Write:
  "stable e P \<Longrightarrow> P s \<Longrightarrow> P (snd (archive_Write e d res s))"
  by (simp add: archive_Write_def stable_tar_data split: io_result.splits)

lemma stable_defer_RemoveAll: "stable e P \<Longrightarrow> P s \<Longrightarrow> P (defer_RemoveAll dir s)"
  by (simp add: defer_RemoveAll_def stable_deferred)

lemma stable_pipe_entries:
  assumes st: "stable e P"
  shows "P s \<Longrightarrow> P (snd (pipe_entries e items fin s))"
proof (induction items arbitrary: s)
  case Nil
  then show ?case by (simp split: tar_end.splits)
next
  case (Cons it items)
  obtain h d res where it: "it = (h, d, res)" by (cases it)
  have "P (snd (archive_Write e d res (archive_WriteHeader e (reroot h) s)))"
    using Cons.prems by (intro stable_archive_Write [OF st] stable_archive_WriteHeader [OF st])
  then show ?case
    unfolding it pipe_entries_step by (simp add: Cons.IH)
qed

lemma stable_pipe:
  assumes st: "stable e P" and p: "P s"
  shows "P (snd (pipe e srcURL s))"
proof -
  have "P (emit (HttpGet srcURL) s)"
    using p by (intro stable_emit [OF st]) simp_all
  then show ?thesis
    by (simp add: pipe_def Let_def stable_pipe_entries [OF st]
        split: get_result.splits layer_body.splits)
qed

lemma stream_layers_step:
  "stream_layers e iid (u # rest) s =
     (case fst (pipe e u s) of
        Some err \<Rightarrow> (False, handleError (ErrPipe u iid err) (snd (pipe e u s)))
      | None \<Rightarrow> stream_layers e iid rest (snd (pipe e u s)))"
  by (cases "pipe e u s") (simp split: option.splits)

declare stream_layers.simps(2) [simp del]

lemma stable_stream_layers:
  assumes st: "stable e P"
  shows "P s \<Longrightarrow> P (snd (stream_layers e iid us s))"
proof (induction us arbitrary: s)
  case Nil
  then show ?case by simp
next
  case (Cons u us)
  have "P (snd (pipe e u s))"
    using Cons.prems by (rule stable_pipe [OF st])
  then show ?case
    unfolding stream_layers_step
    by (simp add: Cons.IH stable_handleError [OF st] split: option.splits)
qed

lemma stream_files_step:
  "stream_files e iid ((p, c) # rest) s =
     (if \<not> file_ok e (p, c)
      then (False, handleError (ErrWriteFile p iid)
              (snd (archive_Write e c (WriteFile e p)
                      (archive_WriteHeader e (file_header e p c) s))))
      else stream_files e iid rest
             (snd (archive_Write e c (WriteFile e p)
                     (archive_WriteHeader e (file_header e p c) s))))"
  by (simp add: Let_def case_prod_unfold put_entry(1))

declare stream_files.simps(2) [simp del]

lemma stable_stream_files:
  assumes st: "stable e P"
  shows "P s \<Longrightarrow> P (snd (stream_files e iid kvs s))"
proof (induction kvs arbitrary: s)
  case Nil
  then show ?case by simp
next
  case (Cons kv kvs)
  obtain p c where kv: "kv = (p, c)" by (cases kv)
  have "P (snd (archive_Write e c (WriteFile e p) (archive_WriteHeader e (file_header e p c) s)))"
    using Cons.prems by (intro stable_archive_Write [OF st] stable_archive_WriteHeader [OF st])
  then show ?case
    unfolding kv stream_files_step
    by (simp add: Cons.IH stable_handleError [OF st] del: file_ok.simps)
qed

lemma steady_append_image:
  assumes sd: "steady e P" and p: "P s"
  shows "P (snd (append_image e i img s))"
proof -
  note st = steady_stable [OF sd]
  have h: "\<And>err t. P t \<Longrightarrow> P (handleHttpError err 500 t)"
    by (rule steady_handleHttpError [OF sd])
  show ?thesis
  proof (cases "Pull e i img")
    case SrcRefErr
    then show ?thesis using p by (simp add: append_image_def h)
  next
    case TempDirErr
    then show ?thesis using p by (simp add: append_image_def h)
  next
    case (InDir tempDir sv)
    define s1 where "s1 = defer_RemoveAll tempDir (emit (TempDir tempDir) s)"
    define s2 where
      "s2 = emit (CopyImage img (filepath_Join [tempDir, ''temp-archive-image''])) s1"
    have p1: "P s1"
      unfolding s1_def using p
      by (intro stable_defer_RemoveAll [OF st] stable_emit [OF st]) simp_all
    have p2: "P s2"
      unfolding s2_def using p1 by (intro stable_emit [OF st]) simp_all
    show ?thesis
    proof (cases sv)
      case (Saved content res)
      define s4 where
        "s4 = snd (archive_Write e content res (archive_WriteHeader e (image_header e i content) s2))"
      have p4: "P s4"
        unfolding s4_def using p2
        by (intro stable_archive_Write [OF st] stable_archive_WriteHeader [OF st])
      have "P (emit RuntimeGC (emit (RemoveAll tempDir) s4))"
        using p4 by (intro stable_emit [OF st]) simp_all
      with p4 show ?thesis
        by (simp add: append_image_def InDir Saved Let_def case_prod_unfold h
            s1_def [symmetric] s2_def [symmetric] s4_def [symmetric])
    qed (use p1 p2 in \<open>simp_all add: append_image_def InDir Let_def h
          s1_def [symmetric] s2_def [symmetric]\<close>)
  qed
qed

lemma stream_images_step:
  "stream_images e i (img # rest) s =
     (if fst (append_image e i img s) then stream_images e (Suc i) rest (snd (append_image e i img s))
      else (False, snd (append_image e i img s)))"
  by (simp add: case_prod_unfold)

declare stream_images.simps(2) [simp del]

lemma steady_stream_images:
  assumes sd: "steady e P"
  shows "P s \<Longrightarrow> P (snd (stream_images e i imgs s))"
proof (induction imgs arbitrary: s i)
  case Nil
  then show ?case by simp
next
  case (Cons img imgs)
  have "P (snd (append_image e i img s))"
    using Cons.prems by (rule steady_append_image [OF sd])
  then show ?case
    unfolding stream_images_step by (simp add: Cons.IH)
qed

lemma compose_unfold:
  "compose e iid bm s =
     (if \<not> fst (stream_images e 0 (Images bm) s) then (False, snd (stream_images e 0 (Images bm) s))
      else if \<not> fst (stream_layers e iid (Layers bm) (snd (stream_images e 0 (Images bm) s)))
      then (False, snd (stream_layers e iid (Layers bm) (snd (stream_images e 0 (Images bm) s))))
      else stream_files e iid (RangeFiles e (Files bm))
             (snd (stream_layers e iid (Layers bm) (snd (stream_images e 0 (Images bm) s)))))"
  by (simp add: compose_def case_prod_unfold Let_def)

lemma steady_compose:
  assumes sd: "steady e P" and p: "P s"
  shows "P (snd (compose e iid bm s))"
proof -
  note st = steady_stable [OF sd]
  have 1: "P (snd (stream_images e 0 (Images bm) s))"
    using p by (rule steady_stream_images [OF sd])
  then have 2: "P (snd (stream_layers e iid (Layers bm) (snd (stream_images e 0 (Images bm) s))))"
    by (rule stable_stream_layers [OF st])
  then have "P (snd (stream_files e iid (RangeFiles e (Files bm))
      (snd (stream_layers e iid (Layers bm) (snd (stream_images e 0 (Images bm) s))))))"
    by (rule stable_stream_files [OF st])
  with 1 2 show ?thesis
    by (simp add: compose_unfold)
qed

lemma stable_run_removes:
  assumes st: "stable e P"
  shows "P s \<Longrightarrow> P (run_removes dirs s)"
  by (induction dirs arbitrary: s) (simp_all add: stable_emit [OF st])

lemma stable_close_archive:
  "stable e P \<Longrightarrow> P s \<Longrightarrow> P (close_archive e iid s)"
  by (simp add: close_archive_def stable_gzip_Write stable_handleError)

text \<open>The state in which the gzip writer is closed.\<close>

lemma run_deferred_unfold:
  "run_deferred e iid s =
     close_gzip e iid (close_archive e iid ((run_removes (deferred s) s)\<lparr>deferred := []\<rparr>))"
  by (simp add: run_deferred_def close_writers_def)

lemma stable_before_close_gzip:
  assumes st: "stable e P" and p: "P s"
  shows "P (close_archive e iid ((run_removes (deferred s) s)\<lparr>deferred := []\<rparr>))"
  using p
  by (intro stable_close_archive [OF st] stable_deferred [OF st] stable_run_removes [OF st])

subsection \<open>What a run adds to the archive, and the errors it ends with\<close>

lemma defer_RemoveAll_fields [simp]:
  "wMethod (defer_RemoveAll dir s) = wMethod s"
  "wProto11 (defer_RemoveAll dir s) = wProto11 s"
  "wHeader (defer_RemoveAll dir s) = wHeader s"
  "wStatus (defer_RemoveAll dir s) = wStatus s"
  "wzStarted (defer_RemoveAll dir s) = wzStarted s"
  "twOpen (defer_RemoveAll dir s) = twOpen s"
  "trace (defer_RemoveAll dir s) = trace s"
  "deferred (defer_RemoveAll dir s) = dir # deferred s"
  by (simp_all add: defer_RemoveAll_def)

lemma opt_list_simps [simp]: "opt_list None = []" "opt_list (Some x) = [x]"
  by (simp_all add: opt_list_def)

lemma append_image_run:
  "fst (append_image e i img s) = (image_error e (i, img) = None)
   \<and> archived (trace (snd (append_image e i img s))) =
       archived (trace s) @ image_chunks e (i, img)
   \<and> logged (trace (snd (append_image e i img s))) =
       logged (trace s) @ opt_list (image_error e (i, img))
   \<and> reported (trace (snd (append_image e i img s))) =
       reported (trace s) @ opt_list (image_error e (i, img))
   \<and> fetches (trace (snd (append_image e i img s))) = fetches (trace s)"
proof (cases "Pull e i img")
  case SrcRefErr
  then show ?thesis by (simp add: append_image_def image_file_def)
next
  case TempDirErr
  then show ?thesis by (simp add: append_image_def image_file_def)
next
  case (InDir tempDir sv)
  show ?thesis
  proof (cases sv)
    case (Saved content res)
    show ?thesis
      by (simp add: append_image_def image_file_def InDir Saved Let_def case_prod_unfold
          put_entry)
  qed (simp_all add: append_image_def image_file_def InDir Let_def)
qed

declare image_error.simps [simp del]

declare image_chunks.simps [simp del]

lemma stream_images_run:
  "fst (stream_images e i imgs s) = (first_error (image_error e) (enumerate i imgs) = None)
   \<and> archived (trace (snd (stream_images e i imgs s))) =
       archived (trace s)
       @ concat (map (image_chunks e) (reached (image_error e) (enumerate i imgs)))
   \<and> logged (trace (snd (stream_images e i imgs s))) =
       logged (trace s) @ opt_list (first_error (image_error e) (enumerate i imgs))
   \<and> reported (trace (snd (stream_images e i imgs s))) =
       reported (trace s) @ opt_list (first_error (image_error e) (enumerate i imgs))
   \<and> fetches (trace (snd (stream_images e i imgs s))) = fetches (trace s)"
proof (induction imgs arbitrary: i s)
  case Nil
  show ?case by simp
next
  case (Cons img imgs)
  show ?case
    unfolding stream_images_step
    by (cases "image_error e (i, img)") (simp_all add: append_image_run Cons.IH)
qed

lemma pipe_run:
  "fst (pipe e u s) = layer_error e u
   \<and> archived (trace (snd (pipe e u s))) = archived (trace s) @ layer_chunks e u
   \<and> logged (trace (snd (pipe e u s))) = logged (trace s)
   \<and> reported (trace (snd (pipe e u s))) = reported (trace s)
   \<and> fetches (trace (snd (pipe e u s))) = fetches (trace s) @ [u]"
  by (simp add: pipe_def layer_error_def layer_chunks_def layer_items_def Let_def
      pipe_entries_run pipe_entries_keeps split: get_result.splits layer_body.splits)

lemma stream_layers_run:
  "fst (stream_layers e iid us s) = (first_error (pipe_failure e iid) us = None)
   \<and> archived (trace (snd (stream_layers e iid us s))) =
       archived (trace s) @ concat (map (layer_chunks e) (reached (pipe_failure e iid) us))
   \<and> logged (trace (snd (stream_layers e iid us s))) =
       logged (trace s) @ opt_list (first_error (pipe_failure e iid) us)
   \<and> reported (trace (snd (stream_layers e iid us s))) =
       reported (trace s) @ opt_list (first_error (pipe_failure e iid) us)
   \<and> fetches (trace (snd (stream_layers e iid us s))) =
       fetches (trace s) @ reached (pipe_failure e iid) us"
proof (induction us arbitrary: s)
  case Nil
  show ?case by simp
next
  case (Cons u us)
  show ?case
    unfolding stream_layers_step
    by (cases "layer_error e u") (simp_all add: pipe_run Cons.IH pipe_failure_def)
qed

lemma stream_files_run:
  "fst (stream_files e iid kvs s) = (first_error (file_error e iid) kvs = None)
   \<and> archived (trace (snd (stream_files e iid kvs s))) =
       archived (trace s) @ concat (map (file_chunks e) (reached (file_error e iid) kvs))
   \<and> logged (trace (snd (stream_files e iid kvs s))) =
       logged (trace s) @ opt_list (first_error (file_error e iid) kvs)
   \<and> reported (trace (snd (stream_files e iid kvs s))) =
       reported (trace s) @ opt_list (first_error (file_error e iid) kvs)
   \<and> fetches (trace (snd (stream_files e iid kvs s))) = fetches (trace s)"
proof (induction kvs arbitrary: s)
  case Nil
  show ?case by simp
next
  case (Cons kv kvs)
  obtain p c where kv: "kv = (p, c)" by (cases kv)
  show ?case
    unfolding kv stream_files_step
    by (simp add: Cons.IH put_entry(2) del: file_ok.simps)
qed

lemma compose_run:
  "fst (compose e iid bm s) = (run_error e iid bm = None)
   \<and> archived (trace (snd (compose e iid bm s))) = archived (trace s) @ run_chunks e iid bm
   \<and> logged (trace (snd (compose e iid bm s))) = logged (trace s) @ opt_list (run_error e iid bm)
   \<and> reported (trace (snd (compose e iid bm s))) =
       reported (trace s) @ opt_list (run_error e iid bm)
   \<and> fetches (trace (snd (compose e iid bm s))) =
       fetches (trace s)
       @ (if images_error e bm = None then reached (pipe_failure e iid) (Layers bm) else [])"
  unfolding compose_unfold
  by (cases "images_error e bm"; cases "layers_error e iid bm")
    (simp_all add: stream_images_run stream_layers_run stream_files_run run_error_def
      run_chunks_def images_error_def [symmetric] layers_error_def [symmetric]
      files_error_def [symmetric])

lemma run_removes_fields [simp]:
  "wMethod (run_removes dirs s) = wMethod s"
  "wProto11 (run_removes dirs s) = wProto11 s"
  "wHeader (run_removes dirs s) = wHeader s"
  "wStatus (run_removes dirs s) = wStatus s"
  "wzStarted (run_removes dirs s) = wzStarted s"
  "deferred (run_removes dirs s) = deferred s"
  "trace (run_removes dirs s) = trace s @ map RemoveAll dirs"
  by (induction dirs arbitrary: s) simp_all

lemma obs_map_RemoveAll [simp]:
  "archived (map RemoveAll dirs) = []" "logged (map RemoveAll dirs) = []"
  "reported (map RemoveAll dirs) = []" "fetches (map RemoveAll dirs) = []"
  "probes (map RemoveAll dirs) = []" "pulls (map RemoveAll dirs) = []"
  "wire (map RemoveAll dirs) = []"
  by (induction dirs) simp_all

lemma run_deferred_run:
  "archived (trace (run_deferred e iid s)) = archived (trace s) @ closing e
   \<and> logged (trace (run_deferred e iid s)) = logged (trace s) @ close_errors e iid
   \<and> reported (trace (run_deferred e iid s)) = reported (trace s) @ close_errors e iid
   \<and> fetches (trace (run_deferred e iid s)) = fetches (trace s)"
  by (simp add: run_deferred_unfold close_gzip_def close_archive_def closing_def close_errors_def)

subsection \<open>The response while the archive is written\<close>

lemma frame_append [simp]: "frame (xs @ ys) = frame xs @ frame ys"
  by (induction xs rule: frame.induct) auto

lemma body_stream_event [simp]: "stream_event ev \<Longrightarrow> body (emit ev s) = body s"
  by (cases ev) (simp_all add: body_def)

lemma body_updates [simp]:
  "body (s\<lparr>deferred := d\<rparr>) = body s"
  "body (s\<lparr>twOpen := b\<rparr>) = body s"
  "body (s\<lparr>wzStarted := b\<rparr>) = body s"
  "body (s\<lparr>wHeader := h\<rparr>) = body s"
  by (simp_all add: body_def)

lemma body_gzip_header:
  "writable s \<Longrightarrow> body (gzip_header s) = body s @ (if wzStarted s then [] else [GzipHeader])"
  by (simp add: body_def gzip_header_trace)

lemma body_gzip_Write:
  "writable s \<Longrightarrow>
   body (gzip_Write e c s) =
     body s @ (if wzStarted s then [] else [GzipHeader])
     @ (if GzipOut e (archived (trace s) @ [c]) = 0 then []
        else [Deflate (GzipOut e (archived (trace s) @ [c]))])"
  by (simp add: gzip_Write_def Let_def body_def rw_Write_trace_writable gzip_header_trace)

lemma body_http_Error:
  "writable s \<Longrightarrow> bodyAllowedForStatus code \<Longrightarrow>
   body (http_Error msg code s) = body s @ [Plain (msg @ ''\<newline>'')]"
  by (auto simp: body_def http_Error_trace writable_def split: option.splits)

lemma writable_http_Error [simp]: "writable s \<Longrightarrow> writable (http_Error msg 500 s)"
  by (auto simp: writable_def split: option.splits)

lemma steady_wMethod: "steady e (\<lambda>s. wMethod s = m)"
  by (simp add: steady_def stable_def)

lemma steady_wProto11: "steady e (\<lambda>s. wProto11 s = b)"
  by (simp add: steady_def stable_def)

lemma steady_writable: "steady e writable"
  by (simp add: steady_def stable_def)

lemma steady_committed: "steady e (\<lambda>s. wStatus s = Some x)"
  by (simp add: steady_def stable_def)

lemma steady_probes: "steady e (\<lambda>s. probes (trace s) = ps)"
  by (auto simp: steady_def stable_def elim: stream_event.elims)


lemma steady_conj: "steady e P \<Longrightarrow> steady e Q \<Longrightarrow> steady e (\<lambda>s. P s \<and> Q s)"
  by (simp add: steady_def stable_def)

lemma stable_texts: "stable e (\<lambda>s. texts (body s) = ts)"
  by (auto simp: stable_def body_def gzip_header_def gzip_Write_def Let_def rw_Write_trace
      elim: stream_event.elims)

lemma stable_streaming: "stable e (streaming H)"
  by (auto simp: stable_def streaming_def body_gzip_header body_gzip_Write)

lemma steady_streaming: "steady e (\<lambda>s. streaming H s \<and> wzStarted s)"
  by (auto simp: steady_def stable_def streaming_def body_gzip_header body_gzip_Write
      body_http_Error)

lemma streaming_archive_WriteHeader:
  assumes "streaming H s"
  shows "streaming H (archive_WriteHeader e h s) \<and> wzStarted (archive_WriteHeader e h s)"
  using stable_archive_WriteHeader [OF stable_streaming assms] by simp

lemma texts_steps [simp]:
  "stream_event ev \<Longrightarrow> texts (body (emit ev s)) = texts (body s)"
  "texts (body (defer_RemoveAll dir s)) = texts (body s)"
  "texts (body (archive_WriteHeader e h s)) = texts (body s)"
  "texts (body (snd (archive_Write e d res s))) = texts (body s)"
  "texts (body (handleError err s)) = texts (body s)"
  "texts (body (rw_Write GzipEnd s)) = texts (body s)"
  "texts (body (gzip_header s)) = texts (body s)"
proof -
  note st = stable_texts [of e "texts (body s)"]
  show "stream_event ev \<Longrightarrow> texts (body (emit ev s)) = texts (body s)" by simp
  show "texts (body (defer_RemoveAll dir s)) = texts (body s)" by (simp add: body_def)
  show "texts (body (archive_WriteHeader e h s)) = texts (body s)"
    by (rule stable_archive_WriteHeader [OF st]) simp
  show "texts (body (snd (archive_Write e d res s))) = texts (body s)"
    by (rule stable_archive_Write [OF st]) simp
  show "texts (body (handleError err s)) = texts (body s)"
    by (rule stable_handleError [OF st]) simp
  show "texts (body (rw_Write GzipEnd s)) = texts (body s)"
    by (simp add: body_def rw_Write_trace)
  show "texts (body (gzip_header s)) = texts (body s)"
    by (rule stable_gzip_header [OF st]) simp
qed

lemma writable_defer_RemoveAll [simp]: "writable (defer_RemoveAll dir s) = writable s"
  by (simp add: defer_RemoveAll_def)

lemma texts_handleHttpError [simp]:
  "writable s \<Longrightarrow>
   texts (body (handleHttpError err 500 s)) = texts (body s) @ [''Internal Server Error\<newline>'']"
  by (simp add: handleHttpError_def body_http_Error StatusText_def)

lemma append_image_texts:
  assumes w: "writable s"
  shows "texts (body (snd (append_image e i img s))) =
     texts (body s) @
     (if image_error e (i, img) = None then [] else [''Internal Server Error\<newline>''])"
proof (cases "Pull e i img")
  case SrcRefErr
  then show ?thesis using w by (simp add: append_image_def image_error.simps)
next
  case TempDirErr
  then show ?thesis using w by (simp add: append_image_def image_error.simps)
next
  case (InDir tempDir sv)
  show ?thesis
  proof (cases sv)
    case (Saved content res)
    show ?thesis
      using w
      by (simp add: append_image_def image_error.simps InDir Saved Let_def case_prod_unfold
          put_entry(1))
  qed (use w in \<open>simp_all add: append_image_def image_error.simps InDir Let_def\<close>)
qed

lemma stream_images_texts:
  "writable s \<Longrightarrow>
   texts (body (snd (stream_images e i imgs s))) =
     texts (body s) @
     (if first_error (image_error e) (enumerate i imgs) = None then []
      else [''Internal Server Error\<newline>''])"
proof (induction imgs arbitrary: i s)
  case Nil
  show ?case by simp
next
  case (Cons img imgs)
  have w: "writable (snd (append_image e i img s))"
    using Cons.prems by (rule steady_append_image [OF steady_writable])
  show ?case
    unfolding stream_images_step
    by (cases "image_error e (i, img)")
      (simp_all add: append_image_run append_image_texts [OF Cons.prems] Cons.IH [OF w])
qed

lemma compose_texts:
  assumes w: "writable s"
  shows "texts (body (snd (compose e iid bm s))) =
     texts (body s) @
     (if images_error e bm = None then [] else [''Internal Server Error\<newline>''])"
proof -
  let ?s1 = "snd (stream_images e 0 (Images bm) s)"
  let ?s2 = "snd (stream_layers e iid (Layers bm) ?s1)"
  let ?s3 = "snd (stream_files e iid (RangeFiles e (Files bm)) ?s2)"
  have 1: "texts (body ?s1) = texts (body s) @
      (if images_error e bm = None then [] else [''Internal Server Error\<newline>''])"
    by (simp add: stream_images_texts [OF w] images_error_def)
  have 2: "texts (body ?s2) = texts (body ?s1)"
    by (rule stable_stream_layers [OF stable_texts]) simp
  have 3: "texts (body ?s3) = texts (body ?s2)"
    by (rule stable_stream_files [OF stable_texts]) simp
  show ?thesis
    unfolding compose_unfold
    by (simp add: 1 2 3 stream_images_run images_error_def [symmetric])
qed

lemma run_deferred_texts [simp]: "texts (body (run_deferred e iid s)) = texts (body s)"
proof -
  let ?s1 = "close_archive e iid ((run_removes (deferred s) s)\<lparr>deferred := []\<rparr>)"
  have "texts (body ?s1) = texts (body s)"
    by (rule stable_before_close_gzip [OF stable_texts]) simp
  then show ?thesis
    by (simp add: run_deferred_unfold close_gzip_def)
qed

lemma append_image_streaming:
  assumes s: "streaming H s" and f: "image_file e i img \<noteq> None \<or> wzStarted s"
  shows "streaming H (snd (append_image e i img s)) \<and> wzStarted (snd (append_image e i img s))"
proof (cases "wzStarted s")
  case True
  with s show ?thesis
    by (intro steady_append_image [OF steady_streaming]) simp
next
  case False
  with f obtain content res where fi: "image_file e i img = Some (content, res)" by auto
  then obtain tempDir where p: "Pull e i img = InDir tempDir (Saved content res)"
    by (auto simp: image_file_def split: pull_result.splits saved.splits)
  note sd = steady_streaming [of e H]
  note st = stable_streaming [of e H]
  define s2 where
    "s2 = emit (CopyImage img (filepath_Join [tempDir, ''temp-archive-image'']))
            (defer_RemoveAll tempDir (emit (TempDir tempDir) s))"
  define s4 where
    "s4 = snd (archive_Write e content res (archive_WriteHeader e (image_header e i content) s2))"
  have "streaming H s2"
    unfolding s2_def using s
    by (intro stable_emit [OF st] stable_defer_RemoveAll [OF st]) simp_all
  then have "streaming H (archive_WriteHeader e (image_header e i content) s2)
      \<and> wzStarted (archive_WriteHeader e (image_header e i content) s2)"
    by (rule streaming_archive_WriteHeader)
  then have 4: "streaming H s4 \<and> wzStarted s4"
    unfolding s4_def by (rule stable_archive_Write [OF steady_stable [OF sd]])
  then have 5: "\<And>err. streaming H (handleHttpError err 500 s4)
      \<and> wzStarted (handleHttpError err 500 s4)"
    by (rule steady_handleHttpError [OF sd])
  have 6: "streaming H (emit RuntimeGC (emit (RemoveAll tempDir) s4))
      \<and> wzStarted (emit RuntimeGC (emit (RemoveAll tempDir) s4))"
    using 4 by (intro stable_emit [OF steady_stable [OF sd]]) simp_all
  show ?thesis
    using 5 6
    by (simp add: append_image_def p Let_def case_prod_unfold s2_def [symmetric]
        s4_def [symmetric])
qed

lemma stream_images_streaming:
  assumes s: "streaming H s"
    and f: "wzStarted s \<or> (case imgs of [] \<Rightarrow> True | img # rest \<Rightarrow> image_file e i img \<noteq> None)"
  shows "streaming H (snd (stream_images e i imgs s))
     \<and> (imgs \<noteq> [] \<longrightarrow> wzStarted (snd (stream_images e i imgs s)))"
proof (cases imgs)
  case Nil
  with s show ?thesis by simp
next
  case (Cons img rest)
  have f': "image_file e i img \<noteq> None \<or> wzStarted s"
    using f Cons by auto
  have a: "streaming H (snd (append_image e i img s)) \<and> wzStarted (snd (append_image e i img s))"
    by (rule append_image_streaming [OF s f'])
  then have "streaming H (snd (stream_images e (Suc i) rest (snd (append_image e i img s))))
      \<and> wzStarted (snd (stream_images e (Suc i) rest (snd (append_image e i img s))))"
    by (rule steady_stream_images [OF steady_streaming])
  with a show ?thesis
    unfolding Cons stream_images_step by simp
qed

lemma compose_streaming:
  assumes s: "streaming H s" and e: "\<not> early_error e bm"
  shows "streaming H (snd (compose e iid bm s))
     \<and> (images_error e bm \<noteq> None \<longrightarrow> wzStarted (snd (compose e iid bm s)))"
proof -
  let ?s1 = "snd (stream_images e 0 (Images bm) s)"
  let ?s2 = "snd (stream_layers e iid (Layers bm) ?s1)"
  let ?s3 = "snd (stream_files e iid (RangeFiles e (Files bm)) ?s2)"
  have f: "wzStarted s \<or>
      (case Images bm of [] \<Rightarrow> True | img # rest \<Rightarrow> image_file e 0 img \<noteq> None)"
    using e by (simp add: early_error_def split: list.splits)
  note 1 = stream_images_streaming [OF s f]
  then have 2: "streaming H ?s2"
    by (intro stable_stream_layers [OF stable_streaming]) simp
  then have 3: "streaming H ?s3"
    by (rule stable_stream_files [OF stable_streaming])
  have n: "images_error e bm \<noteq> None \<Longrightarrow> Images bm \<noteq> []"
    by (auto simp: images_error_def)
  show ?thesis
    unfolding compose_unfold
    using 1 2 3 n by (auto simp: stream_images_run images_error_def [symmetric])
qed

lemma append_image_early:
  assumes f: "image_file e i img = None" and n: "wStatus s = None"
  shows "\<not> fst (append_image e i img s)
     \<and> wStatus (snd (append_image e i img s)) = Some (500, error_headers (wHeader s))"
proof (cases "Pull e i img")
  case SrcRefErr
  then show ?thesis using n by (simp add: append_image_def)
next
  case TempDirErr
  then show ?thesis using n by (simp add: append_image_def)
next
  case (InDir tempDir sv)
  with f have "\<forall>content res. sv \<noteq> Saved content res"
    by (auto simp: image_file_def)
  then show ?thesis
    using n by (cases sv) (simp_all add: append_image_def InDir Let_def)
qed

lemma compose_early:
  assumes e: "early_error e bm" and n: "wStatus s = None"
  shows "wStatus (snd (compose e iid bm s)) = Some (500, error_headers (wHeader s))"
proof -
  from e obtain img rest where i: "Images bm = img # rest" and f: "image_file e 0 img = None"
    by (auto simp: early_error_def split: list.splits)
  show ?thesis
    unfolding compose_unfold i stream_images_step
    using append_image_early [OF f n] by simp
qed

lemma close_archive_fields [simp]:
  "wMethod (close_archive e iid s) = wMethod s"
  "wProto11 (close_archive e iid s) = wProto11 s"
  "wzStarted (close_archive e iid s) = (wzStarted s \<or> ArchiveClose e)"
  by (simp_all add: close_archive_def)

lemma finish_streaming:
  assumes s: "streaming H s"
  shows "wStatus (finishRequest (run_deferred e iid s)) = Some (200, H)"
    and "frame (body (finishRequest (run_deferred e iid s))) =
       (if wzStarted s \<or> ArchiveClose e \<or> GzipClose e
        then GzipHeader # map Plain (texts (body s)) else [])
       @ (if GzipClose e then [GzipEnd] else [])"
proof -
  define s1 where "s1 = close_archive e iid ((run_removes (deferred s) s)\<lparr>deferred := []\<rparr>)"
  have 1: "streaming H s1"
    unfolding s1_def using s by (rule stable_before_close_gzip [OF stable_streaming])
  have t1: "texts (body s1) = texts (body s)"
    unfolding s1_def by (rule stable_before_close_gzip [OF stable_texts]) simp
  have z1: "wzStarted s1 = (wzStarted s \<or> ArchiveClose e)"
    by (simp add: s1_def)
  have r: "run_deferred e iid s = close_gzip e iid s1"
    by (simp add: run_deferred_unfold s1_def)
  have 2: "streaming H (gzip_header s1)" and z2: "wzStarted (gzip_header s1)"
    using 1 by (simp_all add: stable_gzip_header [OF stable_streaming])
  have w2: "writable (gzip_header s1)"
    using 2 by (simp add: streaming_def)
  have b2: "body (rw_Write GzipEnd (gzip_header s1)) = body (gzip_header s1) @ [GzipEnd]"
    by (simp add: body_def rw_Write_trace_writable [OF w2])
  have f2: "frame (body (gzip_header s1)) = GzipHeader # map Plain (texts (body s))"
    using 2 z2 t1 by (simp add: streaming_def)
  show "wStatus (finishRequest (run_deferred e iid s)) = Some (200, H)"
    using 1 2 z2 by (auto simp: r close_gzip_def streaming_def split: if_splits)
  show "frame (body (finishRequest (run_deferred e iid s))) =
       (if wzStarted s \<or> ArchiveClose e \<or> GzipClose e
        then GzipHeader # map Plain (texts (body s)) else [])
       @ (if GzipClose e then [GzipEnd] else [])"
  proof (cases "GzipClose e")
    case True
    have "body (finishRequest (rw_Write GzipEnd (gzip_header s1))) =
        body (gzip_header s1) @ [GzipEnd]"
      using b2 by (simp add: body_def)
    with True show ?thesis
      by (simp add: r close_gzip_def f2)
  next
    case False
    have "frame (body s1) =
        (if wzStarted s \<or> ArchiveClose e then GzipHeader # map Plain (texts (body s)) else [])"
      using 1 t1 z1 by (simp add: streaming_def split: if_splits)
    moreover have "body (finishRequest (handleError (ErrCloseGzip iid) s1)) = body s1"
      by (simp add: body_def)
    ultimately show ?thesis
      using False by (simp add: r close_gzip_def)
  qed
qed

subsection \<open>A request that passes the preflight checks\<close>

lemma stream_start_fields [simp]:
  "wMethod (stream_start e r bm) = Method r"
  "wProto11 (stream_start e r bm) = ProtoAtLeast11 r"
  "wStatus (stream_start e r bm) = None"
  "wHeader (stream_start e r bm) = download_headers Map.empty"
  "deferred (stream_start e r bm) = []"
  "trace (stream_start e r bm) =
     [LogPrintf (Method r) (URLPath r), ClientDo (installerURL r) (forwardHeader e r)]
     @ map HttpHead (Layers bm)"
  by (simp_all add: stream_start_def)

lemma new_writers_fields [simp]:
  "wMethod (new_writers s) = wMethod s"
  "wProto11 (new_writers s) = wProto11 s"
  "wStatus (new_writers s) = wStatus s"
  "wHeader (new_writers s) = wHeader s"
  "deferred (new_writers s) = deferred s"
  "trace (new_writers s) = trace s"
  "wzStarted (new_writers s) = False"
  "twOpen (new_writers s) = False"
  by (simp_all add: new_writers_def)

lemma serve_manifest_get:
  assumes p: "\<forall>u\<in>set (Layers bm). Head e u = HeadStatus 200"
    and a: "\<forall>img\<in>set (Images bm). allowRegistry e img"
    and nh: "Method r \<noteq> ''HEAD''"
  shows "serve_manifest e r bm (resolved_state e r) =
     run_deferred e (installerID r)
       (snd (compose e (installerID r) bm (new_writers (stream_start e r bm))))"
  using nh by (simp add: serve_manifest_pass [OF p a] stream_start_def)

lemma serve_stream:
  assumes m: "manifest_of e r = Some bm"
    and g: "Method r = ''GET''"
    and p: "\<forall>u\<in>set (Layers bm). Head e u = HeadStatus 200"
    and a: "\<forall>img\<in>set (Images bm). allowRegistry e img"
  shows "ServeHTTP e r =
     finishRequest (run_deferred e (installerID r)
       (snd (compose e (installerID r) bm (new_writers (stream_start e r bm)))))"
proof -
  from g have nh: "Method r \<noteq> ''HEAD''" by simp
  show ?thesis
    by (simp only: serve_via_manifest [OF m] serve_manifest_get [OF p a nh])
qed

lemma start_streaming:
  "Method r = ''GET'' \<Longrightarrow>
   streaming (download_headers Map.empty) (new_writers (stream_start e r bm))"
  by (simp add: streaming_def writable_def body_def)

text \<open>
  What a \<^verbatim>\<open>GET\<close> request that passes the preflight checks comes to: the archive, the
  errors logged and reported, the layers probed and fetched, the texts written to the
  response directly, the status and the headers committed, and the frame of the body.
\<close>

lemma serve_get:
  assumes m: "manifest_of e r = Some bm"
    and g: "Method r = ''GET''"
    and p: "\<forall>u\<in>set (Layers bm). Head e u = HeadStatus 200"
    and a: "\<forall>img\<in>set (Images bm). allowRegistry e img"
  shows "archive (ServeHTTP e r) = run_chunks e (installerID r) bm @ closing e"
    and "logged (trace (ServeHTTP e r)) =
       opt_list (run_error e (installerID r) bm) @ close_errors e (installerID r)"
    and "reported (trace (ServeHTTP e r)) =
       opt_list (run_error e (installerID r) bm) @ close_errors e (installerID r)"
    and "probes (trace (ServeHTTP e r)) = Layers bm"
    and "fetches (trace (ServeHTTP e r)) =
       (if images_error e bm = None then reached (pipe_failure e (installerID r)) (Layers bm)
        else [])"
    and "texts (body (ServeHTTP e r)) =
       (if images_error e bm = None then [] else [''Internal Server Error\<newline>''])"
    and "wStatus (ServeHTTP e r) =
       (if early_error e bm then Some (500, error_headers (download_headers Map.empty))
        else Some (200, download_headers Map.empty))"
    and "\<not> early_error e bm \<Longrightarrow> GzipClose e \<or> images_error e bm \<noteq> None \<Longrightarrow>
       frame (body (ServeHTTP e r)) =
         GzipHeader # map Plain (texts (body (ServeHTTP e r)))
         @ (if GzipClose e then [GzipEnd] else [])"
    and "wMethod (ServeHTTP e r) = ''GET''" and "wProto11 (ServeHTTP e r) = ProtoAtLeast11 r"
proof -
  let ?iid = "installerID r"
  let ?H = "download_headers Map.empty"
  define s0 where "s0 = new_writers (stream_start e r bm)"
  define s1 where "s1 = snd (compose e ?iid bm s0)"
  have sv: "ServeHTTP e r = finishRequest (run_deferred e ?iid s1)"
    unfolding s1_def s0_def by (rule serve_stream [OF m g p a])
  have st0: "streaming ?H s0"
    unfolding s0_def using g by (rule start_streaming)
  have w0: "writable s0"
    using st0 by (simp add: streaming_def)
  have t0: "texts (body s0) = []"
    by (simp add: s0_def body_def)
  show "archive (ServeHTTP e r) = run_chunks e ?iid bm @ closing e"
    by (simp add: archive_def sv run_deferred_run s1_def compose_run s0_def)
  show "logged (trace (ServeHTTP e r)) = opt_list (run_error e ?iid bm) @ close_errors e ?iid"
    by (simp add: sv run_deferred_run s1_def compose_run s0_def)
  show "reported (trace (ServeHTTP e r)) = opt_list (run_error e ?iid bm) @ close_errors e ?iid"
    by (simp add: sv run_deferred_run s1_def compose_run s0_def)
  show "fetches (trace (ServeHTTP e r)) =
       (if images_error e bm = None then reached (pipe_failure e ?iid) (Layers bm) else [])"
    by (simp add: sv run_deferred_run s1_def compose_run s0_def)
  have sd: "steady e (\<lambda>s. probes (trace s) = Layers bm)"
    by (rule steady_probes)
  have "probes (trace s1) = Layers bm"
    unfolding s1_def by (rule steady_compose [OF sd]) (simp add: s0_def)
  then have "probes (trace (close_archive e ?iid ((run_removes (deferred s1) s1)\<lparr>deferred := []\<rparr>)))
      = Layers bm"
    by (rule stable_before_close_gzip [OF steady_stable [OF sd]])
  then show "probes (trace (ServeHTTP e r)) = Layers bm"
    by (simp add: sv run_deferred_unfold close_gzip_def)
  have t1: "texts (body s1) =
      (if images_error e bm = None then [] else [''Internal Server Error\<newline>''])"
    by (simp add: s1_def compose_texts [OF w0] t0)
  have bf: "body (ServeHTTP e r) = body (run_deferred e ?iid s1)"
    by (simp add: sv body_def)
  show tx: "texts (body (ServeHTTP e r)) =
       (if images_error e bm = None then [] else [''Internal Server Error\<newline>''])"
    by (simp add: bf t1)
  show "wStatus (ServeHTTP e r) =
       (if early_error e bm then Some (500, error_headers ?H) else Some (200, ?H))"
  proof (cases "early_error e bm")
    case True
    have "wStatus s1 = Some (500, error_headers (wHeader s0))"
      unfolding s1_def by (rule compose_early [OF True]) (simp add: s0_def)
    then have "wStatus (close_archive e ?iid ((run_removes (deferred s1) s1)\<lparr>deferred := []\<rparr>))
        = Some (500, error_headers (wHeader s0))"
      by (rule stable_before_close_gzip [OF steady_stable [OF steady_committed]])
    then show ?thesis
      using True by (simp add: sv run_deferred_unfold close_gzip_def s0_def)
  next
    case False
    have "streaming ?H s1"
      unfolding s1_def using compose_streaming [OF st0 False] by simp
    from finish_streaming(1) [OF this] False show ?thesis
      by (simp add: sv)
  qed
  show "wMethod (ServeHTTP e r) = ''GET''"
  proof -
    have "wMethod s1 = ''GET''"
      unfolding s1_def by (rule steady_compose [OF steady_wMethod]) (simp add: s0_def g)
    then have "wMethod (close_archive e ?iid ((run_removes (deferred s1) s1)\<lparr>deferred := []\<rparr>))
        = ''GET''"
      by (rule stable_before_close_gzip [OF steady_stable [OF steady_wMethod]])
    then show ?thesis
      by (simp add: sv run_deferred_unfold close_gzip_def)
  qed
  show "wProto11 (ServeHTTP e r) = ProtoAtLeast11 r"
  proof -
    have "wProto11 s1 = ProtoAtLeast11 r"
      unfolding s1_def by (rule steady_compose [OF steady_wProto11]) (simp add: s0_def)
    then have "wProto11 (close_archive e ?iid ((run_removes (deferred s1) s1)\<lparr>deferred := []\<rparr>))
        = ProtoAtLeast11 r"
      by (rule stable_before_close_gzip [OF steady_stable [OF steady_wProto11]])
    then show ?thesis
      by (simp add: sv run_deferred_unfold close_gzip_def)
  qed
  {
    assume ne: "\<not> early_error e bm" and c: "GzipClose e \<or> images_error e bm \<noteq> None"
    have s1: "streaming ?H s1" and z: "images_error e bm \<noteq> None \<longrightarrow> wzStarted s1"
      unfolding s1_def using compose_streaming [OF st0 ne] by simp_all
    have "frame (body (ServeHTTP e r)) =
        (if wzStarted s1 \<or> ArchiveClose e \<or> GzipClose e
         then GzipHeader # map Plain (texts (body s1)) else [])
        @ (if GzipClose e then [GzipEnd] else [])"
      unfolding sv by (rule finish_streaming(2) [OF s1])
    then show "frame (body (ServeHTTP e r)) =
         GzipHeader # map Plain (texts (body (ServeHTTP e r)))
         @ (if GzipClose e then [GzipEnd] else [])"
      using c z by (auto simp: tx t1)
  }
qed




lemma installer_method [simp]:
  "var (r\<lparr>Method := m\<rparr>) k = var r k"
  "installerID (r\<lparr>Method := m\<rparr>) = installerID r"
  "installerURL (r\<lparr>Method := m\<rparr>) = installerURL r"
  "forwardHeader e (r\<lparr>Method := m\<rparr>) = forwardHeader e r"
proof -
  show v: "\<And>k. var (r\<lparr>Method := m\<rparr>) k = var r k"
    by (simp add: var_def)
  show i: "installerID (r\<lparr>Method := m\<rparr>) = installerID r"
    by (simp add: installerID_def v)
  show "installerURL (r\<lparr>Method := m\<rparr>) = installerURL r"
    by (simp add: installerURL_def v i Let_def)
  show "forwardHeader e (r\<lparr>Method := m\<rparr>) = forwardHeader e r"
    by (simp add: forwardHeader_def Let_def)
qed









lemma ex_request_Method [simp]: "Method (ex_request m) = m"
  by (simp add: ex_request_def)


subsection \<open>Requests with the method HEAD\<close>

lemma download_headers_get [simp]:
  "Header_Get (download_headers h) ''Transfer-Encoding'' = ''chunked''"
  "Header_Get (download_headers Map.empty) ''Content-Length'' = []"
  by (simp_all add: download_headers_def Header_Get_def Header_Set_def)

lemma cw_writeHeader_download:
  "cw_writeHeader m p 200 (download_headers Map.empty) =
     (if m \<noteq> ''HEAD'' \<and> p then download_headers Map.empty
      else Header_Del (download_headers Map.empty) ''Transfer-Encoding'')"
  by (simp add: cw_writeHeader_def suppressedHeaders_def Let_def)



lemma serve_get_headers:
  assumes m: "manifest_of e r = Some bm"
    and g: "Method r = ''GET''"
    and p: "\<forall>u\<in>set (Layers bm). Head e u = HeadStatus 200"
    and a: "\<forall>img\<in>set (Images bm). allowRegistry e img"
  shows "status (ServeHTTP e r) = Some (if early_error e bm then 500 else 200)"
    and "\<not> early_error e bm \<Longrightarrow>
       sent_headers (ServeHTTP e r) =
         Some (if ProtoAtLeast11 r then download_headers Map.empty
               else Header_Del (download_headers Map.empty) ''Transfer-Encoding'')"
  by (simp_all add: status_def sent_headers_def serve_get(7,9,10) [OF m g p a]
      cw_writeHeader_download)


lemma ex_fields [simp]:
  "Layers (ex_manifest ls fs is) = ls" "Images (ex_manifest ls fs is) = is"
  "Files (ex_manifest ls fs is) = map_of fs"
  by (simp_all add: ex_manifest_def)

lemma ex_env_pull [simp]:
  "Pull (ex_env bm fs) i ''docker.io/a'' = InDir ''/images/t0'' (Saved ''AAA'' IoOk)"
  "Pull (ex_env bm fs) i ''docker.io/b'' = InDir ''/images/t1'' CopyImageErr"
  by (simp_all add: ex_env_def)

lemma ex_env_image_file [simp]:
  "image_file (ex_env bm fs) i ''docker.io/a'' = Some (''AAA'', IoOk)"
  "image_file (ex_env bm fs) i ''docker.io/b'' = None"
  by (simp_all add: image_file_def)




subsection \<open>The order of the entries\<close>

lemma split_slash_ne: "split_slash n \<noteq> []"
  by (induction n) (auto split: list.splits)

lemma join_split: "join_slash (split_slash n) = n"
proof (induction n)
  case Nil
  then show ?case by simp
next
  case (Cons c n)
  obtain x xs where s: "split_slash n = x # xs"
    using split_slash_ne [of n] by (cases "split_slash n") auto
  show ?case
  proof (cases "c = CHR ''/''")
    case True
    with Cons s show ?thesis by simp
  next
    case False
    have "join_slash ((c # x) # xs) = c # join_slash (x # xs)"
      by (cases xs) simp_all
    with False Cons s show ?thesis by simp
  qed
qed

lemma Join_kurl_plain_path:
  assumes "plain_path n"
  shows "filepath_Join [''kurl'', n] = ''kurl/'' @ n"
proof -
  have ne: "split_slash n \<noteq> []" by (rule split_slash_ne)
  have pl: "\<forall>c\<in>set (split_slash n). plain_elem c"
    using assms by (simp add: plain_path_def list_all_iff)
  from Join_kurl_plain [OF ne pl] show ?thesis
    by (simp add: join_split)
qed

lemma first_error_None_iff: "first_error f xs = None \<longleftrightarrow> list_all (\<lambda>x. f x = None) xs"
  by (induction xs) (auto split: option.splits)

lemma reached_all: "first_error f xs = None \<Longrightarrow> reached f xs = xs"
  by (induction xs) (auto split: option.splits)

lemma reached_prefix: "prefix (reached f xs) xs"
  by (induction xs) (auto split: option.splits)


lemma headers_of_data_chunk [simp]: "headers_of (data_chunk d) = []"
  by (simp add: data_chunk_def)

lemma headers_of_put_chunks [simp]:
  "headers_of (put_chunks e h d res) = (if encodes e h then [h] else [])"
  by (simp add: put_chunks_def)

lemma headers_of_written [simp]:
  "headers_of (written e en) = (if encodes e (fst en) then [fst en] else [])"
  by (simp add: written_def chunks_of_def)






























subsection \<open>Errors while the archive is written\<close>

lemma first_error_split:
  assumes "list_all (\<lambda>x. f x = None) pre" and "f x = Some err"
  shows "first_error f (pre @ x # post) = Some err"
    and "reached f (pre @ x # post) = pre @ [x]"
  using assms by (induction pre) simp_all

lemma early_images_error: "early_error e bm \<Longrightarrow> images_error e bm \<noteq> None"
  by (auto simp: early_error_def images_error_def image_file_def image_error.simps
      split: list.splits pull_result.splits saved.splits)

lemma run_images_fail:
  assumes i: "Images bm = pre @ img # post"
    and ok: "list_all (\<lambda>x. image_error e x = None) (enumerate 0 pre)"
    and f: "image_error e (length pre, img) = Some err"
  shows "images_error e bm = Some err" and "run_error e iid bm = Some err"
    and "run_chunks e iid bm = concat (map (image_chunks e) (enumerate 0 (pre @ [img])))"
proof -
  have en: "enumerate 0 (Images bm) =
      enumerate 0 pre @ (length pre, img) # enumerate (Suc (length pre)) post"
    by (simp add: i enumerate_append_eq)
  show 1: "images_error e bm = Some err"
    unfolding images_error_def en using ok f by (rule first_error_split(1))
  then show "run_error e iid bm = Some err"
    by (simp add: run_error_def)
  have "reached (image_error e) (enumerate 0 (Images bm)) = enumerate 0 pre @ [(length pre, img)]"
    unfolding en using ok f by (rule first_error_split(2))
  then show "run_chunks e iid bm = concat (map (image_chunks e) (enumerate 0 (pre @ [img])))"
    by (simp add: run_chunks_def 1 enumerate_append_eq)
qed

lemma run_layers_fail:
  assumes io: "list_all (\<lambda>x. image_error e x = None) (enumerate 0 (Images bm))"
    and l: "Layers bm = pre @ u # post"
    and ok: "list_all (\<lambda>u. layer_error e u = None) pre"
    and f: "layer_error e u = Some perr"
  shows "images_error e bm = None" and "run_error e iid bm = Some (ErrPipe u iid perr)"
    and "run_chunks e iid bm =
      concat (map (image_chunks e) (enumerate 0 (Images bm)))
      @ concat (map (layer_chunks e) (pre @ [u]))"
proof -
  show 1: "images_error e bm = None"
    using io by (simp add: images_error_def first_error_None_iff)
  have ok': "list_all (\<lambda>u. pipe_failure e iid u = None) pre"
    using ok by (simp add: pipe_failure_def)
  have f': "pipe_failure e iid u = Some (ErrPipe u iid perr)"
    using f by (simp add: pipe_failure_def)
  have 2: "layers_error e iid bm = Some (ErrPipe u iid perr)"
    unfolding layers_error_def l using ok' f' by (rule first_error_split(1))
  show "run_error e iid bm = Some (ErrPipe u iid perr)"
    by (simp add: run_error_def 1 2)
  have r: "reached (pipe_failure e iid) (Layers bm) = pre @ [u]"
    unfolding l using ok' f' by (rule first_error_split(2))
  have ri: "reached (image_error e) (enumerate 0 (Images bm)) = enumerate 0 (Images bm)"
    using 1 by (simp add: images_error_def reached_all)
  show "run_chunks e iid bm =
      concat (map (image_chunks e) (enumerate 0 (Images bm)))
      @ concat (map (layer_chunks e) (pre @ [u]))"
    by (simp add: run_chunks_def 1 2 r ri)
qed

lemma run_files_fail:
  assumes io: "list_all (\<lambda>x. image_error e x = None) (enumerate 0 (Images bm))"
    and lo: "list_all (\<lambda>u. layer_error e u = None) (Layers bm)"
    and l: "RangeFiles e (Files bm) = pre @ (p, c) # post"
    and ok: "list_all (file_ok e) pre"
    and f: "\<not> file_ok e (p, c)"
  shows "images_error e bm = None" and "run_error e iid bm = Some (ErrWriteFile p iid)"
    and "run_chunks e iid bm =
      concat (map (image_chunks e) (enumerate 0 (Images bm)))
      @ concat (map (layer_chunks e) (Layers bm))
      @ concat (map (file_chunks e) (pre @ [(p, c)]))"
proof -
  show 1: "images_error e bm = None"
    using io by (simp add: images_error_def first_error_None_iff)
  have 2: "layers_error e iid bm = None"
    using lo by (simp add: layers_error_def first_error_None_iff pipe_failure_def)
  have ok': "list_all (\<lambda>x. file_error e iid x = None) pre"
    using ok by (simp add: list_all_iff split_def del: file_ok.simps) (auto simp del: file_ok.simps)
  have f': "file_error e iid (p, c) = Some (ErrWriteFile p iid)"
    using f by (simp del: file_ok.simps)
  have 3: "files_error e iid bm = Some (ErrWriteFile p iid)"
    unfolding files_error_def l using ok' f' by (rule first_error_split(1))
  show "run_error e iid bm = Some (ErrWriteFile p iid)"
    by (simp add: run_error_def 1 2 3)
  have r: "reached (file_error e iid) (RangeFiles e (Files bm)) = pre @ [(p, c)]"
    unfolding l using ok' f' by (rule first_error_split(2))
  have ri: "reached (image_error e) (enumerate 0 (Images bm)) = enumerate 0 (Images bm)"
    using 1 by (simp add: images_error_def reached_all)
  have rl: "reached (pipe_failure e iid) (Layers bm) = Layers bm"
    using 2 by (simp add: layers_error_def reached_all)
  show "run_chunks e iid bm =
      concat (map (image_chunks e) (enumerate 0 (Images bm)))
      @ concat (map (layer_chunks e) (Layers bm))
      @ concat (map (file_chunks e) (pre @ [(p, c)]))"
    by (simp add: run_chunks_def 1 2 r ri rl)
qed

text \<open>
  C2 (as amended). Take a \<^verbatim>\<open>GET\<close> request that has passed the preflight checks, and the
  first step of the streaming that fails: every image before it, and then every layer
  and every file before it, goes through without error. The response is committed with
  status 200 and the download headers, and stays so. The error is logged and reported,
  and nothing else is except a failure to close the archive or the gzip stream. The
  archive ends with what the failing step has written, followed by the end-of-archive
  marker if the archive can be closed; no later image, layer or file is written. When
  the failing step is a layer transfer or the write of a file, nothing but the gzip
  stream is written to the response body. When it is an image, and the response is
  committed before the error (the archive file of the first image has been saved), the
  text of status 500 is written to the response body as well, directly and not through
  the gzip writer, so that it is the only plain text between the gzip header and the
  end of the gzip stream.
\<close>

theorem midstream_error_keeps_status:
  assumes m: "manifest_of e r = Some bm"
    and g: "Method r = ''GET''"
    and p: "\<forall>u\<in>set (Layers bm). Head e u = HeadStatus 200"
    and a: "\<forall>img\<in>set (Images bm). allowRegistry e img"
  shows "(\<forall>pre img post err.
            Images bm = pre @ img # post \<longrightarrow>
            list_all (\<lambda>x. image_error e x = None) (enumerate 0 pre) \<longrightarrow>
            image_error e (length pre, img) = Some err \<longrightarrow>
            \<not> early_error e bm \<longrightarrow>
            status (ServeHTTP e r) = Some 200
            \<and> sent_headers (ServeHTTP e r) =
                Some (if ProtoAtLeast11 r then download_headers Map.empty
                      else Header_Del (download_headers Map.empty) ''Transfer-Encoding'')
            \<and> logged (trace (ServeHTTP e r)) = err # close_errors e (installerID r)
            \<and> reported (trace (ServeHTTP e r)) = err # close_errors e (installerID r)
            \<and> archive (ServeHTTP e r) =
                concat (map (image_chunks e) (enumerate 0 (pre @ [img]))) @ closing e
            \<and> fetches (trace (ServeHTTP e r)) = []
            \<and> texts (body (ServeHTTP e r)) = [''Internal Server Error\<newline>'']
            \<and> frame (body (ServeHTTP e r)) =
                GzipHeader # Plain ''Internal Server Error\<newline>''
                # (if GzipClose e then [GzipEnd] else []))
     \<and> (\<forall>pre u post perr.
            list_all (\<lambda>x. image_error e x = None) (enumerate 0 (Images bm)) \<longrightarrow>
            Layers bm = pre @ u # post \<longrightarrow>
            list_all (\<lambda>u. layer_error e u = None) pre \<longrightarrow>
            layer_error e u = Some perr \<longrightarrow>
            status (ServeHTTP e r) = Some 200
            \<and> sent_headers (ServeHTTP e r) =
                Some (if ProtoAtLeast11 r then download_headers Map.empty
                      else Header_Del (download_headers Map.empty) ''Transfer-Encoding'')
            \<and> logged (trace (ServeHTTP e r)) =
                ErrPipe u (installerID r) perr # close_errors e (installerID r)
            \<and> reported (trace (ServeHTTP e r)) =
                ErrPipe u (installerID r) perr # close_errors e (installerID r)
            \<and> archive (ServeHTTP e r) =
                concat (map (image_chunks e) (enumerate 0 (Images bm)))
                @ concat (map (layer_chunks e) (pre @ [u])) @ closing e
            \<and> fetches (trace (ServeHTTP e r)) = pre @ [u]
            \<and> texts (body (ServeHTTP e r)) = []
            \<and> (GzipClose e \<longrightarrow> frame (body (ServeHTTP e r)) = [GzipHeader, GzipEnd]))
     \<and> (\<forall>pre path content post.
            list_all (\<lambda>x. image_error e x = None) (enumerate 0 (Images bm)) \<longrightarrow>
            list_all (\<lambda>u. layer_error e u = None) (Layers bm) \<longrightarrow>
            RangeFiles e (Files bm) = pre @ (path, content) # post \<longrightarrow>
            list_all (file_ok e) pre \<longrightarrow>
            \<not> file_ok e (path, content) \<longrightarrow>
            status (ServeHTTP e r) = Some 200
            \<and> sent_headers (ServeHTTP e r) =
                Some (if ProtoAtLeast11 r then download_headers Map.empty
                      else Header_Del (download_headers Map.empty) ''Transfer-Encoding'')
            \<and> logged (trace (ServeHTTP e r)) =
                ErrWriteFile path (installerID r) # close_errors e (installerID r)
            \<and> reported (trace (ServeHTTP e r)) =
                ErrWriteFile path (installerID r) # close_errors e (installerID r)
            \<and> archive (ServeHTTP e r) =
                concat (map (image_chunks e) (enumerate 0 (Images bm)))
                @ concat (map (layer_chunks e) (Layers bm))
                @ concat (map (file_chunks e) (pre @ [(path, content)])) @ closing e
            \<and> fetches (trace (ServeHTTP e r)) = Layers bm
            \<and> texts (body (ServeHTTP e r)) = []
            \<and> (GzipClose e \<longrightarrow> frame (body (ServeHTTP e r)) = [GzipHeader, GzipEnd]))"
proof (intro conjI allI impI)
  note S = serve_get [OF m g p a]
  note H = serve_get_headers [OF m g p a]
  {
    fix pre img post err
    assume i: "Images bm = pre @ img # post"
      and ok: "list_all (\<lambda>x. image_error e x = None) (enumerate 0 pre)"
      and f: "image_error e (length pre, img) = Some err"
      and ne: "\<not> early_error e bm"
    note R = run_images_fail [OF i ok f]
    show "status (ServeHTTP e r) = Some 200"
      using H(1) ne by simp
    show "sent_headers (ServeHTTP e r) =
        Some (if ProtoAtLeast11 r then download_headers Map.empty
              else Header_Del (download_headers Map.empty) ''Transfer-Encoding'')"
      using ne by (rule H(2))
    show "logged (trace (ServeHTTP e r)) = err # close_errors e (installerID r)"
      by (simp add: S(2) R(2) opt_list_def)
    show "reported (trace (ServeHTTP e r)) = err # close_errors e (installerID r)"
      by (simp add: S(3) R(2) opt_list_def)
    show "archive (ServeHTTP e r) =
        concat (map (image_chunks e) (enumerate 0 (pre @ [img]))) @ closing e"
      by (simp only: S(1) R(3))
    show "fetches (trace (ServeHTTP e r)) = []"
      by (simp add: S(5) R(1))
    show t: "texts (body (ServeHTTP e r)) = [''Internal Server Error\<newline>'']"
      by (simp add: S(6) R(1))
    show "frame (body (ServeHTTP e r)) =
        GzipHeader # Plain ''Internal Server Error\<newline>''
        # (if GzipClose e then [GzipEnd] else [])"
      using S(8) [OF ne] by (simp add: R(1) t)
  }
  {
    fix pre u post perr
    assume io: "list_all (\<lambda>x. image_error e x = None) (enumerate 0 (Images bm))"
      and l: "Layers bm = pre @ u # post"
      and ok: "list_all (\<lambda>u. layer_error e u = None) pre"
      and f: "layer_error e u = Some perr"
    note R = run_layers_fail [OF io l ok f]
    have ne: "\<not> early_error e bm"
      using early_images_error [of e bm] R(1) by blast
    have ok': "list_all (\<lambda>u. pipe_failure e (installerID r) u = None) pre"
      using ok by (simp add: pipe_failure_def)
    have f': "pipe_failure e (installerID r) u = Some (ErrPipe u (installerID r) perr)"
      using f by (simp add: pipe_failure_def)
    have re: "reached (pipe_failure e (installerID r)) (Layers bm) = pre @ [u]"
      unfolding l using ok' f' by (rule first_error_split(2))
    show "status (ServeHTTP e r) = Some 200"
      using H(1) ne by simp
    show "sent_headers (ServeHTTP e r) =
        Some (if ProtoAtLeast11 r then download_headers Map.empty
              else Header_Del (download_headers Map.empty) ''Transfer-Encoding'')"
      using ne by (rule H(2))
    show "logged (trace (ServeHTTP e r)) =
        ErrPipe u (installerID r) perr # close_errors e (installerID r)"
      by (simp add: S(2) R(2) opt_list_def)
    show "reported (trace (ServeHTTP e r)) =
        ErrPipe u (installerID r) perr # close_errors e (installerID r)"
      by (simp add: S(3) R(2) opt_list_def)
    show "archive (ServeHTTP e r) =
        concat (map (image_chunks e) (enumerate 0 (Images bm)))
        @ concat (map (layer_chunks e) (pre @ [u])) @ closing e"
      by (simp only: S(1) R(3) append_assoc)
    show "fetches (trace (ServeHTTP e r)) = pre @ [u]"
      by (simp add: S(5) R(1) re)
    show t: "texts (body (ServeHTTP e r)) = []"
      by (simp add: S(6) R(1))
    {
      assume c: "GzipClose e"
      show "frame (body (ServeHTTP e r)) = [GzipHeader, GzipEnd]"
        using S(8) [OF ne] c by (simp add: t)
    }
  }
  {
    fix pre path content post
    assume io: "list_all (\<lambda>x. image_error e x = None) (enumerate 0 (Images bm))"
      and lo: "list_all (\<lambda>u. layer_error e u = None) (Layers bm)"
      and l: "RangeFiles e (Files bm) = pre @ (path, content) # post"
      and ok: "list_all (file_ok e) pre"
      and f: "\<not> file_ok e (path, content)"
    note R = run_files_fail [OF io lo l ok f]
    have ne: "\<not> early_error e bm"
      using early_images_error [of e bm] R(1) by blast
    have "layers_error e (installerID r) bm = None"
      using lo by (simp add: layers_error_def first_error_None_iff pipe_failure_def)
    then have re: "reached (pipe_failure e (installerID r)) (Layers bm) = Layers bm"
      by (simp add: layers_error_def reached_all)
    show "status (ServeHTTP e r) = Some 200"
      using H(1) ne by simp
    show "sent_headers (ServeHTTP e r) =
        Some (if ProtoAtLeast11 r then download_headers Map.empty
              else Header_Del (download_headers Map.empty) ''Transfer-Encoding'')"
      using ne by (rule H(2))
    show "logged (trace (ServeHTTP e r)) =
        ErrWriteFile path (installerID r) # close_errors e (installerID r)"
      by (simp add: S(2) R(2) opt_list_def)
    show "reported (trace (ServeHTTP e r)) =
        ErrWriteFile path (installerID r) # close_errors e (installerID r)"
      by (simp add: S(3) R(2) opt_list_def)
    show "archive (ServeHTTP e r) =
        concat (map (image_chunks e) (enumerate 0 (Images bm)))
        @ concat (map (layer_chunks e) (Layers bm))
        @ concat (map (file_chunks e) (pre @ [(path, content)])) @ closing e"
      by (simp only: S(1) R(3) append_assoc)
    show "fetches (trace (ServeHTTP e r)) = Layers bm"
      by (simp add: S(5) R(1) re)
    show t: "texts (body (ServeHTTP e r)) = []"
      by (simp add: S(6) R(1))
    {
      assume c: "GzipClose e"
      show "frame (body (ServeHTTP e r)) = [GzipHeader, GzipEnd]"
        using S(8) [OF ne] c by (simp add: t)
    }
  }
qed

text \<open>
  A gzip writer that keeps all compressed data until it is closed: the body then holds
  nothing but its frame.
\<close>

lemma quiet_steady:
  assumes q: "\<forall>cs. GzipOut e cs = 0"
  shows "steady e (\<lambda>s. writable s \<and> frame (body s) = body s)"
  using q
  by (auto simp: steady_def stable_def body_gzip_header body_gzip_Write body_http_Error
      bodyAllowedForStatus_def)

lemma serve_quiet:
  assumes m: "manifest_of e r = Some bm"
    and g: "Method r = ''GET''"
    and p: "\<forall>u\<in>set (Layers bm). Head e u = HeadStatus 200"
    and a: "\<forall>img\<in>set (Images bm). allowRegistry e img"
    and q: "\<forall>cs. GzipOut e cs = 0"
  shows "body (ServeHTTP e r) = frame (body (ServeHTTP e r))"
proof -
  let ?P = "\<lambda>s. writable s \<and> frame (body s) = body s"
  let ?iid = "installerID r"
  define s0 where "s0 = new_writers (stream_start e r bm)"
  define s1 where "s1 = snd (compose e ?iid bm s0)"
  define s2 where "s2 = close_archive e ?iid ((run_removes (deferred s1) s1)\<lparr>deferred := []\<rparr>)"
  note sd = quiet_steady [OF q]
  have sv: "ServeHTTP e r = finishRequest (close_gzip e ?iid s2)"
    unfolding s2_def s1_def s0_def
    by (simp only: serve_stream [OF m g p a] run_deferred_unfold)
  have "streaming (download_headers Map.empty) s0"
    unfolding s0_def using g by (rule start_streaming)
  moreover have "\<not> wzStarted s0"
    by (simp add: s0_def)
  ultimately have "?P s0"
    by (simp add: streaming_def)
  then have "?P s1"
    unfolding s1_def by (rule steady_compose [OF sd])
  then have 2: "?P s2"
    unfolding s2_def by (rule stable_before_close_gzip [OF steady_stable [OF sd]])
  then have 3: "?P (gzip_header s2)"
    by (rule stable_gzip_header [OF steady_stable [OF sd]])
  then have "body (rw_Write GzipEnd (gzip_header s2)) = body (gzip_header s2) @ [GzipEnd]"
    by (simp add: body_def rw_Write_trace_writable)
  with 3 have "frame (body (rw_Write GzipEnd (gzip_header s2))) =
      body (rw_Write GzipEnd (gzip_header s2))"
    by simp
  moreover have "body (handleError (ErrCloseGzip ?iid) s2) = body s2"
    by (simp add: body_def)
  ultimately have "frame (body (close_gzip e ?iid s2)) = body (close_gzip e ?iid s2)"
    using 2 by (simp add: close_gzip_def)
  then show ?thesis
    by (simp add: sv body_def)
qed

lemma ex_two_facts:
  "manifest_of ex_env_two (ex_request ''GET'') = Some ex_two"
  "\<forall>u\<in>set (Layers ex_two). Head ex_env_two u = HeadStatus 200"
  "\<forall>img\<in>set (Images ex_two). allowRegistry ex_env_two img"
  "Images ex_two = [''docker.io/a''] @ ''docker.io/b'' # []"
  "image_error ex_env_two (0, ''docker.io/a'') = None"
  "image_error ex_env_two (1, ''docker.io/b'') = Some (ErrSaveImage ''docker.io/b'')"
  "\<not> early_error ex_env_two ex_two"
  "image_chunks ex_env_two (0, ''docker.io/a'') =
     [TarHeader \<lparr>Name = ''kurl/image-overrides/0.tar'', Size = 3, Mode = 420, ModTime = 7,
                  Other = 0\<rparr>,
      TarData ''AAA'']"
  "image_chunks ex_env_two (Suc 0, ''docker.io/b'') = []"
  "closing ex_env_two = [TarEnd]"
  "close_errors ex_env_two iid = []"
  "GzipClose ex_env_two"
proof -
  have h: "image_header ex_env_two 0 ''AAA'' =
      \<lparr>Name = ''kurl/image-overrides/0.tar'', Size = 3, Mode = 420, ModTime = 7, Other = 0\<rparr>"
    by (simp add: image_header_def show_nat.simps ex_env_two_def ex_env_def)
  have c: "encodes ex_env_two
      \<lparr>Name = ''kurl/image-overrides/0.tar'', Size = 3, Mode = 420, ModTime = 7, Other = 0\<rparr>"
    by (simp add: ex_env_two_def ex_env_oracles)
  have pa: "\<And>i. Pull ex_env_two i ''docker.io/a'' = InDir ''/images/t0'' (Saved ''AAA'' IoOk)"
    and pb: "\<And>i. Pull ex_env_two i ''docker.io/b'' = InDir ''/images/t1'' CopyImageErr"
    by (simp_all add: ex_env_two_def)
  show "manifest_of ex_env_two (ex_request ''GET'') = Some ex_two"
    by (simp add: ex_env_two_def ex_env_manifest)
  show "\<forall>u\<in>set (Layers ex_two). Head ex_env_two u = HeadStatus 200"
    by (simp add: ex_two_def)
  show "\<forall>img\<in>set (Images ex_two). allowRegistry ex_env_two img"
    by (simp add: ex_two_def ex_env_two_def ex_env_allow)
  show "Images ex_two = [''docker.io/a''] @ ''docker.io/b'' # []"
    by (simp add: ex_two_def)
  show "image_error ex_env_two (0, ''docker.io/a'') = None"
    by (simp add: image_error.simps pa h put_ok_def c)
  show "image_error ex_env_two (1, ''docker.io/b'') = Some (ErrSaveImage ''docker.io/b'')"
    by (simp add: image_error.simps pb)
  show "\<not> early_error ex_env_two ex_two"
    by (simp add: early_error_def ex_two_def ex_env_two_def)
  show "image_chunks ex_env_two (0, ''docker.io/a'') =
     [TarHeader \<lparr>Name = ''kurl/image-overrides/0.tar'', Size = 3, Mode = 420, ModTime = 7,
                  Other = 0\<rparr>,
      TarData ''AAA'']"
    by (simp add: image_chunks.simps image_file_def pa h c put_chunks_def data_chunk_def)
  show "image_chunks ex_env_two (Suc 0, ''docker.io/b'') = []"
    by (simp add: image_chunks.simps image_file_def pb)
  show "closing ex_env_two = [TarEnd]" "close_errors ex_env_two iid = []" "GzipClose ex_env_two"
    by (simp_all add: closing_def close_errors_def ex_env_two_def ex_env_def)
qed

lemma ex_good_headers:
  "image_header (ex_env bm fs) 0 ''AAA'' =
     \<lparr>Name = ''kurl/image-overrides/0.tar'', Size = 3, Mode = 420, ModTime = 7, Other = 0\<rparr>"
  "reroot \<lparr>Name = ''foo/bar.txt'', Size = sz, Mode = md, ModTime = mt, Other = ot\<rparr> =
     \<lparr>Name = ''kurl/foo/bar.txt'', Size = sz, Mode = md, ModTime = mt, Other = ot\<rparr>"
  "file_header (ex_env bm fs) ''a'' ''x'' =
     \<lparr>Name = ''a'', Size = 1, Mode = 420, ModTime = 7, Other = 0\<rparr>"
proof -
  have j: "filepath_Join [''kurl'', ''foo/bar.txt''] = ''kurl/foo/bar.txt''"
    by (simp add: Join_kurl_plain_path plain_path_def plain_elem_def)
  show "image_header (ex_env bm fs) 0 ''AAA'' =
     \<lparr>Name = ''kurl/image-overrides/0.tar'', Size = 3, Mode = 420, ModTime = 7, Other = 0\<rparr>"
    by (simp add: image_header_def show_nat.simps) (simp add: ex_env_def)
  show "reroot \<lparr>Name = ''foo/bar.txt'', Size = sz, Mode = md, ModTime = mt, Other = ot\<rparr> =
     \<lparr>Name = ''kurl/foo/bar.txt'', Size = sz, Mode = md, ModTime = mt, Other = ot\<rparr>"
    by (simp add: reroot_def j)
  show "file_header (ex_env bm fs) ''a'' ''x'' =
     \<lparr>Name = ''a'', Size = 1, Mode = 420, ModTime = 7, Other = 0\<rparr>"
    by (simp add: file_header_def) (simp add: ex_env_def)
qed

lemma ex_layer_down_facts:
  "manifest_of ex_env_layer_down (ex_request ''GET'') = Some ex_good"
  "\<forall>u\<in>set (Layers ex_good). Head ex_env_layer_down u = HeadStatus 200"
  "\<forall>img\<in>set (Images ex_good). allowRegistry ex_env_layer_down img"
  "list_all (\<lambda>x. image_error ex_env_layer_down x = None) (enumerate 0 (Images ex_good))"
  "Layers ex_good = [] @ ''http://ok/l.tgz'' # []"
  "Get ex_env_layer_down ''http://ok/l.tgz'' = GetResp 503 GunzipErr"
  "layer_error ex_env_layer_down ''http://ok/l.tgz'' = Some (PipeStatus 503)"
  "concat (map (image_chunks ex_env_layer_down) (enumerate 0 (Images ex_good))) =
     [TarHeader \<lparr>Name = ''kurl/image-overrides/0.tar'', Size = 3, Mode = 420, ModTime = 7,
                  Other = 0\<rparr>,
      TarData ''AAA'']"
  "layer_chunks ex_env_layer_down ''http://ok/l.tgz'' = []"
  "closing ex_env_layer_down = [TarEnd]"
  "close_errors ex_env_layer_down iid = []"
  "GzipClose ex_env_layer_down"
proof -
  have f: "\<And>i img. Pull ex_env_layer_down i img = Pull (ex_env ex_good [(''a'', ''x'')]) i img"
    "\<And>h. encodes ex_env_layer_down h = encodes (ex_env ex_good [(''a'', ''x'')]) h"
    "\<And>i c. image_header ex_env_layer_down i c = image_header (ex_env ex_good [(''a'', ''x'')]) i c"
    "\<And>img. allowRegistry ex_env_layer_down img = allowRegistry (ex_env ex_good [(''a'', ''x'')]) img"
    "\<And>u. Head ex_env_layer_down u = Head (ex_env ex_good [(''a'', ''x'')]) u"
    by (simp_all add: ex_env_layer_down_def ex_env_good_def encodes_def image_header_def
        allowRegistry_def cong: option.case_cong)
  have i: "Images ex_good = [''docker.io/a'']"
    by (simp add: ex_good_def)
  show "manifest_of ex_env_layer_down (ex_request ''GET'') = Some ex_good"
    by (auto simp: manifest_of_def resolve_def ex_env_layer_down_def ex_env_good_def ex_env_def
        ex_request_def Let_def)
  show "\<forall>u\<in>set (Layers ex_good). Head ex_env_layer_down u = HeadStatus 200"
    by (simp add: ex_good_def f ex_env_head)
  show "\<forall>img\<in>set (Images ex_good). allowRegistry ex_env_layer_down img"
    by (simp add: i f ex_env_allow)
  show "list_all (\<lambda>x. image_error ex_env_layer_down x = None) (enumerate 0 (Images ex_good))"
    by (simp add: i image_error.simps f ex_good_headers put_ok_def ex_env_oracles)
  show "Layers ex_good = [] @ ''http://ok/l.tgz'' # []"
    by (simp add: ex_good_def)
  show g: "Get ex_env_layer_down ''http://ok/l.tgz'' = GetResp 503 GunzipErr"
    by (simp add: ex_env_layer_down_def)
  show "layer_error ex_env_layer_down ''http://ok/l.tgz'' = Some (PipeStatus 503)"
    by (simp add: layer_error_def g)
  show "concat (map (image_chunks ex_env_layer_down) (enumerate 0 (Images ex_good))) =
     [TarHeader \<lparr>Name = ''kurl/image-overrides/0.tar'', Size = 3, Mode = 420, ModTime = 7,
                  Other = 0\<rparr>,
      TarData ''AAA'']"
    by (simp add: i image_chunks.simps image_file_def f ex_good_headers put_chunks_def
        ex_env_oracles data_chunk_def)
  show "layer_chunks ex_env_layer_down ''http://ok/l.tgz'' = []"
    by (simp add: layer_chunks_def layer_items_def g)
  show "closing ex_env_layer_down = [TarEnd]" "close_errors ex_env_layer_down iid = []"
    "GzipClose ex_env_layer_down"
    by (simp_all add: closing_def close_errors_def ex_env_layer_down_def ex_env_good_def
        ex_env_def)
qed

lemma ex_file_fails_facts:
  "manifest_of ex_env_file_fails (ex_request ''GET'') = Some ex_good"
  "\<forall>u\<in>set (Layers ex_good). Head ex_env_file_fails u = HeadStatus 200"
  "\<forall>img\<in>set (Images ex_good). allowRegistry ex_env_file_fails img"
  "list_all (\<lambda>x. image_error ex_env_file_fails x = None) (enumerate 0 (Images ex_good))"
  "list_all (\<lambda>u. layer_error ex_env_file_fails u = None) (Layers ex_good)"
  "RangeFiles ex_env_file_fails (Files ex_good) = [] @ (''a'', ''x'') # []"
  "WriteFile ex_env_file_fails ''a'' = IoErr 0"
  "\<not> file_ok ex_env_file_fails (''a'', ''x'')"
  "concat (map (image_chunks ex_env_file_fails) (enumerate 0 (Images ex_good))) =
     [TarHeader \<lparr>Name = ''kurl/image-overrides/0.tar'', Size = 3, Mode = 420, ModTime = 7,
                  Other = 0\<rparr>,
      TarData ''AAA'']"
  "concat (map (layer_chunks ex_env_file_fails) (Layers ex_good)) =
     [TarHeader \<lparr>Name = ''kurl/foo/bar.txt'', Size = 2, Mode = 420, ModTime = 5, Other = 1\<rparr>,
      TarData ''hi'']"
  "file_chunks ex_env_file_fails (''a'', ''x'') =
     [TarHeader \<lparr>Name = ''a'', Size = 1, Mode = 420, ModTime = 7, Other = 0\<rparr>]"
  "closing ex_env_file_fails = []"
  "close_errors ex_env_file_fails iid = [ErrCloseArchive iid]"
  "GzipClose ex_env_file_fails"
proof -
  have f: "\<And>i img. Pull ex_env_file_fails i img = Pull (ex_env ex_good [(''a'', ''x'')]) i img"
    "\<And>h. encodes ex_env_file_fails h = encodes (ex_env ex_good [(''a'', ''x'')]) h"
    "\<And>i c. image_header ex_env_file_fails i c = image_header (ex_env ex_good [(''a'', ''x'')]) i c"
    "\<And>p c. file_header ex_env_file_fails p c = file_header (ex_env ex_good [(''a'', ''x'')]) p c"
    "\<And>img. allowRegistry ex_env_file_fails img = allowRegistry (ex_env ex_good [(''a'', ''x'')]) img"
    "\<And>u. Head ex_env_file_fails u = Head (ex_env ex_good [(''a'', ''x'')]) u"
    by (simp_all add: ex_env_file_fails_def ex_env_good_def encodes_def image_header_def
        file_header_def allowRegistry_def cong: option.case_cong)
  have i: "Images ex_good = [''docker.io/a'']" and l: "Layers ex_good = [''http://ok/l.tgz'']"
    by (simp_all add: ex_good_def)
  have g: "Get ex_env_file_fails ''http://ok/l.tgz'' = GetResp 200 (TarStream ex_layer EOF)"
    by (simp add: ex_env_file_fails_def ex_env_good_def ex_env_def)
  show "manifest_of ex_env_file_fails (ex_request ''GET'') = Some ex_good"
    by (auto simp: manifest_of_def resolve_def ex_env_file_fails_def ex_env_good_def ex_env_def
        ex_request_def Let_def)
  show "\<forall>u\<in>set (Layers ex_good). Head ex_env_file_fails u = HeadStatus 200"
    by (simp add: l f ex_env_head)
  show "\<forall>img\<in>set (Images ex_good). allowRegistry ex_env_file_fails img"
    by (simp add: i f ex_env_allow)
  show "list_all (\<lambda>x. image_error ex_env_file_fails x = None) (enumerate 0 (Images ex_good))"
    by (simp add: i image_error.simps f ex_good_headers put_ok_def ex_env_oracles)
  show "list_all (\<lambda>u. layer_error ex_env_file_fails u = None) (Layers ex_good)"
    by (simp add: l layer_error_def g ex_layer_def ex_good_headers put_ok_def f ex_env_oracles)
  show "RangeFiles ex_env_file_fails (Files ex_good) = [] @ (''a'', ''x'') # []"
    by (simp add: ex_env_file_fails_def ex_env_good_def ex_env_def)
  show w: "WriteFile ex_env_file_fails ''a'' = IoErr 0"
    by (simp add: ex_env_file_fails_def)
  show "\<not> file_ok ex_env_file_fails (''a'', ''x'')"
    by (simp add: put_ok_def w)
  show "concat (map (image_chunks ex_env_file_fails) (enumerate 0 (Images ex_good))) =
     [TarHeader \<lparr>Name = ''kurl/image-overrides/0.tar'', Size = 3, Mode = 420, ModTime = 7,
                  Other = 0\<rparr>,
      TarData ''AAA'']"
    by (simp add: i image_chunks.simps image_file_def f ex_good_headers put_chunks_def
        ex_env_oracles data_chunk_def)
  show "concat (map (layer_chunks ex_env_file_fails) (Layers ex_good)) =
     [TarHeader \<lparr>Name = ''kurl/foo/bar.txt'', Size = 2, Mode = 420, ModTime = 5, Other = 1\<rparr>,
      TarData ''hi'']"
    by (simp add: l layer_chunks_def layer_items_def g ex_layer_def ex_good_headers put_ok_def
        put_chunks_def f ex_env_oracles data_chunk_def)
  show "file_chunks ex_env_file_fails (''a'', ''x'') =
     [TarHeader \<lparr>Name = ''a'', Size = 1, Mode = 420, ModTime = 7, Other = 0\<rparr>]"
    by (simp add: w f ex_good_headers put_chunks_def ex_env_oracles data_chunk_def)
  show "closing ex_env_file_fails = []" "close_errors ex_env_file_fails iid = [ErrCloseArchive iid]"
    "GzipClose ex_env_file_fails"
    by (simp_all add: closing_def close_errors_def ex_env_file_fails_def ex_env_good_def
        ex_env_def)
qed

theorem midstream_error_keeps_status_witness:
  "manifest_of ex_env_two (ex_request ''GET'') = Some ex_two
   \<and> Images ex_two = [''docker.io/a''] @ ''docker.io/b'' # []
   \<and> Pull ex_env_two 1 ''docker.io/b'' = InDir ''/images/t1'' CopyImageErr
   \<and> image_error ex_env_two (1, ''docker.io/b'') = Some (ErrSaveImage ''docker.io/b'')
   \<and> \<not> early_error ex_env_two ex_two
   \<and> status (ServeHTTP ex_env_two (ex_request ''GET'')) = Some 200
   \<and> sent_headers (ServeHTTP ex_env_two (ex_request ''GET'')) = Some (download_headers Map.empty)
   \<and> logged (trace (ServeHTTP ex_env_two (ex_request ''GET''))) = [ErrSaveImage ''docker.io/b'']
   \<and> reported (trace (ServeHTTP ex_env_two (ex_request ''GET''))) = [ErrSaveImage ''docker.io/b'']
   \<and> archive (ServeHTTP ex_env_two (ex_request ''GET'')) =
       [TarHeader \<lparr>Name = ''kurl/image-overrides/0.tar'', Size = 3, Mode = 420, ModTime = 7,
                    Other = 0\<rparr>,
        TarData ''AAA'', TarEnd]
   \<and> frame (body (ServeHTTP ex_env_two (ex_request ''GET''))) =
       [GzipHeader, Plain ''Internal Server Error\<newline>'', GzipEnd]
   \<and> manifest_of ex_env_layer_down (ex_request ''GET'') = Some ex_good
   \<and> Layers ex_good = [] @ ''http://ok/l.tgz'' # []
   \<and> Get ex_env_layer_down ''http://ok/l.tgz'' = GetResp 503 GunzipErr
   \<and> layer_error ex_env_layer_down ''http://ok/l.tgz'' = Some (PipeStatus 503)
   \<and> status (ServeHTTP ex_env_layer_down (ex_request ''GET'')) = Some 200
   \<and> logged (trace (ServeHTTP ex_env_layer_down (ex_request ''GET''))) =
       [ErrPipe ''http://ok/l.tgz'' (installerID (ex_request ''GET'')) (PipeStatus 503)]
   \<and> reported (trace (ServeHTTP ex_env_layer_down (ex_request ''GET''))) =
       [ErrPipe ''http://ok/l.tgz'' (installerID (ex_request ''GET'')) (PipeStatus 503)]
   \<and> archive (ServeHTTP ex_env_layer_down (ex_request ''GET'')) =
       [TarHeader \<lparr>Name = ''kurl/image-overrides/0.tar'', Size = 3, Mode = 420, ModTime = 7,
                    Other = 0\<rparr>,
        TarData ''AAA'', TarEnd]
   \<and> texts (body (ServeHTTP ex_env_layer_down (ex_request ''GET''))) = []
   \<and> frame (body (ServeHTTP ex_env_layer_down (ex_request ''GET''))) = [GzipHeader, GzipEnd]
   \<and> manifest_of ex_env_file_fails (ex_request ''GET'') = Some ex_good
   \<and> RangeFiles ex_env_file_fails (Files ex_good) = [] @ (''a'', ''x'') # []
   \<and> WriteFile ex_env_file_fails ''a'' = IoErr 0
   \<and> \<not> file_ok ex_env_file_fails (''a'', ''x'')
   \<and> status (ServeHTTP ex_env_file_fails (ex_request ''GET'')) = Some 200
   \<and> logged (trace (ServeHTTP ex_env_file_fails (ex_request ''GET''))) =
       [ErrWriteFile ''a'' (installerID (ex_request ''GET'')),
        ErrCloseArchive (installerID (ex_request ''GET''))]
   \<and> reported (trace (ServeHTTP ex_env_file_fails (ex_request ''GET''))) =
       [ErrWriteFile ''a'' (installerID (ex_request ''GET'')),
        ErrCloseArchive (installerID (ex_request ''GET''))]
   \<and> archive (ServeHTTP ex_env_file_fails (ex_request ''GET'')) =
       [TarHeader \<lparr>Name = ''kurl/image-overrides/0.tar'', Size = 3, Mode = 420, ModTime = 7,
                    Other = 0\<rparr>,
        TarData ''AAA'',
        TarHeader \<lparr>Name = ''kurl/foo/bar.txt'', Size = 2, Mode = 420, ModTime = 5, Other = 1\<rparr>,
        TarData ''hi'',
        TarHeader \<lparr>Name = ''a'', Size = 1, Mode = 420, ModTime = 7, Other = 0\<rparr>]
   \<and> texts (body (ServeHTTP ex_env_file_fails (ex_request ''GET''))) = []
   \<and> frame (body (ServeHTTP ex_env_file_fails (ex_request ''GET''))) = [GzipHeader, GzipEnd]"
proof -
  let ?r = "ex_request ''GET''"
  have g: "Method ?r = ''GET''" by simp
  have v: "ProtoAtLeast11 ?r"
    by (simp add: ex_request_def)
  have pb: "Pull ex_env_two 1 ''docker.io/b'' = InDir ''/images/t1'' CopyImageErr"
    by (simp add: ex_env_two_def)
  note A = ex_two_facts
  note B = ex_layer_down_facts
  note C = ex_file_fails_facts
  note T1 = midstream_error_keeps_status [OF A(1) g A(2) A(3), THEN conjunct1, rule_format,
      of "[''docker.io/a'']" "''docker.io/b''" "[]" "ErrSaveImage ''docker.io/b''"]
  note T2 = midstream_error_keeps_status [OF B(1) g B(2) B(3), THEN conjunct2, THEN conjunct1,
      rule_format, OF B(4) B(5) _ B(7)]
  note T3 = midstream_error_keeps_status [OF C(1) g C(2) C(3), THEN conjunct2, THEN conjunct2,
      rule_format, OF C(4) C(5) C(6) _ C(8)]
  have 1: "status (ServeHTTP ex_env_two ?r) = Some 200
      \<and> sent_headers (ServeHTTP ex_env_two ?r) = Some (download_headers Map.empty)
      \<and> logged (trace (ServeHTTP ex_env_two ?r)) = [ErrSaveImage ''docker.io/b'']
      \<and> reported (trace (ServeHTTP ex_env_two ?r)) = [ErrSaveImage ''docker.io/b'']
      \<and> archive (ServeHTTP ex_env_two ?r) =
         [TarHeader \<lparr>Name = ''kurl/image-overrides/0.tar'', Size = 3, Mode = 420, ModTime = 7,
                      Other = 0\<rparr>,
          TarData ''AAA'', TarEnd]
      \<and> frame (body (ServeHTTP ex_env_two ?r)) =
         [GzipHeader, Plain ''Internal Server Error\<newline>'', GzipEnd]"
    using A(6) T1 v by (simp add: A)
  have 2: "status (ServeHTTP ex_env_layer_down ?r) = Some 200
      \<and> logged (trace (ServeHTTP ex_env_layer_down ?r)) =
          [ErrPipe ''http://ok/l.tgz'' (installerID ?r) (PipeStatus 503)]
      \<and> reported (trace (ServeHTTP ex_env_layer_down ?r)) =
          [ErrPipe ''http://ok/l.tgz'' (installerID ?r) (PipeStatus 503)]
      \<and> archive (ServeHTTP ex_env_layer_down ?r) =
         [TarHeader \<lparr>Name = ''kurl/image-overrides/0.tar'', Size = 3, Mode = 420, ModTime = 7,
                      Other = 0\<rparr>,
          TarData ''AAA'', TarEnd]
      \<and> texts (body (ServeHTTP ex_env_layer_down ?r)) = []
      \<and> frame (body (ServeHTTP ex_env_layer_down ?r)) = [GzipHeader, GzipEnd]"
    using T2 by (simp add: B(8-12))
  have 3: "status (ServeHTTP ex_env_file_fails ?r) = Some 200
      \<and> logged (trace (ServeHTTP ex_env_file_fails ?r)) =
          [ErrWriteFile ''a'' (installerID ?r), ErrCloseArchive (installerID ?r)]
      \<and> reported (trace (ServeHTTP ex_env_file_fails ?r)) =
          [ErrWriteFile ''a'' (installerID ?r), ErrCloseArchive (installerID ?r)]
      \<and> archive (ServeHTTP ex_env_file_fails ?r) =
         [TarHeader \<lparr>Name = ''kurl/image-overrides/0.tar'', Size = 3, Mode = 420, ModTime = 7,
                      Other = 0\<rparr>,
          TarData ''AAA'',
          TarHeader \<lparr>Name = ''kurl/foo/bar.txt'', Size = 2, Mode = 420, ModTime = 5, Other = 1\<rparr>,
          TarData ''hi'',
          TarHeader \<lparr>Name = ''a'', Size = 1, Mode = 420, ModTime = 7, Other = 0\<rparr>]
      \<and> texts (body (ServeHTTP ex_env_file_fails ?r)) = []
      \<and> frame (body (ServeHTTP ex_env_file_fails ?r)) = [GzipHeader, GzipEnd]"
    using T3 by (simp add: C(9-14) del: file_chunks.simps file_ok.simps)
  from 1 2 3 A(1,4,6,7) pb B(1,5,6,7) C(1,6,7,8) show ?thesis
    by (simp del: file_ok.simps)
qed

text \<open>
  C2 as stated fails for image errors: when the second image of a manifest cannot be
  pulled, the response keeps status 200, but the handler does more than log and report
  the error and close the writers: it writes the text of status 500 to the response
  body, past the gzip writer. With a gzip writer that holds its compressed data until
  it is closed, the client receives the gzip header, then the plain text of the error,
  then the compressed archive with the end of the gzip stream.
\<close>

theorem midstream_image_error_writes_body_counterexample:
  "manifest_of ex_env_two (ex_request ''GET'') = Some ex_two
   \<and> Images ex_two = [''docker.io/a'', ''docker.io/b'']
   \<and> Pull ex_env_two 0 ''docker.io/a'' = InDir ''/images/t0'' (Saved ''AAA'' IoOk)
   \<and> Pull ex_env_two 1 ''docker.io/b'' = InDir ''/images/t1'' CopyImageErr
   \<and> status (ServeHTTP ex_env_two (ex_request ''GET'')) = Some 200
   \<and> archive (ServeHTTP ex_env_two (ex_request ''GET'')) =
       [TarHeader \<lparr>Name = ''kurl/image-overrides/0.tar'', Size = 3, Mode = 420, ModTime = 7,
                    Other = 0\<rparr>,
        TarData ''AAA'', TarEnd]
   \<and> body (ServeHTTP ex_env_two (ex_request ''GET'')) =
       [GzipHeader, Plain ''Internal Server Error\<newline>'', GzipEnd]"
proof -
  let ?r = "ex_request ''GET''"
  have g: "Method ?r = ''GET''" by simp
  note A = ex_two_facts
  note S = serve_get [OF A(1) g A(2) A(3)]
  have q: "\<forall>cs. GzipOut ex_env_two cs = 0"
    by (simp add: ex_env_two_def ex_env_def)
  have p: "Pull ex_env_two 0 ''docker.io/a'' = InDir ''/images/t0'' (Saved ''AAA'' IoOk)"
    "Pull ex_env_two 1 ''docker.io/b'' = InDir ''/images/t1'' CopyImageErr"
    by (simp_all add: ex_env_two_def)
  have i: "Images ex_two = [''docker.io/a'', ''docker.io/b'']"
    by (simp add: ex_two_def)
  have ie: "images_error ex_env_two ex_two = Some (ErrSaveImage ''docker.io/b'')"
    using A(5,6) by (simp add: images_error_def i del: image_error.simps)
  have 1: "status (ServeHTTP ex_env_two ?r) = Some 200"
    using S(7) A(7) by (simp add: status_def)
  have rc: "run_chunks ex_env_two (installerID ?r) ex_two =
      [TarHeader \<lparr>Name = ''kurl/image-overrides/0.tar'', Size = 3, Mode = 420, ModTime = 7,
                   Other = 0\<rparr>,
       TarData ''AAA'']"
    using A(5,6) by (simp add: run_chunks_def ie i A(8,9) del: image_error.simps)
  have 2: "archive (ServeHTTP ex_env_two ?r) =
      [TarHeader \<lparr>Name = ''kurl/image-overrides/0.tar'', Size = 3, Mode = 420, ModTime = 7,
                   Other = 0\<rparr>,
       TarData ''AAA'', TarEnd]"
    by (simp add: S(1) rc A(10))
  have t: "texts (body (ServeHTTP ex_env_two ?r)) = [''Internal Server Error\<newline>'']"
    by (simp add: S(6) ie)
  have "frame (body (ServeHTTP ex_env_two ?r)) =
      [GzipHeader, Plain ''Internal Server Error\<newline>'', GzipEnd]"
    using S(8) [OF A(7)] by (simp add: ie t A(12))
  then have 3: "body (ServeHTTP ex_env_two ?r) =
      [GzipHeader, Plain ''Internal Server Error\<newline>'', GzipEnd]"
    using serve_quiet [OF A(1) g A(2) A(3) q] by simp
  from A(1) i p 1 2 3 show ?thesis
    by simp
qed

end
